(* ===== verification/Prelude.thy ===== *)
theory Prelude
  imports Main "HOL-Library.Sublist" "HOL-Library.AList"
begin

text \<open>
  Shared vocabulary of the development: the collections of simplification rules the component
  theories extend, Go's 64-bit signed integers (\<open>int\<close> and \<open>time.Duration\<close>) as integers
  with the wrap-around written out, Go's dynamic values (\<open>interface{}\<close> / \<open>any\<close>), and the
  generic list lemmas several components use.
\<close>

named_theorems cfg_simps \<open>constants of the configs package\<close>
named_theorems eff_simps \<open>equations that run an effectful program\<close>
named_theorems path_simps \<open>equations that split a program's behaviours into cases\<close>
named_theorems op_defs \<open>definitions of the client operations\<close>

section \<open>Machine integers\<close>

text \<open>
  Go's \<open>int\<close> and \<open>time.Duration\<close> are 64-bit two's complement. A value is a HOL integer in
  the range \<open>in_int64\<close>; an operation that can leave the range wraps with \<open>wrap64\<close>.
\<close>

definition in_int64 :: "int \<Rightarrow> bool" where
  "in_int64 x \<longleftrightarrow> - (2 ^ 63) \<le> x \<and> x < 2 ^ 63"

definition wrap64 :: "int \<Rightarrow> int" where
  "wrap64 x = (x + 2 ^ 63) mod 2 ^ 64 - 2 ^ 63"

definition maxInt64 :: int where
  "maxInt64 = 2 ^ 63 - 1"

lemma wrap64_in_range: "in_int64 (wrap64 x)"
proof -
  have "0 \<le> (x + 2 ^ 63) mod 2 ^ 64" and "(x + 2 ^ 63) mod 2 ^ 64 < 2 ^ 64"
    by simp_all
  then show ?thesis unfolding in_int64_def wrap64_def by simp
qed

lemma wrap64_id [simp]: "in_int64 x \<Longrightarrow> wrap64 x = x"
  by (simp add: in_int64_def wrap64_def)

lemma wrap64_max: "wrap64 (maxInt64 + 1) = - (2 ^ 63)"
  by (simp add: wrap64_def maxInt64_def)

lemma wrap64_double_overflow:
  assumes "2 ^ 62 \<le> x" and "x < 2 ^ 63"
  shows "wrap64 (x * 2) < 0"
proof -
  have "(x * 2 + 2 ^ 63) mod 2 ^ 64 = (x * 2 + 2 ^ 63 - 2 ^ 64) mod 2 ^ 64"
    by (metis minus_mod_self2)
  also have "\<dots> = x * 2 + 2 ^ 63 - 2 ^ 64"
    using assms by (intro mod_pos_pos_trivial) simp_all
  finally show ?thesis using assms by (simp add: wrap64_def)
qed

section \<open>Dynamic values\<close>

text \<open>
  \<open>goany\<close> is Go's \<open>interface{}\<close> for the dynamic types the library meets: the fields of a
  stream entry and the values the JSON decoder builds. \<open>ANum\<close> is a \<open>float64\<close> that was
  written as the given decimal literal. A Go map that may be \<open>nil\<close> is a \<open>gomap\<close>
  (\<open>None\<close> is the nil map).
\<close>

datatype goany =
    ANil
  | ABool bool
  | AInt int
  | ANum string
  | AStr string
  | AList "goany list"
  | AMap "(string \<times> goany) list"

type_synonym gomap = "(string \<times> goany) list option"
type_synonym fields = "string \<rightharpoonup> goany"

text \<open>Go's checked type assertion \<open>v.(string)\<close>.\<close>

fun assert_string :: "goany \<Rightarrow> string option" where
  "assert_string (AStr s) = Some s"
| "assert_string _ = None"

section \<open>Lists\<close>

lemma sum_list_update_nat:
  fixes xs :: "nat list"
  assumes "i < length xs"
  shows "sum_list (xs[i := v]) + xs ! i = sum_list xs + v"
  using assms
proof (induction xs arbitrary: i)
  case (Cons x xs)
  then show ?case by (cases i) auto
qed simp

lemma sum_list_ge_member:
  fixes xs :: "nat list"
  shows "i < length xs \<Longrightarrow> xs ! i \<le> sum_list xs"
  by (simp add: elem_le_sum_list)

lemma sum_list_two:
  fixes xs :: "nat list"
  assumes "i < length xs" "j < length xs" "i \<noteq> j"
  shows "xs ! i + xs ! j \<le> sum_list xs"
proof -
  have "sum_list (xs[i := 0]) + xs ! i = sum_list xs"
    using sum_list_update_nat [OF assms(1), of 0] by simp
  moreover have "xs[i := 0] ! j \<le> sum_list (xs[i := 0])"
    using assms by (intro sum_list_ge_member) simp
  ultimately show ?thesis using assms by simp
qed

end
