(* ===== verification/GoStrings.thy ===== *)
theory GoStrings
  imports Prelude "HOL-Library.List_Lexorder" "HOL-Library.Char_ord"
begin

text \<open>
  What the library uses of Go's \<open>strings\<close>, \<open>strconv\<close> and \<open>sort\<close> packages, on byte
  strings: \<open>CutPrefix\<close>, \<open>Split\<close>, \<open>Join\<close>, \<open>TrimSpace\<close>, \<open>Fields\<close>, \<open>Itoa\<close>
  and \<open>Atoi\<close>. The lemmas are the round trips the components rest on.
\<close>

section \<open>Prefixes, splitting and joining\<close>

definition CutPrefix :: "string \<Rightarrow> string \<Rightarrow> string option" where
  "CutPrefix s p = (if prefix p s then Some (drop (length p) s) else None)"

lemma CutPrefix_append [simp]: "CutPrefix (p @ s) p = Some s"
  by (simp add: CutPrefix_def)

lemma CutPrefix_Some_iff: "CutPrefix s p = Some t \<longleftrightarrow> s = p @ t"
  by (auto simp: CutPrefix_def prefix_def)

lemma CutPrefix_None_iff: "CutPrefix s p = None \<longleftrightarrow> \<not> prefix p s"
  by (simp add: CutPrefix_def)

text \<open>\<open>strings.Split\<close> for a non-empty separator, which is all the library uses.\<close>

function go_split :: "string \<Rightarrow> string \<Rightarrow> string list" where
  "go_split sep s =
     (if sep \<noteq> [] \<and> prefix sep s then [] # go_split sep (drop (length sep) s)
      else (case s of [] \<Rightarrow> [[]]
            | c # cs \<Rightarrow> (case go_split sep cs of [] \<Rightarrow> [[c]] | w # ws \<Rightarrow> (c # w) # ws)))"
  by pat_completeness auto
termination
  by (relation "measure (\<lambda>(sep, s). length s)") (auto simp: prefix_def)

declare go_split.simps [simp del]

fun go_join :: "string \<Rightarrow> string list \<Rightarrow> string" where
  "go_join sep [] = []"
| "go_join sep [w] = w"
| "go_join sep (w # ws) = w @ sep @ go_join sep ws"

lemma go_split_nonempty: "go_split sep s \<noteq> []"
  by (subst go_split.simps) (auto split: list.splits)

lemma go_split_Nil [simp]: "sep \<noteq> [] \<Longrightarrow> go_split sep [] = [[]]"
  by (subst go_split.simps) auto

lemma go_split_sep: "sep \<noteq> [] \<Longrightarrow> go_split sep (sep @ s) = [] # go_split sep s"
  by (subst go_split.simps) simp

lemma go_split_step:
  assumes "\<not> prefix sep (c # cs)" and "go_split sep cs = w # ws"
  shows "go_split sep (c # cs) = (c # w) # ws"
  using assms by (subst go_split.simps) simp

lemma go_split_no_sep:
  assumes "sep \<noteq> []" and "\<not> sublist sep s"
  shows "go_split sep s = [s]"
  using assms(2)
proof (induction s)
  case Nil
  with assms(1) show ?case by simp
next
  case (Cons c cs)
  from Cons.prems have "\<not> prefix sep (c # cs)" and "\<not> sublist sep cs"
    by (auto intro: prefix_imp_sublist sublist_Cons_right [THEN iffD2])
  with Cons.IH show ?case by (intro go_split_step) auto
qed

text \<open>
  A separator whose first character does not occur again inside it cannot overlap itself, so the
  first separator of \<open>a @ sep @ b\<close> is the written one as soon as \<open>a\<close> holds none.
\<close>

definition head_unique :: "string \<Rightarrow> bool" where
  "head_unique sep \<longleftrightarrow> sep \<noteq> [] \<and> hd sep \<notin> set (tl sep)"

lemma head_unique_prefix:
  assumes hu: "head_unique sep" and pre: "prefix sep (a @ sep @ b)"
  shows "a = [] \<or> prefix sep a"
proof (cases "length sep \<le> length a")
  case True
  with pre show ?thesis by (meson prefix_length_prefix prefixI)
next
  case False
  show ?thesis
  proof (rule ccontr)
    assume "\<not> (a = [] \<or> prefix sep a)"
    then obtain c a' where a: "a = c # a'" by (cases a) auto
    obtain h t where sep: "sep = h # t" using hu by (cases sep) (auto simp: head_unique_def)
    from pre obtain z where z: "a @ sep @ b = sep @ z" by (auto simp: prefix_def)
    have "(a @ sep @ b) ! length a = h" by (simp add: sep nth_append)
    moreover have "(sep @ z) ! length a = t ! length a'"
      using False by (simp add: sep a nth_append)
    ultimately have "h = t ! length a'" using z by metis
    moreover have "t ! length a' \<in> set t" using False by (simp add: sep a)
    ultimately show False using hu by (simp add: sep head_unique_def)
  qed
qed

lemma head_unique_no_overlap:
  assumes "head_unique sep" and "\<not> sublist sep (c # a)"
  shows "\<not> prefix sep (c # a @ sep @ b)"
  using head_unique_prefix [of sep "c # a" b] assms by (auto intro: prefix_imp_sublist)

lemma go_split_append_sep:
  assumes hu: "head_unique sep" and ns: "\<not> sublist sep a"
  shows "go_split sep (a @ sep @ b) = a # go_split sep b"
  using ns
proof (induction a)
  case Nil
  with hu show ?case by (simp add: go_split_sep head_unique_def)
next
  case (Cons c a)
  then have "\<not> sublist sep a" by (auto intro: sublist_Cons_right [THEN iffD2])
  with Cons.IH have "go_split sep (a @ sep @ b) = a # go_split sep b" by simp
  moreover have "\<not> prefix sep (c # a @ sep @ b)"
    using head_unique_no_overlap [OF hu Cons.prems] .
  ultimately show ?case by (simp add: go_split_step)
qed

lemma go_split_join:
  assumes hu: "head_unique sep" and "ws \<noteq> []" and "\<forall>w \<in> set ws. \<not> sublist sep w"
  shows "go_split sep (go_join sep ws) = ws"
  using assms(2,3)
proof (induction ws rule: induct_list012)
  case (2 w)
  then show ?case using hu by (auto intro!: go_split_no_sep simp: head_unique_def)
next
  case (3 w v vs)
  then show ?case using go_split_append_sep [OF hu, of w "go_join sep (v # vs)"] by simp
qed simp

text \<open>More pieces than one separator gives: a name that itself holds the separator.\<close>

lemma go_split_length_ge_2:
  assumes "sep \<noteq> []"
  shows "2 \<le> length (go_split sep (a @ sep @ b))"
proof (induction a)
  case Nil
  have "go_split sep b \<noteq> []" by (rule go_split_nonempty)
  with assms show ?case by (cases "go_split sep b") (simp_all add: go_split_sep)
next
  case (Cons c a)
  show ?case
  proof (cases "prefix sep (c # a @ sep @ b)")
    case True
    then have "go_split sep ((c # a) @ sep @ b)
        = [] # go_split sep (drop (length sep) (c # a @ sep @ b))"
      using assms by (subst go_split.simps) simp
    then show ?thesis
      using go_split_nonempty [of sep "drop (length sep) (c # a @ sep @ b)"]
      by (cases "go_split sep (drop (length sep) (c # a @ sep @ b))") auto
  next
    case False
    with Cons.IH show ?thesis
      by (cases "go_split sep (a @ sep @ b)") (simp_all add: go_split_step)
  qed
qed

lemma go_split_length_ge_3:
  assumes hu: "head_unique sep"
  shows "3 \<le> length (go_split sep (a @ sep @ b @ sep @ c))"
proof (induction a rule: length_induct)
  case (1 a)
  from hu have ne: "sep \<noteq> []" by (simp add: head_unique_def)
  show ?case
  proof (cases "prefix sep (a @ sep @ b @ sep @ c)")
    case True
    from head_unique_prefix [OF hu this] consider "a = []" | a' where "a = sep @ a'"
      by (auto simp: prefix_def)
    then show ?thesis
    proof cases
      case 1
      with ne show ?thesis using go_split_length_ge_2 [of sep b c] by (simp add: go_split_sep)
    next
      case 2
      with 1 ne have "3 \<le> length (go_split sep (a' @ sep @ b @ sep @ c))" by simp
      with ne show ?thesis by (simp add: 2 go_split_sep)
    qed
  next
    case False
    then obtain d a' where a: "a = d # a'" by (cases a) auto
    with 1 have "3 \<le> length (go_split sep (a' @ sep @ b @ sep @ c))" by simp
    with False show ?thesis
      by (cases "go_split sep (a' @ sep @ b @ sep @ c)") (simp_all add: a go_split_step)
  qed
qed

lemma go_split_concat: "sep \<noteq> [] \<Longrightarrow> go_join sep (go_split sep s) = s"
proof (induction sep s rule: go_split.induct)
  case (1 sep s)
  show ?case
  proof (cases "prefix sep s")
    case True
    then obtain z where s: "s = sep @ z" by (auto simp: prefix_def)
    with 1(1) 1(3) have "go_join sep (go_split sep z) = z" by simp
    then show ?thesis using 1(3) go_split_nonempty [of sep z]
      by (cases "go_split sep z") (simp_all add: s go_split_sep)
  next
    case False
    show ?thesis
    proof (cases s)
      case Nil
      with 1(3) show ?thesis by simp
    next
      case (Cons c cs)
      with False 1(2,3) have IH: "go_join sep (go_split sep cs) = cs" by simp
      obtain w ws where w: "go_split sep cs = w # ws"
        using go_split_nonempty by (cases "go_split sep cs") auto
      with False Cons have "go_split sep s = (c # w) # ws" by (simp add: go_split_step)
      with IH w Cons show ?thesis by (cases ws) simp_all
    qed
  qed
qed

section \<open>White space\<close>

text \<open>
  \<open>unicode.IsSpace\<close> on UTF-8: the number of bytes of the white space character a string starts
  with, 0 when it starts with none.
\<close>

definition space_len :: "string \<Rightarrow> nat" where
  "space_len s =
     (case map of_char s :: nat list of
        [] \<Rightarrow> 0
      | a # r \<Rightarrow>
          if (9 \<le> a \<and> a \<le> 13) \<or> a = 32 then 1
          else (case r of
              [] \<Rightarrow> 0
            | b # r' \<Rightarrow>
                if a = 194 \<and> (b = 133 \<or> b = 160) then 2
                else (case r' of
                    [] \<Rightarrow> 0
                  | c # _ \<Rightarrow>
                      if a = 225 \<and> b = 154 \<and> c = 128 then 3
                      else if a = 226 \<and> b = 128 \<and>
                              (128 \<le> c \<and> c \<le> 138 \<or> c = 168 \<or> c = 169 \<or> c = 175) then 3
                      else if a = 226 \<and> b = 129 \<and> c = 159 then 3
                      else if a = 227 \<and> b = 128 \<and> c = 128 then 3
                      else 0)))"

definition ends_space_len :: "string \<Rightarrow> nat" where
  "ends_space_len s =
     (let n = length s in
      if 1 \<le> n \<and> space_len (drop (n - 1) s) = 1 then 1
      else if 2 \<le> n \<and> space_len (drop (n - 2) s) = 2 then 2
      else if 3 \<le> n \<and> space_len (drop (n - 3) s) = 3 then 3 else 0)"

function trim_left :: "string \<Rightarrow> string" where
  "trim_left s = (if space_len s = 0 \<or> s = [] then s else trim_left (drop (space_len s) s))"
  by pat_completeness auto
termination
  by (relation "measure length") auto

function trim_right :: "string \<Rightarrow> string" where
  "trim_right s =
     (if ends_space_len s = 0 \<or> s = [] then s
      else trim_right (take (length s - ends_space_len s) s))"
  by pat_completeness auto
termination
  by (relation "measure length") auto

declare trim_left.simps [simp del] trim_right.simps [simp del]

definition TrimSpace :: "string \<Rightarrow> string" where
  "TrimSpace s = trim_right (trim_left s)"

text \<open>\<open>strings.Fields\<close>: the maximal runs of characters that are not white space.\<close>

function fields_from :: "string \<Rightarrow> string \<Rightarrow> string list" where
  "fields_from w s =
     (case s of
        [] \<Rightarrow> (if w = [] then [] else [w])
      | c # cs \<Rightarrow>
          if space_len s = 0 then fields_from (w @ [c]) cs
          else (if w = [] then fields_from [] (drop (space_len s) s)
                else w # fields_from [] (drop (space_len s) s)))"
  by pat_completeness auto
termination
  by (relation "measure (\<lambda>(w, s). length s)") auto

declare fields_from.simps [simp del]

definition Fields :: "string \<Rightarrow> string list" where
  "Fields s = fields_from [] s"

section \<open>Decimal numbers\<close>

fun nat_digits :: "nat \<Rightarrow> string" where
  "nat_digits n =
     (if n < 10 then [char_of (48 + n)] else nat_digits (n div 10) @ [char_of (48 + n mod 10)])"

declare nat_digits.simps [simp del]

definition Itoa :: "int \<Rightarrow> string" where
  "Itoa i = (if i < 0 then CHR ''-'' # nat_digits (nat (- i)) else nat_digits (nat i))"

definition digit_val :: "char \<Rightarrow> int option" where
  "digit_val c = (let n = of_char c :: int in if 48 \<le> n \<and> n \<le> 57 then Some (n - 48) else None)"

fun parse_digits :: "int \<Rightarrow> string \<Rightarrow> int option" where
  "parse_digits acc [] = Some acc"
| "parse_digits acc (c # cs) =
     (case digit_val c of None \<Rightarrow> None | Some d \<Rightarrow> parse_digits (acc * 10 + d) cs)"

text \<open>
  \<open>strconv.Atoi\<close>: an optional sign and at least one decimal digit; \<open>None\<close> is a syntax error
  or a value outside the 64-bit range.
\<close>

definition Atoi :: "string \<Rightarrow> int option" where
  "Atoi s =
     (let neg = (s \<noteq> [] \<and> hd s = CHR ''-'');
          ds = (if s \<noteq> [] \<and> (hd s = CHR ''-'' \<or> hd s = CHR ''+'') then tl s else s)
      in if ds = [] then None
         else (case parse_digits 0 ds of
             None \<Rightarrow> None
           | Some n \<Rightarrow> let v = (if neg then - n else n)
                       in if in_int64 v then Some v else None))"

lemma digit_val_char_of [simp]:
  assumes "d < 10"
  shows "digit_val (char_of (48 + d)) = Some (int d)"
proof -
  have "(of_char (char_of (48 + d) :: char) :: int) = int (of_char (char_of (48 + d) :: char))"
    by (rule of_nat_of_char [symmetric])
  also have "\<dots> = 48 + int d" using assms by simp
  finally show ?thesis using assms by (simp add: digit_val_def Let_def)
qed

lemma parse_digits_append:
  "parse_digits acc (xs @ ys)
     = (case parse_digits acc xs of None \<Rightarrow> None | Some n \<Rightarrow> parse_digits n ys)"
  by (induction xs arbitrary: acc) (auto split: option.splits)

lemma parse_nat_digits: "parse_digits 0 (nat_digits n) = Some (int n)"
proof (induction n rule: nat_digits.induct)
  case (1 n)
  show ?case
  proof (cases "n < 10")
    case True
    then show ?thesis by (subst nat_digits.simps) simp
  next
    case False
    with 1 have "parse_digits 0 (nat_digits (n div 10)) = Some (int (n div 10))" by simp
    with False show ?thesis
      by (subst nat_digits.simps) (simp add: parse_digits_append zdiv_int zmod_int)
  qed
qed

lemma nat_digits_digits: "c \<in> set (nat_digits n) \<Longrightarrow> digit_val c \<noteq> None"
proof (induction n rule: nat_digits.induct)
  case (1 n)
  then show ?case
    by (cases "n < 10") (auto simp: nat_digits.simps [of n])
qed

lemma nat_digits_nonempty: "nat_digits n \<noteq> []"
  by (subst nat_digits.simps) simp

lemma digit_val_sign [simp]: "digit_val (CHR ''-'') = None" "digit_val (CHR ''+'') = None"
  by (simp_all add: digit_val_def)

lemma hd_nat_digits: "hd (nat_digits n) \<noteq> CHR ''-''" "hd (nat_digits n) \<noteq> CHR ''+''"
  using nat_digits_digits [OF hd_in_set [OF nat_digits_nonempty], of n] by auto

lemma Atoi_Itoa: "in_int64 i \<Longrightarrow> Atoi (Itoa i) = Some i"
  by (auto simp: Atoi_def Itoa_def Let_def parse_nat_digits nat_digits_nonempty hd_nat_digits)

lemma Atoi_range: "Atoi s = Some n \<Longrightarrow> in_int64 n"
  by (auto simp: Atoi_def Let_def split: if_splits option.splits)

end
