(* ===== verification/Consts.thy ===== *)
theory Consts
  imports GoStrings
begin

text \<open>
  The \<open>configs\<close> package. Durations are integers in nanoseconds, as \<open>time.Duration\<close> is.
\<close>

definition Millisecond :: int where [cfg_simps]: "Millisecond = 1000000"
definition Second :: int where [cfg_simps]: "Second = 1000000000"
definition Minute :: int where [cfg_simps]: "Minute = 60000000000"

definition GroupSuffix :: string where [cfg_simps]: "GroupSuffix = ''-group''"
definition InputSuffix :: string where [cfg_simps]: "InputSuffix = ''-input''"
definition PendingMsgID :: string where [cfg_simps]: "PendingMsgID = ''>''"
definition StartFromNow :: string where [cfg_simps]: "StartFromNow = ''$''"
definition MinimalRangeID :: string where [cfg_simps]: "MinimalRangeID = ''-''"
definition MaximalRangeID :: string where [cfg_simps]: "MaximalRangeID = ''+''"
definition KeySpacePrefix :: string where [cfg_simps]: "KeySpacePrefix = ''__keyspace@0__:''"
definition ExpiredPayload :: string where [cfg_simps]: "ExpiredPayload = ''expired''"
definition MutexKeySep :: string where [cfg_simps]: "MutexKeySep = ''<MUTEX_KEY_SEP>''"
definition MutexKeySpacePattern :: string where [cfg_simps]:
  "MutexKeySpacePattern = KeySpacePrefix @ ''*'' @ MutexKeySep @ ''*''"
definition NotifyKeyspaceEventsCmd :: string where [cfg_simps]:
  "NotifyKeyspaceEventsCmd = ''notify-keyspace-events''"
definition KeyspacePatternForExpiredEvents :: string where [cfg_simps]:
  "KeyspacePatternForExpiredEvents = ''KEx''"
definition RedisConsumerPrefix :: string where [cfg_simps]:
  "RedisConsumerPrefix = ''redis-consumer-''"
definition LBSInput :: string where [cfg_simps]: "LBSInput = ''lbs-input''"

definition DefaultHBInterval :: int where [cfg_simps]: "DefaultHBInterval = 2 * Second"
definition DefaultLBSIdleTime :: int where [cfg_simps]:
  "DefaultLBSIdleTime = 20 * DefaultHBInterval"
definition DefaultLBSRecoveryCount :: int where [cfg_simps]: "DefaultLBSRecoveryCount = 1000"
definition DefaultKspChanSize :: int where [cfg_simps]: "DefaultKspChanSize = 500"
definition DefaultKspChanTimeout :: int where [cfg_simps]: "DefaultKspChanTimeout = 10 * Minute"
definition DefaultOutputChanSize :: int where [cfg_simps]: "DefaultOutputChanSize = 500"
definition DefaultMaxRetries :: int where [cfg_simps]: "DefaultMaxRetries = 5"
definition DefaultInitialRetryDelay :: int where [cfg_simps]:
  "DefaultInitialRetryDelay = 100 * Millisecond"
definition DefaultMaxRetryDelay :: int where [cfg_simps]: "DefaultMaxRetryDelay = 30 * Second"

definition RetryCountField :: string where [cfg_simps]: "RetryCountField = ''_retry_count''"
definition DLQReasonField :: string where [cfg_simps]: "DLQReasonField = ''_dlq_reason''"
definition DLQReasonMaxRetries :: string where [cfg_simps]:
  "DLQReasonMaxRetries = ''max_retries_exceeded''"
definition DLQReasonUnparseable :: string where [cfg_simps]: "DLQReasonUnparseable = ''unparseable''"
definition DLQSuffix :: string where [cfg_simps]: "DLQSuffix = ''-dlq''"

definition DefaultReconciliationInterval :: int where [cfg_simps]:
  "DefaultReconciliationInterval = 60 * Second"
definition DefaultMinIdleTime :: int where [cfg_simps]: "DefaultMinIdleTime = 30 * Second"
definition DefaultReconciliationBatchSize :: int where [cfg_simps]:
  "DefaultReconciliationBatchSize = 50"
definition DefaultMaxReQueueRetries :: int where [cfg_simps]: "DefaultMaxReQueueRetries = 3"
definition DefaultDLQMaxLen :: int where [cfg_simps]: "DefaultDLQMaxLen = 10000"

lemma MutexKeySep_head_unique: "head_unique MutexKeySep"
  by (simp add: head_unique_def MutexKeySep_def)

lemma MutexKeySep_nonempty [simp]: "MutexKeySep \<noteq> []"
  by (simp add: MutexKeySep_def)

text \<open>The three fields the recovery path knows of are three different keys.\<close>

lemma recovery_fields_distinct [simp]:
  "RetryCountField \<noteq> LBSInput" "LBSInput \<noteq> RetryCountField"
  "DLQReasonField \<noteq> LBSInput" "LBSInput \<noteq> DLQReasonField"
  "RetryCountField \<noteq> DLQReasonField" "DLQReasonField \<noteq> RetryCountField"
  by (simp_all add: cfg_simps)

end
