(* ===== verification/Errs.thy ===== *)
theory Errs
  imports GoStrings
begin

text \<open>
  The \<open>types/errs\<close> package: the sentinel errors, the operation names and the wrapper types, with
  Go's \<open>errors.Unwrap\<close> and \<open>errors.Is\<close> on them, and the texts their \<open>Error\<close> methods
  build. Errors that other packages return are \<open>ExtErr\<close>: a text and the error it wraps, if any.
\<close>

section \<open>Sentinels and operation names\<close>

datatype sentinel =
    ErrInvalidIdleTime | ErrInvalidRecoveryCount | ErrInvalidKspChanSize | ErrInvalidKspChanTimeout
  | ErrInvalidOutputChanSize | ErrPodConfigMissing | ErrInvalidRecoveryConfig
  | ErrClusterClientRequired | ErrKeyspaceNotifsAllMastersFailed
  | ErrInvalidKeyForLBSMessage | ErrInvalidLBSMessage | ErrNoDatastreamInLBSMessage
  | ErrAlreadyClaimed | ErrDataStreamNotFound | ErrExistingConfigWithoutOverride
  | ErrClusterNotSettled

fun sentinel_text :: "sentinel \<Rightarrow> string" where
  "sentinel_text ErrInvalidIdleTime =
     ''invalid heartbeat interval value: must be >0 and <2*heartbeat interval''"
| "sentinel_text ErrInvalidRecoveryCount =
     ''invalid recovery count: must be non-zero positive integer''"
| "sentinel_text ErrInvalidKspChanSize =
     ''invalid ksp chan size: must be non-zero positive integer''"
| "sentinel_text ErrInvalidKspChanTimeout = ''invalid ksp chan timeout: must be >= 1 min''"
| "sentinel_text ErrInvalidOutputChanSize =
     ''invalid output chan size: must be non-zero positive integer''"
| "sentinel_text ErrPodConfigMissing = ''pod name or pod IP is missing''"
| "sentinel_text ErrInvalidRecoveryConfig = ''invalid recovery config''"
| "sentinel_text ErrClusterClientRequired = ''ClusterModeOSS requires a *redis.ClusterClient''"
| "sentinel_text ErrKeyspaceNotifsAllMastersFailed =
     ''failed to enable keyspace notifications on every master''"
| "sentinel_text ErrInvalidKeyForLBSMessage = ''invalid key for LBS; must be `lbs-input`''"
| "sentinel_text ErrInvalidLBSMessage = ''invalid or malformed LBS message''"
| "sentinel_text ErrNoDatastreamInLBSMessage = ''lbs message does not have data stream name''"
| "sentinel_text ErrAlreadyClaimed = ''already claimed''"
| "sentinel_text ErrDataStreamNotFound = ''data stream not found''"
| "sentinel_text ErrExistingConfigWithoutOverride =
     ''existing configuration detected without force override option''"
| "sentinel_text ErrClusterNotSettled = ''redis cluster is not settled''"

datatype RedisOp =
    OpEnableKeyspaceNotification | OpGetUnackedMessages | OpProcessLBSMessages | OpCreateLBSStream
  | OpClaimStream | OpReadClaimedStream | OpAckStream | OpDelStream | OpClosePubSub | OpReconcile
  | OpXPending | OpReQueue | OpRouteDLQ | OpReinitTopology | OpUnmarshalLBSMessage

fun RedisOp_String :: "RedisOp \<Rightarrow> string" where
  "RedisOp_String OpEnableKeyspaceNotification = ''enabling keyspace notifications''"
| "RedisOp_String OpGetUnackedMessages = ''getting unacked messages from LBS''"
| "RedisOp_String OpProcessLBSMessages = ''processing LBS messages''"
| "RedisOp_String OpCreateLBSStream = ''creating LBS stream''"
| "RedisOp_String OpClaimStream = ''claiming stream''"
| "RedisOp_String OpReadClaimedStream = ''reading result from claimed stream''"
| "RedisOp_String OpAckStream = ''acknowledging stream''"
| "RedisOp_String OpDelStream = ''deleting stream''"
| "RedisOp_String OpClosePubSub = ''closing redis pubsub''"
| "RedisOp_String OpReconcile = ''reconciling pending LBS messages''"
| "RedisOp_String OpXPending = ''reading pending LBS messages''"
| "RedisOp_String OpReQueue = ''re-queuing LBS message''"
| "RedisOp_String OpRouteDLQ = ''routing message to DLQ''"
| "RedisOp_String OpReinitTopology = ''reinitializing for cluster topology''"
| "RedisOp_String OpUnmarshalLBSMessage = ''unmarshalling LBS message''"

datatype MutexOp = OpLockMutex | OpExtendMutex | OpUnlockMutex

fun MutexOp_String :: "MutexOp \<Rightarrow> string" where
  "MutexOp_String OpLockMutex = ''locking mutex''"
| "MutexOp_String OpExtendMutex = ''extending mutex lock''"
| "MutexOp_String OpUnlockMutex = ''unlocking mutex''"

section \<open>Errors\<close>

text \<open>
  \<open>ErrNew\<close> is an error made where it is returned (\<open>errors.New\<close>, \<open>fmt.Errorf\<close> without
  \<open>%w\<close>); \<open>WrapErr pre e post\<close> is \<open>fmt.Errorf\<close> with one \<open>%w\<close>. A nil error is
  \<open>None\<close> of type \<open>goerror option\<close>.
\<close>

datatype goerror =
    Sentinel sentinel
  | ErrNew string
  | ContextCanceled
  | LockAlreadyExpired
  | ExtErr string "goerror option"
  | RedisErr RedisOp "goerror option"
  | MutexErr MutexOp string "goerror option"
  | EncodingError string "goerror option"
  | WrapErr string goerror string

definition NewRedisError :: "RedisOp \<Rightarrow> goerror \<Rightarrow> goerror" where
  "NewRedisError op e = RedisErr op (Some e)"

definition NewMutexError :: "MutexOp \<Rightarrow> goerror option \<Rightarrow> goerror" where
  "NewMutexError op e = MutexErr op '''' e"

definition NewEncodingError :: "string \<Rightarrow> goerror option \<Rightarrow> goerror" where
  "NewEncodingError op e = EncodingError op e"

fun Unwrap :: "goerror \<Rightarrow> goerror option" where
  "Unwrap (RedisErr _ e) = e"
| "Unwrap (MutexErr _ _ e) = e"
| "Unwrap (EncodingError _ e) = e"
| "Unwrap (ExtErr _ e) = e"
| "Unwrap (WrapErr _ e _) = Some e"
| "Unwrap _ = None"

function errors_Is :: "goerror \<Rightarrow> goerror \<Rightarrow> bool" where
  "errors_Is e t \<longleftrightarrow> e = t \<or> (case Unwrap e of None \<Rightarrow> False | Some u \<Rightarrow> errors_Is u t)"
  by pat_completeness auto
termination
proof (relation "measure (\<lambda>(e, t). size e)")
  fix e t u
  assume "Unwrap e = Some u"
  then show "((u, t), (e, t)) \<in> measure (\<lambda>(e, t). size e)"
    by (cases e) auto
qed simp

declare errors_Is.simps [simp del]

text \<open>\<open>errors.Is\<close> on a possibly nil error.\<close>

definition errors_Is_opt :: "goerror option \<Rightarrow> goerror \<Rightarrow> bool" where
  "errors_Is_opt e t = (case e of None \<Rightarrow> False | Some x \<Rightarrow> errors_Is x t)"

fun Error :: "goerror \<Rightarrow> string" and Error_opt :: "goerror option \<Rightarrow> string" where
  "Error (Sentinel s) = sentinel_text s"
| "Error (ErrNew m) = m"
| "Error ContextCanceled = ''context canceled''"
| "Error LockAlreadyExpired = ''redsync: failed to unlock, lock was already expired''"
| "Error (ExtErr m _) = m"
| "Error (RedisErr op e) =
     ''redis error during operation ['' @ RedisOp_String op @ '']: '' @ Error_opt e"
| "Error (MutexErr op ln e) =
     (if ln \<noteq> '''' then ''mutex error for lock ['' @ ln @ ''] on operation [''
        else ''mutex error on operation ['') @ MutexOp_String op @ '']: '' @ Error_opt e"
| "Error (EncodingError op e) = ''encoding error on operation ['' @ op @ '']: '' @ Error_opt e"
| "Error (WrapErr pre e post) = pre @ Error e @ post"
| "Error_opt None = ''<nil>''"
| "Error_opt (Some e) = Error e"

section \<open>What the wrappers keep\<close>

lemma errors_Is_refl [simp]: "errors_Is e e"
  by (subst errors_Is.simps) simp

lemma errors_Is_wrap_iff:
  "errors_Is (NewRedisError op e) (Sentinel s) \<longleftrightarrow> errors_Is e (Sentinel s)"
  "errors_Is (NewMutexError mop eo) (Sentinel s) \<longleftrightarrow> errors_Is_opt eo (Sentinel s)"
  "errors_Is (NewEncodingError eop eo) (Sentinel s) \<longleftrightarrow> errors_Is_opt eo (Sentinel s)"
  "errors_Is (WrapErr pre e post) (Sentinel s) \<longleftrightarrow> errors_Is e (Sentinel s)"
  by (subst errors_Is.simps,
      simp add: NewRedisError_def NewMutexError_def NewEncodingError_def errors_Is_opt_def)+

lemma errors_Is_ErrNew [simp]: "\<not> errors_Is (ErrNew m) (Sentinel s)"
  by (subst errors_Is.simps) simp

lemma errors_Is_Sentinel [simp]: "errors_Is (Sentinel s) (Sentinel t) \<longleftrightarrow> s = t"
  by (subst errors_Is.simps) simp

lemma sentinel_text_inj: "sentinel_text s = sentinel_text t \<Longrightarrow> s = t"
  by (cases s; cases t; simp)

end
