(* ===== verification/Notifs.thy ===== *)
theory Notifs
  imports Consts Errs
begin

text \<open>
  \<open>notifs/lbsmsg.go\<close> and \<open>notifs/relredisnotif.go\<close>: the identity of a data stream in the load
  balancer stream, the mutex key made from it and read back from a keyspace notification, and the
  notifications handed to the user.
\<close>

section \<open>LBSInfo and its mutex key\<close>

record LBSInfo =
  DataStreamName :: string
  IDInLBS :: string

definition FormMutexKey :: "LBSInfo \<Rightarrow> string" where
  "FormMutexKey l = go_join MutexKeySep [DataStreamName l, IDInLBS l]"

definition CreateByKspNotification :: "string \<Rightarrow> string \<Rightarrow> goerror + LBSInfo" where
  "CreateByKspNotification streamName payload =
     (if payload \<noteq> ExpiredPayload
      then Inl (ErrNew (''ignoring non-expired event for key '' @ streamName
                        @ '' with payload '' @ payload))
      else (let parts = go_split MutexKeySep streamName in
        if length parts = 1 \<or> length parts > 2
        then Inl (ErrNew
          ''invalid ksp format: must be datastream_name<MUTEX_KEY_SEP>message_id_in_lbs'')
        else Inr \<lparr>DataStreamName = parts ! 0, IDInLBS = parts ! 1\<rparr>))"

definition CreateByParts :: "string \<Rightarrow> string \<Rightarrow> goerror + LBSInfo" where
  "CreateByParts dataStreamName idInLBS =
     (if length dataStreamName = 0 \<or> length idInLBS = 0
      then Inl (ErrNew ''malformed or incomplete LBS message'')
      else Inr \<lparr>DataStreamName = dataStreamName, IDInLBS = idInLBS\<rparr>)"

text \<open>\<open>extractStreamnameFromKspChannel\<close> of \<open>impl/helpers.go\<close>.\<close>

definition extractStreamnameFromKspChannel :: "string \<Rightarrow> goerror + string" where
  "extractStreamnameFromKspChannel kspChannelString =
     (case CutPrefix kspChannelString KeySpacePrefix of
        None \<Rightarrow> Inl (ErrNew ''invalid ksp channel payload'')
      | Some streamName \<Rightarrow> Inr streamName)"

section \<open>Notifications\<close>

datatype NotificationType = Unknown | StreamAdded | StreamDisowned | StreamExpired | StreamTerminated

record RecoverableRedisNotification =
  NType :: NotificationType
  Payload :: LBSInfo
  AdditionalInfo :: gomap

definition IsZero :: "RecoverableRedisNotification \<Rightarrow> bool" where
  "IsZero n \<longleftrightarrow> NType n = Unknown"

record LBSInputMessage =
  MsgDataStreamName :: string
  MsgInfo :: gomap

definition Make :: "NotificationType \<Rightarrow> LBSInfo \<Rightarrow> gomap \<Rightarrow> RecoverableRedisNotification" where
  "Make notifType lbsInfo additionalInfo =
     \<lparr>NType = notifType, Payload = lbsInfo, AdditionalInfo = additionalInfo\<rparr>"

definition MakeStreamTerminatedNotif :: "string \<Rightarrow> RecoverableRedisNotification" where
  "MakeStreamTerminatedNotif info =
     \<lparr>NType = StreamTerminated,
      Payload = \<lparr>DataStreamName = '''', IDInLBS = ''''\<rparr>,
      AdditionalInfo = Some [(''info'', AStr info)]\<rparr>"

lemma NType_Make [simp]: "NType (Make t l a) = t" "Payload (Make t l a) = l"
  by (simp_all add: Make_def)

lemma NType_Terminated [simp]: "NType (MakeStreamTerminatedNotif m) = StreamTerminated"
  by (simp add: MakeStreamTerminatedNotif_def)

section \<open>The key and the notification agree\<close>

lemma FormMutexKey_eq: "FormMutexKey l = DataStreamName l @ MutexKeySep @ IDInLBS l"
  by (simp add: FormMutexKey_def)

lemma CreateByParts_Inr_iff:
  "CreateByParts d i = Inr l \<longleftrightarrow>
     d \<noteq> [] \<and> i \<noteq> [] \<and> l = \<lparr>DataStreamName = d, IDInLBS = i\<rparr>"
  by (auto simp: CreateByParts_def)

text \<open>
  C31. The name of the channel on which Redis announces the expiry of a stream's mutex key, taken
  apart by the keyspace listener, gives back exactly the stream name and the message id the key was
  formed from if and only if neither of them holds the separator. A stream whose name holds the
  separator is therefore never reported as expired.
\<close>

theorem ksp_key_roundtrip:
  "(case extractStreamnameFromKspChannel (KeySpacePrefix @ FormMutexKey l) of
      Inl e \<Rightarrow> Inl e
    | Inr streamName \<Rightarrow> CreateByKspNotification streamName ExpiredPayload) = Inr l
   \<longleftrightarrow> \<not> sublist MutexKeySep (DataStreamName l) \<and> \<not> sublist MutexKeySep (IDInLBS l)"
proof -
  have ext: "extractStreamnameFromKspChannel (KeySpacePrefix @ FormMutexKey l)
      = Inr (FormMutexKey l)"
    by (simp add: extractStreamnameFromKspChannel_def)
  have "length (go_split MutexKeySep (FormMutexKey l)) \<ge> 3"
    if "sublist MutexKeySep (DataStreamName l) \<or> sublist MutexKeySep (IDInLBS l)"
    using that go_split_length_ge_3 [OF MutexKeySep_head_unique]
    by (fastforce simp: sublist_def FormMutexKey_eq)
  moreover have "go_split MutexKeySep (FormMutexKey l) = [DataStreamName l, IDInLBS l]"
    if "\<not> sublist MutexKeySep (DataStreamName l)" "\<not> sublist MutexKeySep (IDInLBS l)"
    using that unfolding FormMutexKey_def
    by (intro go_split_join [OF MutexKeySep_head_unique]) auto
  ultimately show ?thesis
    by (cases "sublist MutexKeySep (DataStreamName l) \<or> sublist MutexKeySep (IDInLBS l)")
      (auto simp: ext CreateByKspNotification_def Let_def)
qed

text \<open>
  The mutex key identifies the stream and the message: two entries whose names hold no separator
  share a key only when they are the same entry.
\<close>

lemma FormMutexKey_inj:
  assumes "\<not> sublist MutexKeySep (DataStreamName l)" "\<not> sublist MutexKeySep (DataStreamName m)"
    and "FormMutexKey l = FormMutexKey m"
  shows "l = m"
proof -
  have eq: "go_split MutexKeySep (FormMutexKey x)
      = DataStreamName x # go_split MutexKeySep (IDInLBS x)"
    if "\<not> sublist MutexKeySep (DataStreamName x)" for x :: LBSInfo
    using that by (simp add: FormMutexKey_eq go_split_append_sep [OF MutexKeySep_head_unique])
  from eq [OF assms(1)] eq [OF assms(2)] assms(3)
  have "DataStreamName l = DataStreamName m" by simp
  with assms(3) have "IDInLBS l = IDInLBS m" by (simp add: FormMutexKey_eq)
  with \<open>DataStreamName l = DataStreamName m\<close> show ?thesis by simp
qed

end
