(* ===== verification/GoJson.thy ===== *)
theory GoJson
  imports Notifs
begin

text \<open>
  What the library uses of \<open>encoding/json\<close>: decoding the text of the \<open>lbs-input\<close> field into an
  \<open>LBSInputMessage\<close>. The reader first builds a raw tree that keeps every member of an object in
  source order, then stores it into the struct the way the Go decoder does: field names match
  exactly or up to case folding, unknown members are skipped, a later duplicate overwrites, a second
  \<open>Info\<close> object is merged into the first, \<open>null\<close> leaves a string field alone, a value of
  another type is an error, and so is a number in \<open>Info\<close> that does not fit a \<open>float64\<close>. The
  texts of the decoder's own errors are not modelled, only the two kinds (syntax, type).
\<close>

section \<open>Lexical parts\<close>

definition byte :: "char \<Rightarrow> nat" where
  "byte c = of_char c"

definition is_ws :: "char \<Rightarrow> bool" where
  "is_ws c \<longleftrightarrow> byte c = 32 \<or> byte c = 9 \<or> byte c = 10 \<or> byte c = 13"

definition skip_ws :: "string \<Rightarrow> string" where
  "skip_ws s = dropWhile is_ws s"

definition is_digit :: "char \<Rightarrow> bool" where
  "is_digit c \<longleftrightarrow> digit_val c \<noteq> None"

definition hex_val :: "char \<Rightarrow> nat option" where
  "hex_val c = (let n = byte c in
     if 48 \<le> n \<and> n \<le> 57 then Some (n - 48)
     else if 97 \<le> n \<and> n \<le> 102 then Some (n - 87)
     else if 65 \<le> n \<and> n \<le> 70 then Some (n - 55) else None)"

fun hex4 :: "string \<Rightarrow> (nat \<times> string) option" where
  "hex4 (a # b # c # d # r) =
     (case (hex_val a, hex_val b, hex_val c, hex_val d) of
        (Some w, Some x, Some y, Some z) \<Rightarrow> Some (((w * 16 + x) * 16 + y) * 16 + z, r)
      | _ \<Rightarrow> None)"
| "hex4 _ = None"

text \<open>UTF-8: encoding of a code point, and the length of the well-formed sequence at the head.\<close>

definition utf8 :: "nat \<Rightarrow> string" where
  "utf8 n = map char_of
     (if n < 128 then [n]
      else if n < 2048 then [192 + n div 64, 128 + n mod 64]
      else if n < 65536 then [224 + n div 4096, 128 + n div 64 mod 64, 128 + n mod 64]
      else [240 + n div 262144, 128 + n div 4096 mod 64, 128 + n div 64 mod 64, 128 + n mod 64])"

definition cont :: "nat \<Rightarrow> bool" where
  "cont b \<longleftrightarrow> 128 \<le> b \<and> b \<le> 191"

definition utf8_len :: "string \<Rightarrow> nat" where
  "utf8_len s =
     (case map byte s of
        [] \<Rightarrow> 0
      | a # r \<Rightarrow>
          if a < 128 then 1
          else (case r of [] \<Rightarrow> 0 | b # r2 \<Rightarrow>
            if 194 \<le> a \<and> a \<le> 223 then (if cont b then 2 else 0)
            else (case r2 of [] \<Rightarrow> 0 | c # r3 \<Rightarrow>
              if 224 \<le> a \<and> a \<le> 239 then
                (if (if a = 224 then 160 \<le> b \<and> b \<le> 191
                     else if a = 237 then 128 \<le> b \<and> b \<le> 159 else cont b) \<and> cont c
                 then 3 else 0)
              else (case r3 of [] \<Rightarrow> 0 | d # _ \<Rightarrow>
                if 240 \<le> a \<and> a \<le> 244 then
                  (if (if a = 240 then 144 \<le> b \<and> b \<le> 191
                       else if a = 244 then 128 \<le> b \<and> b \<le> 143 else cont b) \<and> cont c \<and> cont d
                   then 4 else 0)
                else 0))))"

definition replacement :: string where
  "replacement = utf8 65533"

section \<open>Strings and numbers\<close>

definition escape_of :: "char \<Rightarrow> char option" where
  "escape_of d =
     (if d = CHR ''\"'' \<or> byte d = 92 \<or> d = CHR ''/'' then Some d
      else if d = CHR ''b'' then Some (char_of (8 :: nat))
      else if d = CHR ''f'' then Some (char_of (12 :: nat))
      else if d = CHR ''n'' then Some (char_of (10 :: nat))
      else if d = CHR ''r'' then Some (char_of (13 :: nat))
      else if d = CHR ''t'' then Some (char_of (9 :: nat)) else None)"

definition is_surrogate :: "nat \<Rightarrow> bool" where
  "is_surrogate n \<longleftrightarrow> 55296 \<le> n \<and> n < 57344"

text \<open>
  After a first half of a surrogate pair: the code point when the escape that follows is a matching
  second half, and the text after it.
\<close>

definition low_half :: "nat \<Rightarrow> string \<Rightarrow> (nat \<times> string) option" where
  "low_half hi s =
     (case s of
        b # u # r \<Rightarrow>
          if byte b = 92 \<and> u = CHR ''u'' then
            (case hex4 r of
               Some (lo, r') \<Rightarrow>
                 if hi < 56320 \<and> 56320 \<le> lo \<and> lo < 57344
                 then Some (65536 + (hi - 55296) * 1024 + (lo - 56320), r') else None
             | None \<Rightarrow> None)
          else None
      | _ \<Rightarrow> None)"

lemma hex4_length: "hex4 s = Some (n, r) \<Longrightarrow> length r < length s"
  by (cases s rule: hex4.cases) (auto split: option.splits)

lemma low_half_length: "low_half hi s = Some (n, r) \<Longrightarrow> length r < length s"
  by (auto simp: low_half_def split: list.splits if_splits option.splits dest: hex4_length)

text \<open>The rest of a string literal after its opening quote: its value and the text behind it.\<close>

function jstr :: "string \<Rightarrow> (string \<times> string) option" where
  "jstr [] = None"
| "jstr (c # cs) =
     (if c = CHR ''\"'' then Some ([], cs)
      else if byte c < 32 then None
      else if byte c = 92 then
        (case cs of
           [] \<Rightarrow> None
         | d # ds \<Rightarrow>
             (case escape_of d of
                Some e \<Rightarrow> map_option (apfst (\<lambda>x. e # x)) (jstr ds)
              | None \<Rightarrow>
                  if d = CHR ''u'' then
                    (case hex4 ds of
                       None \<Rightarrow> None
                     | Some (n, r) \<Rightarrow>
                         if is_surrogate n then
                           (case low_half n r of
                              Some (m, r') \<Rightarrow> map_option (apfst (\<lambda>x. utf8 m @ x)) (jstr r')
                            | None \<Rightarrow> map_option (apfst (\<lambda>x. replacement @ x)) (jstr r))
                         else map_option (apfst (\<lambda>x. utf8 n @ x)) (jstr r))
                  else None))
      else if utf8_len (c # cs) = 0 then map_option (apfst (\<lambda>x. replacement @ x)) (jstr cs)
      else map_option (apfst (\<lambda>x. take (utf8_len (c # cs)) (c # cs) @ x))
             (jstr (drop (utf8_len (c # cs) - 1) cs)))"
  by pat_completeness auto
termination
  by (relation "measure length") (auto dest!: hex4_length low_half_length)

declare jstr.simps(2) [simp del]

definition jdigits :: "string \<Rightarrow> string \<times> string" where
  "jdigits s = (takeWhile is_digit s, dropWhile is_digit s)"

text \<open>A number literal: its text and the text behind it.\<close>

definition jnum :: "string \<Rightarrow> (string \<times> string) option" where
  "jnum s =
     (let neg = (s \<noteq> [] \<and> hd s = CHR ''-'');
          s1 = (if neg then tl s else s);
          ip = (case s1 of
                  [] \<Rightarrow> ([], [])
                | c # cs \<Rightarrow> if c = CHR ''0'' then ([c], cs) else jdigits s1)
      in if fst ip = [] then None
         else (let s2 = snd ip;
                   dot = (s2 \<noteq> [] \<and> hd s2 = CHR ''.'');
                   fp = (if dot then jdigits (tl s2) else ([], s2))
               in if dot \<and> fst fp = [] then None
                  else (let s3 = snd fp;
                            ex = (s3 \<noteq> [] \<and> (hd s3 = CHR ''e'' \<or> hd s3 = CHR ''E''));
                            s4 = tl s3;
                            sgn = (if ex \<and> s4 \<noteq> [] \<and> (hd s4 = CHR ''+'' \<or> hd s4 = CHR ''-'')
                                   then [hd s4] else []);
                            ep = (if ex then jdigits (drop (length sgn) s4) else ([], s3))
                        in if ex \<and> fst ep = [] then None
                           else Some
                             ((if neg then ''-'' else []) @ fst ip
                              @ (if dot then ''.'' @ fst fp else [])
                              @ (if ex then [hd s3] @ sgn @ fst ep else []), snd ep))))"

section \<open>Values\<close>

definition max_depth :: nat where
  "max_depth = 10000"

text \<open>
  The recursion is on a fuel argument; every call consumes at least one character, so the length of
  the text is fuel enough.
\<close>

fun jvalue :: "nat \<Rightarrow> nat \<Rightarrow> string \<Rightarrow> (goany \<times> string) option"
  and jelems :: "nat \<Rightarrow> nat \<Rightarrow> string \<Rightarrow> (goany list \<times> string) option"
  and jmembers :: "nat \<Rightarrow> nat \<Rightarrow> string \<Rightarrow> ((string \<times> goany) list \<times> string) option" where
  "jvalue 0 d s = None"
| "jvalue (Suc f) d s =
     (case skip_ws s of
        [] \<Rightarrow> None
      | c # cs \<Rightarrow>
          if c = CHR ''\"'' then map_option (apfst AStr) (jstr cs)
          else if c = CHR ''{'' then
            (if d \<ge> max_depth then None
             else (case skip_ws cs of
                 [] \<Rightarrow> None
               | e # es \<Rightarrow> if e = CHR ''}'' then Some (AMap [], es)
                          else map_option (apfst AMap) (jmembers f (Suc d) (e # es))))
          else if c = CHR ''['' then
            (if d \<ge> max_depth then None
             else (case skip_ws cs of
                 [] \<Rightarrow> None
               | e # es \<Rightarrow> if e = CHR '']'' then Some (AList [], es)
                          else map_option (apfst AList) (jelems f (Suc d) (e # es))))
          else if prefix ''true'' (c # cs) then Some (ABool True, drop 3 cs)
          else if prefix ''false'' (c # cs) then Some (ABool False, drop 4 cs)
          else if prefix ''null'' (c # cs) then Some (ANil, drop 3 cs)
          else map_option (apfst ANum) (jnum (c # cs)))"
| "jelems 0 d s = None"
| "jelems (Suc f) d s =
     (case jvalue f d s of
        None \<Rightarrow> None
      | Some (v, r) \<Rightarrow>
          (case skip_ws r of
             [] \<Rightarrow> None
           | c # cs \<Rightarrow> if c = CHR '']'' then Some ([v], cs)
                      else if c = CHR '','' then map_option (apfst (\<lambda>vs. v # vs)) (jelems f d cs)
                      else None))"
| "jmembers 0 d s = None"
| "jmembers (Suc f) d s =
     (case skip_ws s of
        [] \<Rightarrow> None
      | q # qs \<Rightarrow>
          if q \<noteq> CHR ''\"'' then None
          else (case jstr qs of
              None \<Rightarrow> None
            | Some (k, r) \<Rightarrow>
                (case skip_ws r of
                   [] \<Rightarrow> None
                 | e # es \<Rightarrow>
                     if e \<noteq> CHR '':'' then None
                     else (case jvalue f d es of
                         None \<Rightarrow> None
                       | Some (v, r2) \<Rightarrow>
                           (case skip_ws r2 of
                              [] \<Rightarrow> None
                            | c # cs \<Rightarrow>
                                if c = CHR ''}'' then Some ([(k, v)], cs)
                                else if c = CHR '','' then
                                  map_option (apfst (\<lambda>ms. (k, v) # ms)) (jmembers f d cs)
                                else None)))))"

definition json_parse :: "string \<Rightarrow> goany option" where
  "json_parse s =
     (case jvalue (2 * length s + 2) 0 s of
        None \<Rightarrow> None
      | Some (v, r) \<Rightarrow> if skip_ws r = [] then Some v else None)"

section \<open>Storing into the struct\<close>

text \<open>
  A decimal literal overflows a \<open>float64\<close> when it rounds to infinity. The exponent is read as
  \<open>strconv.ParseFloat\<close> does, without growing past five digits.
\<close>

fun exp_digits :: "int \<Rightarrow> string \<Rightarrow> int" where
  "exp_digits e [] = e"
| "exp_digits e (c # cs) =
     exp_digits (if e < 10000 then e * 10 + the (digit_val c) else e) cs"

definition num_overflows :: "string \<Rightarrow> bool" where
  "num_overflows lit =
     (let s = (if lit \<noteq> [] \<and> hd lit = CHR ''-'' then tl lit else lit);
          ip = takeWhile is_digit s; s2 = dropWhile is_digit s;
          dot = (s2 \<noteq> [] \<and> hd s2 = CHR ''.'');
          fp = (if dot then takeWhile is_digit (tl s2) else []);
          s3 = (if dot then dropWhile is_digit (tl s2) else s2);
          neg = (s3 \<noteq> [] \<and> tl s3 \<noteq> [] \<and> hd (tl s3) = CHR ''-'');
          ex = exp_digits 0 (filter is_digit s3);
          m = the (parse_digits 0 (ip @ fp));
          e = (if neg then - ex else ex) - int (length fp)
      in if 0 \<le> e then m * 10 ^ nat e \<ge> 2 ^ 1024 - 2 ^ 970
         else m \<ge> (2 ^ 1024 - 2 ^ 970) * 10 ^ nat (- e))"

text \<open>
  Decoding into \<open>interface{}\<close>: in an object the last of several equal keys stays; the flag says
  whether a number did not fit.
\<close>

fun to_iface :: "goany \<Rightarrow> goany \<times> bool" where
  "to_iface (ANum lit) = (if num_overflows lit then (ANil, True) else (ANum lit, False))"
| "to_iface (AList vs) =
     (let rs = map to_iface vs in (AList (map fst rs), list_ex snd rs))"
| "to_iface (AMap ms) =
     (let rs = map (\<lambda>(k, v). (k, to_iface v)) ms in
      (AMap (fold (\<lambda>(k, v) m. AList.update k (fst v) m) rs []), list_ex (\<lambda>(k, v). snd v) rs))"
| "to_iface v = (v, False)"

text \<open>
  Case folding of member names, as far as it can make a name equal to one of the two field names:
  ASCII letters, the long s and the Kelvin sign.
\<close>

fun fold_key :: "string \<Rightarrow> string" where
  "fold_key [] = []"
| "fold_key (c # cs) =
     (if 97 \<le> byte c \<and> byte c \<le> 122 then char_of (byte c - 32) # fold_key cs
      else (case cs of
          [] \<Rightarrow> [c]
        | d # ds \<Rightarrow>
            if byte c = 197 \<and> byte d = 191 then CHR ''S'' # fold_key ds
            else (case ds of
                [] \<Rightarrow> c # fold_key cs
              | e # es \<Rightarrow>
                  if byte c = 226 \<and> byte d = 132 \<and> byte e = 170 then CHR ''K'' # fold_key es
                  else c # fold_key cs)))"

definition key_matches :: "string \<Rightarrow> string \<Rightarrow> bool" where
  "key_matches field key \<longleftrightarrow> key = field \<or> fold_key key = fold_key field"

definition store_member :: "string \<times> goany \<Rightarrow> LBSInputMessage \<times> bool \<Rightarrow> LBSInputMessage \<times> bool"
  where
  "store_member kv st =
     (let (k, v) = kv; (msg, bad) = st in
      if key_matches ''DataStreamName'' k then
        (case v of
           AStr s \<Rightarrow> (msg\<lparr>MsgDataStreamName := s\<rparr>, bad)
         | ANil \<Rightarrow> (msg, bad)
         | _ \<Rightarrow> (msg, True))
      else if key_matches ''Info'' k then
        (case v of
           AMap ms \<Rightarrow>
             (let old = (case MsgInfo msg of None \<Rightarrow> [] | Some m \<Rightarrow> m);
                  rs = map (\<lambda>(k, v). (k, to_iface v)) ms
              in (msg\<lparr>MsgInfo := Some (fold (\<lambda>(k, v) m. AList.update k (fst v) m) rs old)\<rparr>,
                  bad \<or> list_ex (\<lambda>(k, v). snd v) rs))
         | ANil \<Rightarrow> (msg\<lparr>MsgInfo := None\<rparr>, bad)
         | _ \<Rightarrow> (msg, True))
      else (msg, bad))"

definition zero_msg :: LBSInputMessage where
  "zero_msg = \<lparr>MsgDataStreamName = '''', MsgInfo = None\<rparr>"

definition json_syntax_error :: goerror where
  "json_syntax_error = ExtErr ''json: syntax error'' None"

definition json_type_error :: goerror where
  "json_type_error = ExtErr ''json: cannot unmarshal value'' None"

definition Unmarshal :: "string \<Rightarrow> goerror + LBSInputMessage" where
  "Unmarshal s =
     (case json_parse s of
        None \<Rightarrow> Inl json_syntax_error
      | Some ANil \<Rightarrow> Inr zero_msg
      | Some (AMap ms) \<Rightarrow>
          (let (msg, bad) = fold store_member ms (zero_msg, False)
           in if bad then Inl json_type_error else Inr msg)
      | Some _ \<Rightarrow> Inl json_type_error)"

end
