(* ===== verification/Recorder.thy ===== *)
theory Recorder
  imports Prelude
begin

text \<open>
  The \<open>metrics.Recorder\<close> interface: one constructor per method, with the method's arguments in
  order. Durations and points in time are integers in nanoseconds. The client only ever calls the
  interface, so a run of the client produces a list of such calls.
\<close>

datatype metric =
    RecordStartupRecovery bool int int
  | RecordClaimAttempt string bool int
  | RecordLockAcquisitionAttempt string bool int
  | RecordLockExtensionAttempt string bool
  | RecordLockReleaseAttempt string bool
  | RecordStreamProcessingStart string int
  | RecordStreamProcessingEnd string int
  | RecordKspNotification string
  | RecordKspNotificationDropped
  | RecordReconciliationScan int int int int
  | RecordReQueue string bool
  | RecordDLQRouting string
  | RecordMutexAliveSkip string
  | RecordAckAddGap string
  | RecordTopologyReinit bool
  | RecordMasterKeyspaceSetup bool

end
