(* ===== verification/Effects.thy ===== *)
theory Effects
  imports Notifs Recorder
begin

text \<open>
  Effectful code. A Go function that talks to Redis, to redsync, to the clock, to the metrics
  recorder, to a channel or to memory shared between goroutines is a value of type \<open>'a prog\<close>: a
  tree that either returns (\<open>Ret\<close>) or issues one effect and continues with its reply
  (\<open>Vis\<close>). The tree says what the code does; who answers the effects is a parameter of the
  semantics:
  \<^item> \<open>run h p s\<close> runs \<open>p\<close> alone, effects answered by the handler \<open>h\<close> from the state
    \<open>s\<close>, and gives the result, the log of effects with their replies, and the final state;
  \<^item> \<open>pstep h env\<close> interleaves any number of programs, one effect at a time, with steps of
    the environment in between.
  Redis, go-redis and redsync are not part of the repository: they are the handler, and what the
  code relies on of them appears as assumptions about it.
\<close>

section \<open>Programs\<close>

datatype ('e, 'r, 'a) itree = Ret 'a | Vis 'e "'r \<Rightarrow> ('e, 'r, 'a) itree"

primrec bind :: "('e, 'r, 'a) itree \<Rightarrow> ('a \<Rightarrow> ('e, 'r, 'b) itree) \<Rightarrow> ('e, 'r, 'b) itree" where
  "bind (Ret a) f = f a"
| "bind (Vis e k) f = Vis e (\<lambda>r. bind (k r) f)"

primrec run :: "('e \<Rightarrow> 's \<Rightarrow> 'r \<times> 's) \<Rightarrow> ('e, 'r, 'a) itree \<Rightarrow> 's
    \<Rightarrow> 'a \<times> ('e \<times> 'r) list \<times> 's" where
  "run h (Ret a) = (\<lambda>s. (a, [], s))"
| "run h (Vis e k) = (\<lambda>s.
     case h e s of (r, s1) \<Rightarrow> (case run h (k r) s1 of (a, tr, s2) \<Rightarrow> (a, (e, r) # tr, s2)))"

abbreviation result :: "'a \<times> 'l \<times> 's \<Rightarrow> 'a" where "result x \<equiv> fst x"
abbreviation elog :: "'a \<times> 'l \<times> 's \<Rightarrow> 'l" where "elog x \<equiv> fst (snd x)"
abbreviation final :: "'a \<times> 'l \<times> 's \<Rightarrow> 's" where "final x \<equiv> snd (snd x)"

lemma run_bind:
  "run h (bind p f) s =
     (case run h p s of (a, tr, s1) \<Rightarrow> (case run h (f a) s1 of (b, tr', s2) \<Rightarrow> (b, tr @ tr', s2)))"
  by (induction p arbitrary: s) (auto split: prod.splits)

lemma bind_assoc: "bind (bind p f) g = bind p (\<lambda>a. bind (f a) g)"
  by (induction p) auto

text \<open>
  \<open>path p tr a\<close>: the program can issue exactly the effects of the log \<open>tr\<close>, when they are
  answered with the replies of the log, and returns \<open>a\<close>. It quantifies over every behaviour
  of the environment, interference by other clients included.
\<close>

fun path :: "('e, 'r, 'a) itree \<Rightarrow> ('e \<times> 'r) list \<Rightarrow> 'a \<Rightarrow> bool" where
  "path (Ret b) [] a \<longleftrightarrow> b = a"
| "path (Vis e k) ((e', r) # tr) a \<longleftrightarrow> e' = e \<and> path (k r) tr a"
| "path _ _ _ \<longleftrightarrow> False"

lemma path_Ret [simp]: "path (Ret b) tr a \<longleftrightarrow> tr = [] \<and> b = a"
  by (cases tr) auto

lemma path_Vis: "path (Vis e k) tr a \<longleftrightarrow> (\<exists>r tr'. tr = (e, r) # tr' \<and> path (k r) tr' a)"
  by (cases tr) auto

lemma path_bind:
  "path (bind p f) tr b \<longleftrightarrow> (\<exists>tr1 tr2 a. tr = tr1 @ tr2 \<and> path p tr1 a \<and> path (f a) tr2 b)"
proof (induction p arbitrary: tr)
  case (Ret a)
  then show ?case by simp
next
  case (Vis e k)
  show ?case
  proof
    assume "path (bind (Vis e k) f) tr b"
    then obtain r tr' where tr: "tr = (e, r) # tr'" and "path (bind (k r) f) tr' b"
      by (auto simp: path_Vis)
    with Vis obtain tr1 tr2 a where "tr' = tr1 @ tr2" "path (k r) tr1 a" "path (f a) tr2 b"
      by blast
    with tr show "\<exists>tr1 tr2 a. tr = tr1 @ tr2 \<and> path (Vis e k) tr1 a \<and> path (f a) tr2 b"
      by (intro exI [of _ "(e, r) # tr1"] exI [of _ tr2] exI [of _ a]) simp
  next
    assume "\<exists>tr1 tr2 a. tr = tr1 @ tr2 \<and> path (Vis e k) tr1 a \<and> path (f a) tr2 b"
    then show "path (bind (Vis e k) f) tr b" using Vis by (fastforce simp: path_Vis)
  qed
qed

lemma path_bindI: "path p t1 a \<Longrightarrow> path (f a) t2 b \<Longrightarrow> path (bind p f) (t1 @ t2) b"
  unfolding path_bind by blast

lemma path_bind_Ret: "path (bind p (\<lambda>a. Ret (f a))) tr b \<longleftrightarrow> (\<exists>a. path p tr a \<and> f a = b)"
  by (auto simp: path_bind)

text \<open>Behaviours of a branching program, as a disjunction over the branches.\<close>

lemma path_case_sum [path_simps]:
  "path (case x of Inl e \<Rightarrow> f e | Inr v \<Rightarrow> g v) tr a \<longleftrightarrow>
     (\<exists>e. x = Inl e \<and> path (f e) tr a) \<or> (\<exists>v. x = Inr v \<and> path (g v) tr a)"
  by (cases x) auto

lemma path_case_option [path_simps]:
  "path (case x of None \<Rightarrow> p | Some v \<Rightarrow> g v) tr a \<longleftrightarrow>
     (x = None \<and> path p tr a) \<or> (\<exists>v. x = Some v \<and> path (g v) tr a)"
  by (cases x) auto

lemma path_case_list [path_simps]:
  "path (case x of [] \<Rightarrow> p | y # ys \<Rightarrow> g y ys) tr a \<longleftrightarrow>
     (x = [] \<and> path p tr a) \<or> (\<exists>y ys. x = y # ys \<and> path (g y ys) tr a)"
  by (cases x) auto

lemma path_case_bool [path_simps]:
  "path (case x of True \<Rightarrow> p | False \<Rightarrow> q) tr a \<longleftrightarrow> (x \<and> path p tr a) \<or> (\<not> x \<and> path q tr a)"
  by (cases x) auto

lemma path_case_prod [path_simps]:
  "path (case x of (y, z) \<Rightarrow> f y z) tr a \<longleftrightarrow> path (f (fst x) (snd x)) tr a"
  by (cases x) auto

lemma path_if [path_simps]:
  "path (if b then p else q) tr a \<longleftrightarrow> (b \<and> path p tr a) \<or> (\<not> b \<and> path q tr a)"
  by simp

lemmas [path_simps] = path_Vis path_bind

lemma run_path: "run h p s = (a, tr, s') \<Longrightarrow> path p tr a"
  by (induction p arbitrary: s tr) (auto split: prod.splits)

text \<open>Every path is the run of some handler: one that replays the log.\<close>

definition replay :: "'e \<Rightarrow> 'r list \<Rightarrow> 'r \<times> 'r list" where
  "replay e rs = (case rs of [] \<Rightarrow> (undefined, []) | r # rs' \<Rightarrow> (r, rs'))"

lemma path_run: "path p tr a \<Longrightarrow> run replay p (map snd tr) = (a, tr, [])"
proof (induction p arbitrary: tr)
  case (Vis e k)
  then obtain r tr' where "tr = (e, r) # tr'" "path (k r) tr' a" by (auto simp: path_Vis)
  with Vis show ?case by (simp add: replay_def)
qed simp

text \<open>
  \<open>wp p Q\<close>: every completed path of \<open>p\<close> satisfies \<open>Q\<close> of its log and result. The
  equations turn a claim about all behaviours of a program into its verification condition.
\<close>

primrec wp :: "('e, 'r, 'a) itree \<Rightarrow> (('e \<times> 'r) list \<Rightarrow> 'a \<Rightarrow> bool) \<Rightarrow> bool" where
  "wp (Ret a) = (\<lambda>Q. Q [] a)"
| "wp (Vis e k) = (\<lambda>Q. \<forall>r. wp (k r) (\<lambda>tr a. Q ((e, r) # tr) a))"

lemma wp_iff: "wp p Q \<longleftrightarrow> (\<forall>tr a. path p tr a \<longrightarrow> Q tr a)"
  by (induction p arbitrary: Q) (auto simp: path_Vis)

lemma wp_bind: "wp (bind p f) Q \<longleftrightarrow> wp p (\<lambda>tr a. wp (f a) (\<lambda>tr' b. Q (tr @ tr') b))"
  by (induction p arbitrary: Q) auto

lemma wp_path: "wp p Q \<Longrightarrow> path p tr a \<Longrightarrow> Q tr a"
  by (simp add: wp_iff)

lemma wp_run: "wp p Q \<Longrightarrow> run h p s = (a, tr, s') \<Longrightarrow> Q tr a"
  by (blast intro: wp_path run_path)

text \<open>
  A loop over a list that stops at the first error, and its behaviours: either every body succeeded,
  or a prefix did and the next one failed.
\<close>

fun seqErr :: "('x \<Rightarrow> ('e, 'r, 'err option) itree) \<Rightarrow> 'x list \<Rightarrow> ('e, 'r, 'err option) itree" where
  "seqErr f [] = Ret None"
| "seqErr f (x # xs) = bind (f x) (\<lambda>err. case err of Some e \<Rightarrow> Ret (Some e) | None \<Rightarrow> seqErr f xs)"

lemma seqErr_Cons:
  "path (seqErr f (x # xs)) tr res \<longleftrightarrow>
     (\<exists>t1 t2. tr = t1 @ t2 \<and> path (f x) t1 None \<and> path (seqErr f xs) t2 res)
     \<or> (\<exists>e. path (f x) tr (Some e) \<and> res = Some e)"
  by (auto simp: path_bind path_case_option)

lemma seqErr_None:
  "path (seqErr f xs) tr None \<longleftrightarrow>
     (\<exists>trs. tr = concat trs \<and> list_all2 (\<lambda>x t. path (f x) t None) xs trs)"
proof (induction xs arbitrary: tr)
  case (Cons x xs)
  show ?case
    unfolding seqErr_Cons Cons.IH by (auto simp: list_all2_Cons1) (metis concat.simps(2))+
qed auto

lemma seqErr_Some:
  "path (seqErr f xs) tr (Some e) \<Longrightarrow>
     \<exists>ys y zs trs t. xs = ys @ y # zs \<and> tr = concat trs @ t \<and>
       list_all2 (\<lambda>x t. path (f x) t None) ys trs \<and> path (f y) t (Some e)"
proof (induction xs arbitrary: tr)
  case (Cons x xs)
  from Cons.prems consider (here) "path (f x) tr (Some e)"
    | (later) t1 t2 where "tr = t1 @ t2" "path (f x) t1 None" "path (seqErr f xs) t2 (Some e)"
    unfolding seqErr_Cons by auto
  then show ?case
  proof cases
    case here
    then show ?thesis by (intro exI [of _ "[]"]) auto
  next
    case later
    from Cons.IH [OF later(3)] obtain ys y zs trs t where "xs = ys @ y # zs" "t2 = concat trs @ t"
      "list_all2 (\<lambda>x t. path (f x) t None) ys trs" "path (f y) t (Some e)" by blast
    with later show ?thesis
      by (intro exI [of _ "x # ys"] exI [of _ y] exI [of _ zs] exI [of _ "t1 # trs"]) auto
  qed
qed simp

lemma seqErr_append:
  "seqErr f (xs @ ys) = bind (seqErr f xs) (\<lambda>err. case err of Some e \<Rightarrow> Ret (Some e) | None \<Rightarrow> seqErr f ys)"
proof (induction xs)
  case (Cons x xs)
  have "(case err of None \<Rightarrow> seqErr f (xs @ ys) | Some e \<Rightarrow> Ret (Some e))
      = bind (case err of None \<Rightarrow> seqErr f xs | Some e \<Rightarrow> Ret (Some e))
          (\<lambda>err. case err of None \<Rightarrow> seqErr f ys | Some e \<Rightarrow> Ret (Some e))" for err
    using Cons by (cases err) simp_all
  then have "(\<lambda>err. case err of None \<Rightarrow> seqErr f (xs @ ys) | Some e \<Rightarrow> Ret (Some e))
      = (\<lambda>err. bind (case err of None \<Rightarrow> seqErr f xs | Some e \<Rightarrow> Ret (Some e))
          (\<lambda>err. case err of None \<Rightarrow> seqErr f ys | Some e \<Rightarrow> Ret (Some e)))" by (rule ext)
  then show ?case by (simp only: append_Cons seqErr.simps bind_assoc)
qed simp

section \<open>Data exchanged with the environment\<close>

type_synonym addr = string
type_synonym subscription = nat

text \<open>A redsync mutex: its key, and the options \<open>processLBSMessages\<close> creates it with.\<close>

record Mutex =
  mkey :: string
  mexpiry :: int
  mfailFast :: bool
  mretryDelay :: int
  msetNXOnExtend :: bool
  mvalue :: string

record StreamLocksInfo =
  sliLBSInfo :: LBSInfo
  sliMutex :: Mutex
  sliAdditionalInfo :: gomap

record XMessage =
  XID :: string
  XValues :: fields

record XStream =
  XStreamName :: string
  XMessages :: "XMessage list"

record KspMessage =
  KChannel :: string
  KPayload :: string

section \<open>Effects and replies\<close>

text \<open>
  The first group are the go-redis commands the client issues, the second the redsync mutex
  operations, the third pub/sub and cluster calls, the fourth the runtime (clock, random numbers,
  context, sleeping, goroutines), the last the memory and channels goroutines of one client share.
\<close>

datatype eff =
    EXAck string string string
  | EXAdd string fields int bool
  | EXDel string string
  | EXRange string string string
  | EXPendingExt string string int string string int
  | EXReadGroup string string string string
  | EXGroupCreateMkStream string string string
  | EExists string
  | EConfigGet addr string
  | EConfigSet addr string string
  | EMutexLock Mutex
  | EMutexExtend Mutex
  | EMutexUnlock Mutex
  | EPSubscribe addr string
  | EPubSubClose subscription
  | EPubSubRecv subscription
  | EForEachMaster
  | EForEachShard
  | EClusterInfo addr
  | EClusterNodes addr
  | EReloadState
  | ENow
  | ERandInt63n int
  | ECtxDone
  | ESleep int
  | EAfter int
  | EGoExtend Mutex LBSInfo gomap
  | EGoFanIn subscription
  | EGoReadLBS
  | EGoListenKsp
  | EGoReconcile
  | EMetric metric
  | ESend RecoverableRedisNotification
  | ELocksGet string
  | ELocksPut string StreamLocksInfo
  | ELocksPop string
  | ELocksNames
  | EKspTrySend KspMessage
  | EKspRecv
  | EKspDrain
  | EBrokerClose
  | ECancel
  | EPing addr
  | EClientClose addr
  | EGoConsume
  | EGoStatistics
  | EAwaitSignal

datatype reply =
    RErr goerror
  | ROk
  | RBool bool
  | RInt int
  | RStr string
  | RStrs "string list"
  | RMsgs "XMessage list"
  | RStreams "XStream list"
  | RLock "StreamLocksInfo option"
  | RKsp "KspMessage option"

type_synonym 'a prog = "(eff, reply, 'a) itree"
type_synonym log = "(eff \<times> reply) list"

text \<open>
  Reading a reply at the type the call returns. A reply of another type is the error go-redis
  reports when it cannot parse an answer.
\<close>

definition bad_reply :: goerror where
  "bad_reply = ErrNew ''redis: unexpected reply''"

fun as_err :: "reply \<Rightarrow> goerror option" where
  "as_err (RErr e) = Some e"
| "as_err _ = None"

fun as_int :: "reply \<Rightarrow> goerror + int" where
  "as_int (RInt n) = Inr n"
| "as_int (RErr e) = Inl e"
| "as_int _ = Inl bad_reply"

fun as_str :: "reply \<Rightarrow> goerror + string" where
  "as_str (RStr n) = Inr n"
| "as_str (RErr e) = Inl e"
| "as_str _ = Inl bad_reply"

fun as_strs :: "reply \<Rightarrow> goerror + string list" where
  "as_strs (RStrs n) = Inr n"
| "as_strs (RErr e) = Inl e"
| "as_strs _ = Inl bad_reply"

fun as_msgs :: "reply \<Rightarrow> goerror + XMessage list" where
  "as_msgs (RMsgs n) = Inr n"
| "as_msgs (RErr e) = Inl e"
| "as_msgs _ = Inl bad_reply"

fun as_streams :: "reply \<Rightarrow> goerror + XStream list" where
  "as_streams (RStreams n) = Inr n"
| "as_streams (RErr e) = Inl e"
| "as_streams _ = Inl bad_reply"

fun as_bool :: "reply \<Rightarrow> bool" where
  "as_bool (RBool b) = b"
| "as_bool _ = False"

fun as_num :: "reply \<Rightarrow> int" where
  "as_num (RInt n) = n"
| "as_num _ = 0"

fun as_lock :: "reply \<Rightarrow> StreamLocksInfo option" where
  "as_lock (RLock l) = l"
| "as_lock _ = None"

fun as_names :: "reply \<Rightarrow> string list" where
  "as_names (RStrs n) = n"
| "as_names _ = []"

text \<open>\<open>Extend\<close> returns a flag and an error.\<close>

fun as_flag_err :: "reply \<Rightarrow> bool \<times> goerror option" where
  "as_flag_err (RBool b) = (b, None)"
| "as_flag_err (RErr e) = (False, Some e)"
| "as_flag_err _ = (False, Some bad_reply)"

text \<open>\<open>None\<close> is the \<open>ctx.Done()\<close> branch of the listener's select.\<close>

fun as_ksp :: "reply \<Rightarrow> KspMessage option option" where
  "as_ksp (RKsp m) = Some m"
| "as_ksp _ = None"

lemma as_int_Inr [simp]: "as_int r = Inr n \<longleftrightarrow> r = RInt n"
  by (cases r) auto

lemma as_msgs_Inr [simp]: "as_msgs r = Inr n \<longleftrightarrow> r = RMsgs n"
  by (cases r) auto

lemma as_strs_Inr [simp]: "as_strs r = Inr n \<longleftrightarrow> r = RStrs n"
  by (cases r) auto

lemma as_str_Inr [simp]: "as_str r = Inr n \<longleftrightarrow> r = RStr n"
  by (cases r) auto

lemma as_streams_Inr [simp]: "as_streams r = Inr n \<longleftrightarrow> r = RStreams n"
  by (cases r) auto

lemma as_err_Some [simp]: "as_err r = Some e \<longleftrightarrow> r = RErr e"
  by (cases r) auto

lemma as_lock_Some [simp]: "as_lock r = Some l \<longleftrightarrow> r = RLock (Some l)"
  by (cases r) auto

lemma as_err_int [simp]: "as_int r = Inr n \<Longrightarrow> as_err r = None"
  by (cases r) auto

section \<open>The calls, in continuation style\<close>

definition xAck :: "string \<Rightarrow> string \<Rightarrow> string \<Rightarrow> (goerror + int \<Rightarrow> 'a prog) \<Rightarrow> 'a prog" where
  [eff_simps]: "xAck st g i k = Vis (EXAck st g i) (\<lambda>r. k (as_int r))"

definition xAdd :: "string \<Rightarrow> fields \<Rightarrow> int \<Rightarrow> bool \<Rightarrow> (goerror option \<Rightarrow> 'a prog) \<Rightarrow> 'a prog" where
  [eff_simps]: "xAdd st vs maxLen approx k = Vis (EXAdd st vs maxLen approx) (\<lambda>r. k (as_err r))"

definition xDel :: "string \<Rightarrow> string \<Rightarrow> (goerror option \<Rightarrow> 'a prog) \<Rightarrow> 'a prog" where
  [eff_simps]: "xDel st i k = Vis (EXDel st i) (\<lambda>r. k (as_err r))"

definition xRange :: "string \<Rightarrow> string \<Rightarrow> string \<Rightarrow> (goerror + XMessage list \<Rightarrow> 'a prog) \<Rightarrow> 'a prog"
  where [eff_simps]: "xRange st a b k = Vis (EXRange st a b) (\<lambda>r. k (as_msgs r))"

text \<open>\<open>XPendingExt\<close>: only the entries' ids are used.\<close>

definition xPendingExt :: "string \<Rightarrow> string \<Rightarrow> int \<Rightarrow> string \<Rightarrow> string \<Rightarrow> int
    \<Rightarrow> (goerror + string list \<Rightarrow> 'a prog) \<Rightarrow> 'a prog" where
  [eff_simps]: "xPendingExt st g idle a b n k =
     Vis (EXPendingExt st g idle a b n) (\<lambda>r. k (as_strs r))"

definition xReadGroup :: "string \<Rightarrow> string \<Rightarrow> string \<Rightarrow> string
    \<Rightarrow> (goerror + XStream list \<Rightarrow> 'a prog) \<Rightarrow> 'a prog" where
  [eff_simps]: "xReadGroup g c st i k = Vis (EXReadGroup g c st i) (\<lambda>r. k (as_streams r))"

definition xGroupCreateMkStream :: "string \<Rightarrow> string \<Rightarrow> string \<Rightarrow> (goerror option \<Rightarrow> 'a prog)
    \<Rightarrow> 'a prog" where
  [eff_simps]: "xGroupCreateMkStream st g i k =
     Vis (EXGroupCreateMkStream st g i) (\<lambda>r. k (as_err r))"

definition existsKey :: "string \<Rightarrow> (goerror + int \<Rightarrow> 'a prog) \<Rightarrow> 'a prog" where
  [eff_simps]: "existsKey key k = Vis (EExists key) (\<lambda>r. k (as_int r))"

definition configGet :: "addr \<Rightarrow> string \<Rightarrow> (goerror + string list \<Rightarrow> 'a prog) \<Rightarrow> 'a prog" where
  [eff_simps]: "configGet n p k = Vis (EConfigGet n p) (\<lambda>r. k (as_strs r))"

definition configSet :: "addr \<Rightarrow> string \<Rightarrow> string \<Rightarrow> (goerror option \<Rightarrow> 'a prog) \<Rightarrow> 'a prog" where
  [eff_simps]: "configSet n p v k = Vis (EConfigSet n p v) (\<lambda>r. k (as_err r))"

definition mutexLock :: "Mutex \<Rightarrow> (goerror option \<Rightarrow> 'a prog) \<Rightarrow> 'a prog" where
  [eff_simps]: "mutexLock m k = Vis (EMutexLock m) (\<lambda>r. k (as_err r))"

definition mutexExtend :: "Mutex \<Rightarrow> (bool \<times> goerror option \<Rightarrow> 'a prog) \<Rightarrow> 'a prog" where
  [eff_simps]: "mutexExtend m k = Vis (EMutexExtend m) (\<lambda>r. k (as_flag_err r))"

definition mutexUnlock :: "Mutex \<Rightarrow> (goerror option \<Rightarrow> 'a prog) \<Rightarrow> 'a prog" where
  [eff_simps]: "mutexUnlock m k = Vis (EMutexUnlock m) (\<lambda>r. k (as_err r))"

definition now :: "(int \<Rightarrow> 'a prog) \<Rightarrow> 'a prog" where
  [eff_simps]: "now k = Vis ENow (\<lambda>r. k (as_num r))"

definition ctxDone :: "(bool \<Rightarrow> 'a prog) \<Rightarrow> 'a prog" where
  [eff_simps]: "ctxDone k = Vis ECtxDone (\<lambda>r. k (as_bool r))"

definition randInt63n :: "int \<Rightarrow> (int \<Rightarrow> 'a prog) \<Rightarrow> 'a prog" where
  [eff_simps]: "randInt63n n k = Vis (ERandInt63n n) (\<lambda>r. k (as_num r))"

definition metric :: "metric \<Rightarrow> 'a prog \<Rightarrow> 'a prog" where
  [eff_simps]: "metric m p = Vis (EMetric m) (\<lambda>_. p)"

definition send :: "RecoverableRedisNotification \<Rightarrow> 'a prog \<Rightarrow> 'a prog" where
  [eff_simps]: "send n p = Vis (ESend n) (\<lambda>_. p)"

definition sleep :: "int \<Rightarrow> 'a prog \<Rightarrow> 'a prog" where
  [eff_simps]: "sleep d p = Vis (ESleep d) (\<lambda>_. p)"

text \<open>
  \<open>select\<close> between \<open>ctx.Done()\<close> and \<open>time.After d\<close>: the reply is true when the context
  won.
\<close>

definition afterOrDone :: "int \<Rightarrow> (bool \<Rightarrow> 'a prog) \<Rightarrow> 'a prog" where
  [eff_simps]: "afterOrDone d k = Vis (EAfter d) (\<lambda>r. k (as_bool r))"

definition goExtend :: "Mutex \<Rightarrow> LBSInfo \<Rightarrow> gomap \<Rightarrow> 'a prog \<Rightarrow> 'a prog" where
  [eff_simps]: "goExtend m l i p = Vis (EGoExtend m l i) (\<lambda>_. p)"

text \<open>The other goroutines the client starts.\<close>

definition goFanIn :: "subscription \<Rightarrow> 'a prog \<Rightarrow> 'a prog" where
  [eff_simps]: "goFanIn ps p = Vis (EGoFanIn ps) (\<lambda>_. p)"

definition goReadLBS :: "'a prog \<Rightarrow> 'a prog" where
  [eff_simps]: "goReadLBS p = Vis EGoReadLBS (\<lambda>_. p)"

definition goListenKsp :: "'a prog \<Rightarrow> 'a prog" where
  [eff_simps]: "goListenKsp p = Vis EGoListenKsp (\<lambda>_. p)"

definition goReconcile :: "'a prog \<Rightarrow> 'a prog" where
  [eff_simps]: "goReconcile p = Vis EGoReconcile (\<lambda>_. p)"

text \<open>Calls of a program that uses the client: its connection, its goroutines, the shutdown signal.\<close>

definition ping :: "addr \<Rightarrow> (goerror option \<Rightarrow> 'a prog) \<Rightarrow> 'a prog" where
  [eff_simps]: "ping a k = Vis (EPing a) (\<lambda>r. k (as_err r))"

definition clientClose :: "addr \<Rightarrow> 'a prog \<Rightarrow> 'a prog" where
  [eff_simps]: "clientClose a p = Vis (EClientClose a) (\<lambda>_. p)"

definition goConsume :: "'a prog \<Rightarrow> 'a prog" where
  [eff_simps]: "goConsume p = Vis EGoConsume (\<lambda>_. p)"

definition goStatistics :: "'a prog \<Rightarrow> 'a prog" where
  [eff_simps]: "goStatistics p = Vis EGoStatistics (\<lambda>_. p)"

definition awaitSignal :: "'a prog \<Rightarrow> 'a prog" where
  [eff_simps]: "awaitSignal p = Vis EAwaitSignal (\<lambda>_. p)"

text \<open>Pub/sub and cluster calls. A subscription is named by the number its opening returned.\<close>

definition pSubscribe :: "addr \<Rightarrow> string \<Rightarrow> (subscription \<Rightarrow> 'a prog) \<Rightarrow> 'a prog" where
  [eff_simps]: "pSubscribe a pat k = Vis (EPSubscribe a pat) (\<lambda>r. k (nat (as_num r)))"

definition pubSubClose :: "subscription \<Rightarrow> (goerror option \<Rightarrow> 'a prog) \<Rightarrow> 'a prog" where
  [eff_simps]: "pubSubClose ps k = Vis (EPubSubClose ps) (\<lambda>r. k (as_err r))"

definition pubSubRecv :: "subscription \<Rightarrow> (KspMessage option option \<Rightarrow> 'a prog) \<Rightarrow> 'a prog" where
  [eff_simps]: "pubSubRecv ps k = Vis (EPubSubRecv ps) (\<lambda>r. k (as_ksp r))"

text \<open>
  \<open>ForEachMaster\<close> and \<open>ForEachShard\<close> hand the callback to every node known to the client, or fail
  before any. The effect answers with the nodes, in the order their callbacks take effect.
\<close>

definition forEachMaster :: "(goerror + addr list \<Rightarrow> 'a prog) \<Rightarrow> 'a prog" where
  [eff_simps]: "forEachMaster k = Vis EForEachMaster (\<lambda>r. k (as_strs r))"

definition forEachShard :: "(goerror + addr list \<Rightarrow> 'a prog) \<Rightarrow> 'a prog" where
  [eff_simps]: "forEachShard k = Vis EForEachShard (\<lambda>r. k (as_strs r))"

definition clusterInfo :: "addr \<Rightarrow> (goerror + string \<Rightarrow> 'a prog) \<Rightarrow> 'a prog" where
  [eff_simps]: "clusterInfo a k = Vis (EClusterInfo a) (\<lambda>r. k (as_str r))"

definition clusterNodes :: "addr \<Rightarrow> (goerror + string \<Rightarrow> 'a prog) \<Rightarrow> 'a prog" where
  [eff_simps]: "clusterNodes a k = Vis (EClusterNodes a) (\<lambda>r. k (as_str r))"

definition reloadState :: "'a prog \<Rightarrow> 'a prog" where
  [eff_simps]: "reloadState p = Vis EReloadState (\<lambda>_. p)"

text \<open>
  The keyspace channel: a non-blocking send (true when the message was taken), the listener's
  select, and emptying it. Then the broker's \<open>Close\<close> and the cancel function.
\<close>

definition kspTrySend :: "KspMessage \<Rightarrow> (bool \<Rightarrow> 'a prog) \<Rightarrow> 'a prog" where
  [eff_simps]: "kspTrySend m k = Vis (EKspTrySend m) (\<lambda>r. k (as_bool r))"

definition kspRecv :: "(KspMessage option option \<Rightarrow> 'a prog) \<Rightarrow> 'a prog" where
  [eff_simps]: "kspRecv k = Vis EKspRecv (\<lambda>r. k (as_ksp r))"

definition kspDrain :: "'a prog \<Rightarrow> 'a prog" where
  [eff_simps]: "kspDrain p = Vis EKspDrain (\<lambda>_. p)"

definition brokerClose :: "'a prog \<Rightarrow> 'a prog" where
  [eff_simps]: "brokerClose p = Vis EBrokerClose (\<lambda>_. p)"

definition cancel :: "'a prog \<Rightarrow> 'a prog" where
  [eff_simps]: "cancel p = Vis ECancel (\<lambda>_. p)"

text \<open>The stream locks map, each access under \<open>streamLocksMutex\<close>.\<close>

definition locksGet :: "string \<Rightarrow> (StreamLocksInfo option \<Rightarrow> 'a prog) \<Rightarrow> 'a prog" where
  [eff_simps]: "locksGet n k = Vis (ELocksGet n) (\<lambda>r. k (as_lock r))"

definition locksPut :: "string \<Rightarrow> StreamLocksInfo \<Rightarrow> 'a prog \<Rightarrow> 'a prog" where
  [eff_simps]: "locksPut n l p = Vis (ELocksPut n l) (\<lambda>_. p)"

definition locksPop :: "string \<Rightarrow> (StreamLocksInfo option \<Rightarrow> 'a prog) \<Rightarrow> 'a prog" where
  [eff_simps]: "locksPop n k = Vis (ELocksPop n) (\<lambda>r. k (as_lock r))"

definition locksNames :: "(string list \<Rightarrow> 'a prog) \<Rightarrow> 'a prog" where
  [eff_simps]: "locksNames k = Vis ELocksNames (\<lambda>r. k (as_names r))"

section \<open>Interleaving\<close>

text \<open>
  A pool of programs over one environment. One step lets one program issue its next effect, or lets
  the environment move by itself (a key expires, another client is served).
\<close>

type_synonym ('a, 's) pool = "'a prog list \<times> 's"

inductive pstep :: "(eff \<Rightarrow> 's \<Rightarrow> reply \<times> 's) \<Rightarrow> ('s \<Rightarrow> 's \<Rightarrow> bool)
    \<Rightarrow> ('a, 's) pool \<Rightarrow> (nat \<times> eff \<times> reply) option \<Rightarrow> ('a, 's) pool \<Rightarrow> bool"
  for h :: "eff \<Rightarrow> 's \<Rightarrow> reply \<times> 's" and env :: "'s \<Rightarrow> 's \<Rightarrow> bool" where
  thread: "i < length ps \<Longrightarrow> ps ! i = Vis e k \<Longrightarrow> h e s = (r, s') \<Longrightarrow>
     pstep h env (ps, s) (Some (i, e, r)) (ps[i := k r], s')"
| environment: "env s s' \<Longrightarrow> pstep h env (ps, s) None (ps, s')"

text \<open>The states a pool reaches, with the log of the effects issued so far, oldest first.\<close>

inductive preach :: "(eff \<Rightarrow> 's \<Rightarrow> reply \<times> 's) \<Rightarrow> ('s \<Rightarrow> 's \<Rightarrow> bool)
    \<Rightarrow> ('a, 's) pool \<Rightarrow> (nat \<times> eff \<times> reply) list \<Rightarrow> ('a, 's) pool \<Rightarrow> bool"
  for h :: "eff \<Rightarrow> 's \<Rightarrow> reply \<times> 's" and env :: "'s \<Rightarrow> 's \<Rightarrow> bool" and c0 :: "('a, 's) pool" where
  start: "preach h env c0 [] c0"
| move: "preach h env c0 tr c \<Longrightarrow> pstep h env c (Some l) c' \<Longrightarrow> preach h env c0 (tr @ [l]) c'"
| silent: "preach h env c0 tr c \<Longrightarrow> pstep h env c None c' \<Longrightarrow> preach h env c0 tr c'"

inductive_cases pstep_SomeE: "pstep h env c (Some l) c'"
inductive_cases pstep_NoneE: "pstep h env c None c'"

lemma preach_length: "preach h env c0 tr c \<Longrightarrow> length (fst c) = length (fst c0)"
  by (induction rule: preach.induct) (auto elim: pstep_SomeE pstep_NoneE)

text \<open>Letting one program of the pool run to its end.\<close>

lemma preach_run:
  assumes "preach h env c0 t (ps, s)" and "i < length ps" and "ps ! i = p"
    and "run h p s = (a, tr, s')"
  shows "preach h env c0 (t @ map (Pair i) tr) (ps[i := Ret a], s')"
  using assms
proof (induction p arbitrary: t ps s tr)
  case (Ret b)
  then show ?case by (metis append_Nil2 list.simps(8) list_update_id prod.inject run.simps(1))
next
  case (Vis e k)
  obtain x s1 tr1 where h: "h e s = (x, s1)" and tr: "tr = (e, x) # tr1"
    and r: "run h (k x) s1 = (a, tr1, s')"
    using Vis.prems(4) by (auto split: prod.splits)
  have "pstep h env (ps, s) (Some (i, e, x)) (ps[i := k x], s1)"
    using Vis.prems h by (intro thread) simp_all
  with Vis.prems(1) have "preach h env c0 (t @ [(i, e, x)]) (ps[i := k x], s1)" by (rule move)
  from Vis.IH [OF _ this _ _ r] Vis.prems(2) show ?case by (simp add: tr)
qed

end
