(* ===== verification/LbsEntry.thy ===== *)
theory LbsEntry
  imports GoJson Effects
begin

text \<open>
  \<open>impl/lbsentry.go\<close>: one entry of the load balancer stream, its retry count, its data stream
  name and the copy of its fields that recovery re-adds.
\<close>

record lbsEntry =
  eid :: string
  evalues :: fields

definition retryCount :: "lbsEntry \<Rightarrow> int" where
  "retryCount e =
     (case evalues e RetryCountField of
        None \<Rightarrow> 0
      | Some v \<Rightarrow>
          (case assert_string v of
             None \<Rightarrow> 0
           | Some s \<Rightarrow>
               (case Atoi s of
                  None \<Rightarrow> 0
                | Some n \<Rightarrow> if n < 0 then 0 else n)))"

definition dataStreamName :: "lbsEntry \<Rightarrow> goerror + string" where
  "dataStreamName e =
     (case evalues e LBSInput of
        None \<Rightarrow> Inl (Sentinel ErrInvalidKeyForLBSMessage)
      | Some v \<Rightarrow>
          (case assert_string v of
             None \<Rightarrow> Inl (Sentinel ErrInvalidLBSMessage)
           | Some s \<Rightarrow>
               (case Unmarshal s of
                  Inl err \<Rightarrow> Inl (NewRedisError OpUnmarshalLBSMessage err)
                | Inr msg \<Rightarrow>
                    if MsgDataStreamName msg = ''''
                    then Inl (Sentinel ErrNoDatastreamInLBSMessage)
                    else Inr (MsgDataStreamName msg))))"

text \<open>
  The Go code copies the map entry by entry; maps are values here, so the copy is the map itself and
  an update of the copy cannot reach the original.
\<close>

definition cloneValues :: "lbsEntry \<Rightarrow> fields" where
  "cloneValues e = evalues e"

lemma retryCount_range: "0 \<le> retryCount e \<and> retryCount e \<le> maxInt64"
  by (auto simp: retryCount_def maxInt64_def in_int64_def split: option.splits
      dest!: Atoi_range)

lemma retryCount_stored:
  assumes "0 \<le> n" and "n \<le> maxInt64" and "evalues e RetryCountField = Some (AStr (Itoa n))"
  shows "retryCount e = n"
proof -
  have "in_int64 n" using assms by (simp add: in_int64_def maxInt64_def)
  with assms show ?thesis by (simp add: retryCount_def Atoi_Itoa)
qed

lemma dataStreamName_nonempty: "dataStreamName e = Inr d \<Longrightarrow> d \<noteq> []"
  by (auto simp: dataStreamName_def split: option.splits sum.splits if_splits)

text \<open>The stream name depends on the \<open>lbs-input\<close> field alone.\<close>

lemma dataStreamName_cong:
  "evalues e LBSInput = evalues e' LBSInput \<Longrightarrow> dataStreamName e = dataStreamName e'"
  by (simp add: dataStreamName_def)

end
