(* ===== verification/Config.thy ===== *)
theory Config
  imports Effects
begin

text \<open>
  \<open>impl/opts.go\<close>, \<open>impl/recovery_config.go\<close> and the construction of the client in
  \<open>impl/relredis.go\<close>: retry and recovery configuration with their validation, the fluent builder,
  the options, and \<open>NewRedisStreamClient\<close>. \<open>Client\<close> holds the fields of
  \<open>RecoverableRedisStreamClient\<close> that are fixed once the client is built; the fields goroutines
  change (\<open>streamLocks\<close>, the channels, the subscriptions) are reached through effects.
\<close>

section \<open>Retry configuration\<close>

record RetryConfig =
  rcMaxRetries :: int
  rcInitialRetryDelay :: int
  rcMaxRetryDelay :: int

definition DefaultRetryConfig :: RetryConfig where
  "DefaultRetryConfig =
     \<lparr>rcMaxRetries = DefaultMaxRetries,
      rcInitialRetryDelay = DefaultInitialRetryDelay,
      rcMaxRetryDelay = DefaultMaxRetryDelay\<rparr>"

definition RetryConfig_Validate :: "RetryConfig \<Rightarrow> goerror option" where
  "RetryConfig_Validate rc =
     (if rcMaxRetries rc < -1
      then Some (ErrNew ''maxRetries must be -1 (unlimited) or >= 0'')
      else if rcInitialRetryDelay rc \<le> 0
      then Some (ErrNew ''initialRetryDelay must be greater than 0'')
      else if rcMaxRetryDelay rc \<le> 0
      then Some (ErrNew ''maxRetryDelay must be greater than 0'')
      else if rcInitialRetryDelay rc > rcMaxRetryDelay rc
      then Some (ErrNew ''initialRetryDelay cannot be greater than maxRetryDelay'')
      else None)"

section \<open>Recovery configuration and its builder\<close>

record RecoveryConfig =
  ReconciliationInterval :: int
  MinIdleTime :: int
  BatchSize :: int
  MaxRetries :: int
  DLQStream :: string
  DLQMaxLen :: int

definition DefaultRecoveryConfig :: RecoveryConfig where
  "DefaultRecoveryConfig =
     \<lparr>ReconciliationInterval = DefaultReconciliationInterval,
      MinIdleTime = DefaultMinIdleTime,
      BatchSize = DefaultReconciliationBatchSize,
      MaxRetries = DefaultMaxReQueueRetries,
      DLQStream = '''',
      DLQMaxLen = DefaultDLQMaxLen\<rparr>"

definition invalidRecoveryConfig :: "string \<Rightarrow> goerror" where
  "invalidRecoveryConfig why = WrapErr '''' (Sentinel ErrInvalidRecoveryConfig) ('': '' @ why)"

definition RecoveryConfig_Validate :: "RecoveryConfig \<Rightarrow> goerror option" where
  "RecoveryConfig_Validate rc =
     (if ReconciliationInterval rc \<le> 0
      then Some (invalidRecoveryConfig ''reconciliationInterval must be greater than 0'')
      else if MinIdleTime rc \<le> 0
      then Some (invalidRecoveryConfig ''minIdleTime must be greater than 0'')
      else if BatchSize rc \<le> 0
      then Some (invalidRecoveryConfig ''batchSize must be greater than 0'')
      else if MaxRetries rc < 0
      then Some (invalidRecoveryConfig ''maxRetries must be >= 0'')
      else if DLQMaxLen rc < 0
      then Some (invalidRecoveryConfig ''dlqMaxLen must be >= 0 (0 disables the cap)'')
      else None)"

record RecoveryConfigBuilder =
  bcfg :: RecoveryConfig

definition NewRecoveryConfigBuilder :: RecoveryConfigBuilder where
  "NewRecoveryConfigBuilder = \<lparr>bcfg = DefaultRecoveryConfig\<rparr>"

definition WithReconciliationInterval :: "int \<Rightarrow> RecoveryConfigBuilder \<Rightarrow> RecoveryConfigBuilder" where
  "WithReconciliationInterval d b = b\<lparr>bcfg := (bcfg b)\<lparr>ReconciliationInterval := d\<rparr>\<rparr>"

definition WithMinIdleTime :: "int \<Rightarrow> RecoveryConfigBuilder \<Rightarrow> RecoveryConfigBuilder" where
  "WithMinIdleTime d b = b\<lparr>bcfg := (bcfg b)\<lparr>MinIdleTime := d\<rparr>\<rparr>"

definition WithBatchSize :: "int \<Rightarrow> RecoveryConfigBuilder \<Rightarrow> RecoveryConfigBuilder" where
  "WithBatchSize n b = b\<lparr>bcfg := (bcfg b)\<lparr>BatchSize := n\<rparr>\<rparr>"

definition WithMaxRetries :: "int \<Rightarrow> RecoveryConfigBuilder \<Rightarrow> RecoveryConfigBuilder" where
  "WithMaxRetries n b = b\<lparr>bcfg := (bcfg b)\<lparr>MaxRetries := n\<rparr>\<rparr>"

definition WithDLQStream :: "string \<Rightarrow> RecoveryConfigBuilder \<Rightarrow> RecoveryConfigBuilder" where
  "WithDLQStream name b = b\<lparr>bcfg := (bcfg b)\<lparr>DLQStream := name\<rparr>\<rparr>"

definition WithDLQMaxLen :: "int \<Rightarrow> RecoveryConfigBuilder \<Rightarrow> RecoveryConfigBuilder" where
  "WithDLQMaxLen n b = b\<lparr>bcfg := (bcfg b)\<lparr>DLQMaxLen := n\<rparr>\<rparr>"

definition Build :: "RecoveryConfigBuilder \<Rightarrow> goerror + RecoveryConfig" where
  "Build b = (case RecoveryConfig_Validate (bcfg b) of Some e \<Rightarrow> Inl e | None \<Rightarrow> Inr (bcfg b))"

section \<open>The client and its options\<close>

datatype ClusterMode = ClusterModeSingleShard | ClusterModeOSS

text \<open>
  \<open>isClusterClient\<close> is the dynamic type of \<open>redisClient\<close>, \<open>clientAddr\<close> the endpoint it
  talks to. A channel is represented by its capacity.
\<close>

record Client =
  isClusterClient :: bool
  clientAddr :: addr
  consumerID :: string
  kspChanCap :: int
  hbInterval :: int
  serviceName :: string
  outputChanCap :: int
  lbsIdleTime :: int
  lbsRecoveryCount :: int
  kspChanSize :: int
  kspChanTimeout :: int
  forceOverrideConfig :: bool
  brokerInputCap :: int
  maxRetries :: int
  initialRetryDelay :: int
  maxRetryDelay :: int
  clusterMode :: ClusterMode
  recoveryConfig :: RecoveryConfig

type_synonym RecoverableRedisOption = "Client \<Rightarrow> goerror + Client"

definition WithLBSIdleTime :: "int \<Rightarrow> RecoverableRedisOption" where
  "WithLBSIdleTime idleTime r =
     (if idleTime = 0 \<or> idleTime < wrap64 (2 * hbInterval r) then Inl (Sentinel ErrInvalidIdleTime)
      else Inr (r\<lparr>lbsIdleTime := idleTime\<rparr>))"

definition WithLBSRecoveryCount :: "int \<Rightarrow> RecoverableRedisOption" where
  "WithLBSRecoveryCount count r =
     (if count \<le> 0 then Inl (Sentinel ErrInvalidRecoveryCount)
      else Inr (r\<lparr>lbsRecoveryCount := count\<rparr>))"

definition WithKspChanSize :: "int \<Rightarrow> RecoverableRedisOption" where
  "WithKspChanSize sz r =
     (if sz \<le> 0 then Inl (Sentinel ErrInvalidKspChanSize) else Inr (r\<lparr>kspChanSize := sz\<rparr>))"

definition WithKspChanTimeout :: "int \<Rightarrow> RecoverableRedisOption" where
  "WithKspChanTimeout timeout r =
     (if timeout < Minute then Inl (Sentinel ErrInvalidKspChanTimeout)
      else Inr (r\<lparr>kspChanTimeout := timeout\<rparr>))"

definition WithForceConfigOverride :: RecoverableRedisOption where
  "WithForceConfigOverride r = Inr (r\<lparr>forceOverrideConfig := True\<rparr>)"

definition WithOutputChanSize :: "int \<Rightarrow> RecoverableRedisOption" where
  "WithOutputChanSize sz r =
     (if sz \<le> 0 then Inl (Sentinel ErrInvalidOutputChanSize)
      else Inr (r\<lparr>outputChanCap := sz\<rparr>))"

definition WithRetryConfig :: "RetryConfig \<Rightarrow> RecoverableRedisOption" where
  "WithRetryConfig config r =
     (case RetryConfig_Validate config of
        Some e \<Rightarrow> Inl e
      | None \<Rightarrow> Inr (r\<lparr>maxRetries := rcMaxRetries config,
                      initialRetryDelay := rcInitialRetryDelay config,
                      maxRetryDelay := rcMaxRetryDelay config\<rparr>))"

text \<open>The logger and the metrics recorder are not part of the modelled state.\<close>

definition WithLogger :: RecoverableRedisOption where
  "WithLogger r = Inr r"

definition WithMetricsRecorder :: RecoverableRedisOption where
  "WithMetricsRecorder r = Inr r"

definition WithClusterMode :: "ClusterMode \<Rightarrow> RecoverableRedisOption" where
  "WithClusterMode mode r = Inr (r\<lparr>clusterMode := mode\<rparr>)"

definition WithRecoveryConfig :: "RecoveryConfig \<Rightarrow> RecoverableRedisOption" where
  "WithRecoveryConfig config r =
     (case RecoveryConfig_Validate config of
        Some e \<Rightarrow> Inl e
      | None \<Rightarrow> Inr (r\<lparr>recoveryConfig := config\<rparr>))"

text \<open>The options the library exports; no other package can build one, the fields are private.\<close>

inductive library_option :: "RecoverableRedisOption \<Rightarrow> bool" where
  "library_option (WithLBSIdleTime d)"
| "library_option (WithLBSRecoveryCount n)"
| "library_option (WithKspChanSize n)"
| "library_option (WithKspChanTimeout d)"
| "library_option WithForceConfigOverride"
| "library_option (WithOutputChanSize n)"
| "library_option (WithRetryConfig rc)"
| "library_option WithLogger"
| "library_option WithMetricsRecorder"
| "library_option (WithClusterMode m)"
| "library_option (WithRecoveryConfig c)"

section \<open>Construction\<close>

definition lbsGroupName :: "Client \<Rightarrow> string" where
  "lbsGroupName r = serviceName r @ GroupSuffix"

definition lbsName :: "Client \<Rightarrow> string" where
  "lbsName r = serviceName r @ InputSuffix"

definition ID :: "Client \<Rightarrow> string" where
  "ID r = consumerID r"

fun apply_opts :: "RecoverableRedisOption list \<Rightarrow> Client \<Rightarrow> goerror + Client" where
  "apply_opts [] r = Inr r"
| "apply_opts (opt # opts) r =
     (case opt r of Inl e \<Rightarrow> Inl e | Inr r' \<Rightarrow> apply_opts opts r')"

text \<open>
  \<open>podName\<close> and \<open>podIP\<close> are the values of the environment variables; \<open>isCluster\<close> and
  \<open>at\<close> describe the Redis client passed in.
\<close>

definition initialClient :: "bool \<Rightarrow> addr \<Rightarrow> string \<Rightarrow> string \<Rightarrow> Client" where
  "initialClient isCluster at service consumer =
     \<lparr>isClusterClient = isCluster, clientAddr = at,
      consumerID = consumer,
      kspChanCap = DefaultKspChanSize,
      hbInterval = DefaultHBInterval,
      serviceName = service,
      outputChanCap = DefaultOutputChanSize,
      lbsIdleTime = DefaultLBSIdleTime,
      lbsRecoveryCount = DefaultLBSRecoveryCount,
      kspChanSize = DefaultKspChanSize,
      kspChanTimeout = DefaultKspChanTimeout,
      forceOverrideConfig = False,
      brokerInputCap = 0,
      maxRetries = DefaultMaxRetries,
      initialRetryDelay = DefaultInitialRetryDelay,
      maxRetryDelay = DefaultMaxRetryDelay,
      clusterMode = ClusterModeSingleShard,
      recoveryConfig = DefaultRecoveryConfig\<rparr>"

definition NewRedisStreamClient :: "string \<Rightarrow> string \<Rightarrow> bool \<Rightarrow> addr \<Rightarrow> string
    \<Rightarrow> RecoverableRedisOption list \<Rightarrow> goerror + Client" where
  "NewRedisStreamClient podName podIP isCluster at service opts =
     (if podName = '''' \<and> podIP = '''' then Inl (Sentinel ErrPodConfigMissing)
      else (let consumer = (if length podName > 0 then RedisConsumerPrefix @ podName
                            else RedisConsumerPrefix @ podIP)
        in case apply_opts opts (initialClient isCluster at service consumer) of
             Inl e \<Rightarrow> Inl e
           | Inr r \<Rightarrow>
               (let r1 = (if DLQStream (recoveryConfig r) = ''''
                          then r\<lparr>recoveryConfig :=
                                  (recoveryConfig r)\<lparr>DLQStream := lbsName r @ DLQSuffix\<rparr>\<rparr>
                          else r)
                in Inr (r1\<lparr>brokerInputCap := DefaultOutputChanSize\<rparr>))))"

section \<open>What construction guarantees\<close>

definition recovery_ok :: "RecoveryConfig \<Rightarrow> bool" where
  "recovery_ok rc \<longleftrightarrow> 0 < ReconciliationInterval rc \<and> 0 < MinIdleTime rc \<and> 0 < BatchSize rc
     \<and> 0 \<le> MaxRetries rc \<and> 0 \<le> DLQMaxLen rc"

definition retry_ok :: "Client \<Rightarrow> bool" where
  "retry_ok r \<longleftrightarrow> -1 \<le> maxRetries r \<and> 0 < initialRetryDelay r
     \<and> initialRetryDelay r \<le> maxRetryDelay r"

definition client_inv :: "Client \<Rightarrow> bool" where
  "client_inv r \<longleftrightarrow> recovery_ok (recoveryConfig r) \<and> retry_ok r \<and> hbInterval r = DefaultHBInterval
     \<and> 2 * hbInterval r \<le> lbsIdleTime r \<and> 0 < lbsRecoveryCount r \<and> 0 < kspChanSize r
     \<and> Minute \<le> kspChanTimeout r \<and> 0 < outputChanCap r \<and> 0 < kspChanCap r"

lemma RecoveryConfig_Validate_iff: "RecoveryConfig_Validate rc = None \<longleftrightarrow> recovery_ok rc"
  by (auto simp: RecoveryConfig_Validate_def recovery_ok_def)

lemma RecoveryConfig_Validate_sentinel:
  "RecoveryConfig_Validate rc = Some e \<Longrightarrow> errors_Is e (Sentinel ErrInvalidRecoveryConfig)"
  by (auto simp: RecoveryConfig_Validate_def invalidRecoveryConfig_def errors_Is_wrap_iff
      split: if_splits)

lemma RetryConfig_Validate_iff:
  "RetryConfig_Validate rc = None \<longleftrightarrow>
     -1 \<le> rcMaxRetries rc \<and> 0 < rcInitialRetryDelay rc
     \<and> rcInitialRetryDelay rc \<le> rcMaxRetryDelay rc"
  by (auto simp: RetryConfig_Validate_def)

lemmas option_defs = WithLBSIdleTime_def WithLBSRecoveryCount_def WithKspChanSize_def
  WithKspChanTimeout_def WithForceConfigOverride_def WithOutputChanSize_def WithRetryConfig_def
  WithLogger_def WithMetricsRecorder_def WithClusterMode_def WithRecoveryConfig_def

lemma client_inv_initial: "client_inv (initialClient c a s i)"
  by (simp add: client_inv_def initialClient_def recovery_ok_def retry_ok_def
      DefaultRecoveryConfig_def cfg_simps)

lemma library_option_inv:
  assumes "library_option opt" and "client_inv r" and "opt r = Inr r'"
  shows "client_inv r'"
proof -
  have hb: "wrap64 (2 * DefaultHBInterval) = 2 * DefaultHBInterval"
    by (simp add: in_int64_def cfg_simps)
  from assms show ?thesis
    by (cases rule: library_option.cases)
      (auto simp: option_defs client_inv_def retry_ok_def RetryConfig_Validate_iff hb
        RecoveryConfig_Validate_iff [symmetric] split: if_splits option.splits)
qed

lemma apply_opts_inv:
  assumes "\<forall>opt \<in> set opts. library_option opt" and "client_inv r" and "apply_opts opts r = Inr r'"
  shows "client_inv r'"
  using assms
proof (induction opts arbitrary: r)
  case (Cons opt opts)
  then show ?case by (auto split: sum.splits dest: library_option_inv)
qed simp

lemma library_option_identity:
  assumes "library_option opt" and "opt r = Inr r'"
  shows "consumerID r' = consumerID r \<and> serviceName r' = serviceName r
    \<and> isClusterClient r' = isClusterClient r \<and> kspChanCap r' = kspChanCap r"
  using assms
  by (cases rule: library_option.cases) (auto simp: option_defs split: if_splits option.splits)

lemma apply_opts_identity:
  assumes "\<forall>opt \<in> set opts. library_option opt" and "apply_opts opts r = Inr r'"
  shows "consumerID r' = consumerID r \<and> serviceName r' = serviceName r
    \<and> isClusterClient r' = isClusterClient r \<and> kspChanCap r' = kspChanCap r"
  using assms
proof (induction opts arbitrary: r)
  case (Cons opt opts)
  then obtain r1 where r1: "opt r = Inr r1" and "apply_opts opts r1 = Inr r'"
    by (auto split: sum.splits)
  with Cons have "consumerID r' = consumerID r1 \<and> serviceName r' = serviceName r1
    \<and> isClusterClient r' = isClusterClient r1 \<and> kspChanCap r' = kspChanCap r1" by simp
  with library_option_identity [of opt r r1] r1 Cons.prems(1) show ?case by simp
qed simp

end
