(* ===== verification/Samples.thy ===== *)
theory Samples
  imports LbsEntry Config
begin

text \<open>
  Concrete values the witnesses of the development share: the client that \<open>NewRedisStreamClient\<close>
  builds for the service \<open>svc\<close> with no options, and the fields of a message for the data stream
  \<open>s1\<close>.
\<close>

definition sampleClient :: Client where
  "sampleClient =
     (initialClient False ''localhost:6379'' ''svc'' ''redis-consumer-pod'')
       \<lparr>recoveryConfig := DefaultRecoveryConfig\<lparr>DLQStream := ''svc-input-dlq''\<rparr>,
        brokerInputCap := 500\<rparr>"

lemma sampleClient_built:
  "NewRedisStreamClient ''pod'' '''' False ''localhost:6379'' ''svc'' [] = Inr sampleClient"
  by (simp add: NewRedisStreamClient_def sampleClient_def initialClient_def DefaultRecoveryConfig_def
      lbsName_def cfg_simps Let_def)

lemma sampleClient_simps [simp]:
  "lbsName sampleClient = ''svc-input''"
  "lbsGroupName sampleClient = ''svc-group''"
  "consumerID sampleClient = ''redis-consumer-pod''"
  "clusterMode sampleClient = ClusterModeSingleShard"
  "clientAddr sampleClient = ''localhost:6379''"
  "forceOverrideConfig sampleClient = False"
  "hbInterval sampleClient = 2000000000"
  "maxRetries sampleClient = 5"
  "initialRetryDelay sampleClient = 100000000"
  "maxRetryDelay sampleClient = 30000000000"
  "MaxRetries (recoveryConfig sampleClient) = 3"
  "DLQStream (recoveryConfig sampleClient) = ''svc-input-dlq''"
  "DLQMaxLen (recoveryConfig sampleClient) = 10000"
  "MinIdleTime (recoveryConfig sampleClient) = 30000000000"
  "BatchSize (recoveryConfig sampleClient) = 50"
  "ReconciliationInterval (recoveryConfig sampleClient) = 60000000000"
  by (simp_all add: sampleClient_def initialClient_def DefaultRecoveryConfig_def lbsName_def
      lbsGroupName_def cfg_simps)

definition sampleJson :: string where
  "sampleJson = ''{'' @ [CHR 0x22] @ ''DataStreamName'' @ [CHR 0x22] @ '':'' @ [CHR 0x22] @ ''s1''
     @ [CHR 0x22] @ ''}''"

definition sampleFields :: fields where
  "sampleFields = [LBSInput \<mapsto> AStr sampleJson]"

lemma sampleJson_parsed: "Unmarshal sampleJson = Inr \<lparr>MsgDataStreamName = ''s1'', MsgInfo = None\<rparr>"
  by code_simp

lemma sample_dataStreamName:
  "evalues e LBSInput = Some (AStr sampleJson) \<Longrightarrow> dataStreamName e = Inr ''s1''"
  by (simp add: dataStreamName_def sampleJson_parsed)

lemma sample_dataStreamName_fields [simp]:
  "dataStreamName \<lparr>eid = i, evalues = sampleFields\<rparr> = Inr ''s1''"
  by (rule sample_dataStreamName) (simp add: sampleFields_def)

lemma sample_retryCount [simp]: "retryCount \<lparr>eid = i, evalues = sampleFields\<rparr> = 0"
  by (simp add: retryCount_def sampleFields_def cfg_simps)

text \<open>A message that cannot be parsed: it has no \<open>lbs-input\<close> field.\<close>

definition poisonFields :: fields where
  "poisonFields = [''other'' \<mapsto> AStr ''x'']"

lemma poison_dataStreamName [simp]:
  "dataStreamName \<lparr>eid = i, evalues = poisonFields\<rparr> = Inl (Sentinel ErrInvalidKeyForLBSMessage)"
  by (simp add: dataStreamName_def poisonFields_def cfg_simps)

lemma poison_retryCount [simp]: "retryCount \<lparr>eid = i, evalues = poisonFields\<rparr> = 0"
  by (simp add: retryCount_def poisonFields_def cfg_simps)

end
