(* ===== verification/Tokens.thy ===== *)
theory Tokens
  imports Effects
begin

text \<open>
  Acknowledgements as tokens. Recovery is race free because \<open>XACK\<close> of one pending entry reports
  a non-zero count to one caller only, and a program adds an entry only after it was that caller. Here
  that argument is made once, for any program and any server: \<open>ack_safe\<close> is the discipline of a
  program, the locale \<open>pel_server\<close> what the server promises of the pending entries list, and
  \<open>pool_adds_once\<close> and \<open>pool_one_winner\<close> the conclusion for any number of programs
  interleaved in any way.
\<close>

section \<open>The discipline of a program\<close>

fun is_add :: "eff \<Rightarrow> bool" where
  "is_add (EXAdd _ _ _ _) = True"
| "is_add _ = False"

definition ack_won :: "eff \<Rightarrow> eff \<Rightarrow> reply \<Rightarrow> nat" where
  "ack_won A e x = (if e = A then (case x of RInt n \<Rightarrow> if n \<noteq> 0 then 1 else 0 | _ \<Rightarrow> 0) else 0)"

text \<open>
  \<open>ack_safe A W p n m\<close>: having won \<open>n\<close> acknowledgements \<open>A\<close> and issued \<open>m\<close> adds so far,
  \<open>p\<close> never issues an add it has not won, and returns a result in \<open>W\<close> only if it has won.
\<close>

primrec ack_safe :: "eff \<Rightarrow> ('a \<Rightarrow> bool) \<Rightarrow> 'a prog \<Rightarrow> nat \<Rightarrow> nat \<Rightarrow> bool" where
  "ack_safe A W (Ret a) = (\<lambda>n m. W a \<longrightarrow> 1 \<le> n)"
| "ack_safe A W (Vis e k) = (\<lambda>n m.
     (is_add e \<longrightarrow> m < n) \<and>
     (\<forall>x. ack_safe A W (k x) (n + ack_won A e x) (if is_add e then Suc m else m)))"

lemma ack_safe_case_sum [simp]:
  "ack_safe A W (case x of Inl e \<Rightarrow> f e | Inr v \<Rightarrow> g v) n m \<longleftrightarrow>
     (\<forall>e. x = Inl e \<longrightarrow> ack_safe A W (f e) n m) \<and> (\<forall>v. x = Inr v \<longrightarrow> ack_safe A W (g v) n m)"
  by (cases x) auto

definition won :: "eff \<Rightarrow> log \<Rightarrow> nat" where
  "won A tr = sum_list (map (\<lambda>(e, x). ack_won A e x) tr)"

definition adds :: "log \<Rightarrow> nat" where
  "adds tr = length (filter is_add (map fst tr))"

lemma won_simps [simp]:
  "won A [] = 0" "won A ((e, x) # tr) = ack_won A e x + won A tr"
  by (simp_all add: won_def)

lemma adds_simps [simp]:
  "adds [] = 0" "adds ((e, x) # tr) = (if is_add e then 1 else 0) + adds tr"
  by (simp_all add: adds_def)

lemma ack_safe_add:
  assumes "ack_safe A W p n m" and "path p (pre @ (e, x) # post) a" and "is_add e"
  shows "m + adds pre < n + won A pre"
  using assms
proof (induction p arbitrary: n m pre)
  case (Vis e0 k)
  show ?case
  proof (cases pre)
    case Nil
    with Vis.prems show ?thesis by (auto simp: path_Vis)
  next
    case (Cons y pre')
    obtain x0 where y: "y = (e0, x0)" and pth: "path (k x0) (pre' @ (e, x) # post) a"
      using Vis.prems(2) Cons by (cases y) auto
    have "ack_safe A W (k x0) (n + ack_won A e0 x0) (if is_add e0 then Suc m else m)"
      using Vis.prems(1) by simp
    from Vis.IH [OF _ this pth Vis.prems(3)] show ?thesis
      by (auto simp: Cons y split: if_splits)
  qed
qed simp

lemma ack_safe_result:
  assumes "ack_safe A W p n m" and "path p tr a" and "W a"
  shows "1 \<le> n + won A tr"
  using assms
proof (induction p arbitrary: n m tr)
  case (Vis e0 k)
  then obtain x0 tr' where tr: "tr = (e0, x0) # tr'" and pth: "path (k x0) tr' a"
    by (auto simp: path_Vis)
  have "ack_safe A W (k x0) (n + ack_won A e0 x0) (if is_add e0 then Suc m else m)"
    using Vis.prems(1) by simp
  from Vis.IH [OF _ this pth Vis.prems(3)] show ?case by (simp add: tr add.assoc)
qed simp

lemma ack_won_pos: "0 < ack_won A e x \<longleftrightarrow> e = A \<and> (\<exists>n. x = RInt n \<and> n \<noteq> 0)"
  by (cases x) (auto simp: ack_won_def)

lemma won_pos: "0 < won A tr \<longleftrightarrow> (\<exists>n. (A, RInt n) \<in> set tr \<and> n \<noteq> 0)"
proof (induction tr)
  case (Cons y tr)
  then show ?case by (cases y) (auto simp: ack_won_pos)
qed simp

lemma ack_won_le: "ack_won A e x \<le> 1"
  by (cases x) (auto simp: ack_won_def)

text \<open>Changing the result of a program keeps the discipline.\<close>

lemma ack_safe_bind_Ret:
  "ack_safe A W (bind p (\<lambda>a. Ret (f a))) n m \<longleftrightarrow> ack_safe A (\<lambda>a. W (f a)) p n m"
  by (induction p arbitrary: n m) auto

section \<open>The server's promise, and interleaved programs\<close>

text \<open>
  \<open>A\<close> is the acknowledgement of one entry, \<open>delivered\<close> says the entry has been delivered to
  the group (from then on \<open>XREADGROUP\<close> with \<open>>\<close> never delivers it again), \<open>pending\<close> that it
  is in the pending entries list.
\<close>

locale pel_server =
  fixes h :: "eff \<Rightarrow> 's \<Rightarrow> reply \<times> 's"
    and env :: "'s \<Rightarrow> 's \<Rightarrow> bool"
    and A :: eff
    and delivered pending :: "'s \<Rightarrow> bool"
  assumes ack_once: "h A s = (RInt n, s') \<Longrightarrow> n \<noteq> 0 \<Longrightarrow> pending s \<and> \<not> pending s'"
    and no_redelivery: "h e s = (x, s') \<Longrightarrow> delivered s \<Longrightarrow> delivered s' \<and> (pending s' \<longrightarrow> pending s)"
    and env_no_redelivery: "env s s' \<Longrightarrow> delivered s \<Longrightarrow> delivered s' \<and> (pending s' \<longrightarrow> pending s)"
begin

definition tokens :: "('a \<Rightarrow> bool) \<Rightarrow> ('a, 's) pool \<Rightarrow> nat \<Rightarrow> nat list \<Rightarrow> nat list \<Rightarrow> bool" where
  "tokens W c cnt ns ms \<longleftrightarrow>
     delivered (snd c) \<and> length ns = length (fst c) \<and> length ms = length (fst c) \<and>
     (\<forall>i < length (fst c). ack_safe A W (fst c ! i) (ns ! i) (ms ! i) \<and> ms ! i \<le> ns ! i) \<and>
     of_bool (pending (snd c)) + sum_list ns \<le> 1 \<and> sum_list ms = cnt"

lemma ack_won_pending:
  assumes "h e s = (x, s')" and "delivered s"
  shows "of_bool (pending s') + ack_won A e x \<le> of_bool (pending s)"
proof (cases "0 < ack_won A e x")
  case True
  then obtain n where "h A s = (RInt n, s')" "n \<noteq> 0" using assms by (auto simp: ack_won_pos)
  then have "pending s \<and> \<not> pending s'" by (rule ack_once)
  then show ?thesis using ack_won_le [of A e x] by simp
next
  case False
  then show ?thesis using no_redelivery [OF assms] by simp
qed

lemma tokens_thread:
  assumes t: "tokens W (ps, s) cnt ns ms" and i: "i < length ps" and p: "ps ! i = Vis e k"
    and st: "h e s = (x, s')"
  shows "tokens W (ps[i := k x], s') (cnt + (if is_add e then 1 else 0))
           (ns[i := ns ! i + ack_won A e x]) (ms[i := ms ! i + (if is_add e then 1 else 0)])"
proof -
  have sf: "ack_safe A W (Vis e k) (ns ! i) (ms ! i)" and le: "ms ! i \<le> ns ! i"
    and len: "length ns = length ps" "length ms = length ps" and d: "delivered s"
    using t i p unfolding tokens_def by (metis fst_conv snd_conv)+
  have "sum_list (ns[i := ns ! i + ack_won A e x]) = sum_list ns + ack_won A e x"
    "sum_list (ms[i := ms ! i + (if is_add e then 1 else 0)])
       = sum_list ms + (if is_add e then 1 else 0)"
    using i len sum_list_update_nat [of i ns "ns ! i + ack_won A e x"]
      sum_list_update_nat [of i ms "ms ! i + (if is_add e then 1 else 0)"] by simp_all
  moreover have "ack_safe A W (k x) (ns ! i + ack_won A e x) (ms ! i + (if is_add e then 1 else 0))"
    "ms ! i + (if is_add e then 1 else 0) \<le> ns ! i + ack_won A e x"
    using sf le by auto
  moreover have "delivered s'" using no_redelivery [OF st d] by simp
  moreover have "of_bool (pending s') + (sum_list ns + ack_won A e x) \<le> 1"
    using ack_won_pending [OF st d] t unfolding tokens_def snd_conv by linarith
  ultimately show ?thesis
    using t i len unfolding tokens_def fst_conv snd_conv
    by (cases "is_add e") (simp_all add: nth_list_update)
qed

lemma tokens_env:
  assumes "tokens W (ps, s) cnt ns ms" and "env s s'"
  shows "tokens W (ps, s') cnt ns ms"
proof -
  have "delivered s' \<and> (pending s' \<longrightarrow> pending s)"
    using assms by (intro env_no_redelivery) (auto simp: tokens_def)
  moreover from this have "of_bool (pending s') + sum_list ns \<le> of_bool (pending s) + sum_list ns"
    by simp
  then have "of_bool (pending s') + sum_list ns \<le> 1"
    using assms(1) unfolding tokens_def snd_conv by linarith
  ultimately show ?thesis
    using assms(1) unfolding tokens_def fst_conv snd_conv by blast
qed

lemma tokens_preach:
  assumes "preach h env c0 tr c" and "\<forall>p \<in> set (fst c0). ack_safe A W p 0 0" and "delivered (snd c0)"
  shows "\<exists>ns ms. tokens W c (adds (map snd tr)) ns ms"
  using assms
proof (induction rule: preach.induct)
  case start
  then show ?case
    by (intro exI [of _ "replicate (length (fst c0)) 0"]) (auto simp: tokens_def sum_list_replicate)
next
  case (move tr c l c')
  then obtain ns ms where t: "tokens W c (adds (map snd tr)) ns ms" by blast
  from move.hyps(2) obtain ps i e k s x s' where c: "c = (ps, s)" and l: "l = (i, e, x)"
    and i: "i < length ps" "ps ! i = Vis e k" "h e s = (x, s')" and c': "c' = (ps[i := k x], s')"
    by (auto elim!: pstep_SomeE)
  have "adds (map snd (tr @ [l])) = adds (map snd tr) + (if is_add e then 1 else 0)"
    by (simp add: adds_def l)
  with tokens_thread [OF t [unfolded c] i] show ?case unfolding c' by metis
next
  case (silent tr c c')
  then obtain ns ms where "tokens W c (adds (map snd tr)) ns ms" by blast
  with silent.hyps(2) show ?case
    by (auto elim!: pstep_NoneE intro: tokens_env)
qed

lemma pool_adds_once:
  assumes "preach h env (ps, s) tr c" and "\<forall>p \<in> set ps. ack_safe A W p 0 0" and "delivered s"
  shows "adds (map snd tr) \<le> 1"
proof -
  obtain ns ms where t: "tokens W c (adds (map snd tr)) ns ms"
    using tokens_preach [OF assms(1), of W] assms(2,3) by auto
  then have "sum_list ms \<le> sum_list ns"
    by (auto simp: tokens_def sum_list_sum_nth intro!: sum_mono)
  with t show ?thesis by (auto simp: tokens_def)
qed

lemma pool_one_winner:
  assumes "preach h env (ps, s) tr (ps', s')" and "\<forall>p \<in> set ps. ack_safe A W p 0 0"
    and "delivered s" and "i < length ps'" "ps' ! i = Ret a" "W a"
    and "j < length ps'" "ps' ! j = Ret b" "W b"
  shows "i = j"
proof (rule ccontr)
  assume "i \<noteq> j"
  obtain ns ms where t: "tokens W (ps', s') (adds (map snd tr)) ns ms"
    using tokens_preach [OF assms(1), of W] assms(2,3) by auto
  with assms have "1 \<le> ns ! i" "1 \<le> ns ! j" by (fastforce simp: tokens_def)+
  moreover have "ns ! i + ns ! j \<le> sum_list ns"
    using t assms \<open>i \<noteq> j\<close> by (intro sum_list_two) (auto simp: tokens_def)
  ultimately show False using t by (auto simp: tokens_def)
qed

end

section \<open>Locks: finishing a stream against recovering it\<close>

text \<open>
  \<open>done_safe ok A key p seen acked\<close>: given replies that satisfy \<open>ok\<close>, the program unlocks the
  mutex \<open>key\<close> only after \<open>A\<close> was answered (\<open>acked\<close>), and adds an entry only after it found
  the key absent (\<open>seen\<close>) and then won \<open>A\<close>, which is the flag \<open>w\<close>.
\<close>

fun unlocks :: "string \<Rightarrow> eff \<Rightarrow> bool" where
  "unlocks key (EMutexUnlock m) \<longleftrightarrow> mkey m = key"
| "unlocks key _ \<longleftrightarrow> False"

definition absent_reply :: "string \<Rightarrow> eff \<Rightarrow> reply \<Rightarrow> bool" where
  "absent_reply key e x \<longleftrightarrow> e = EExists key \<and> (\<exists>n \<le> 0. x = RInt n)"

definition answered :: "eff \<Rightarrow> eff \<Rightarrow> reply \<Rightarrow> bool" where
  "answered A e x \<longleftrightarrow> e = A \<and> (\<exists>n. x = RInt n)"

primrec done_safe :: "(eff \<Rightarrow> reply \<Rightarrow> bool) \<Rightarrow> eff \<Rightarrow> string \<Rightarrow> 'a prog \<Rightarrow> bool \<Rightarrow> bool \<Rightarrow> bool \<Rightarrow> bool"
where
  "done_safe ok A key (Ret a) = (\<lambda>seen acked w. True)"
| "done_safe ok A key (Vis e k) = (\<lambda>seen acked w.
     (is_add e \<longrightarrow> w) \<and> (unlocks key e \<longrightarrow> acked) \<and>
     (\<forall>x. ok e x \<longrightarrow> done_safe ok A key (k x) (seen \<or> absent_reply key e x)
        (acked \<or> answered A e x) (w \<or> seen \<and> 0 < ack_won A e x)))"

lemma done_safe_case_sum [simp]:
  "done_safe ok A key (case x of Inl e \<Rightarrow> f e | Inr v \<Rightarrow> g v) n m w \<longleftrightarrow>
     (\<forall>e. x = Inl e \<longrightarrow> done_safe ok A key (f e) n m w) \<and>
     (\<forall>v. x = Inr v \<longrightarrow> done_safe ok A key (g v) n m w)"
  by (cases x) auto

lemma done_safe_bind_Ret:
  "done_safe ok A key (bind p (\<lambda>a. Ret (f a))) seen acked w \<longleftrightarrow> done_safe ok A key p seen acked w"
  by (induction p arbitrary: seen acked w) auto

text \<open>
  What the server promises of a lock: an existence test that answers 0 means the lock is not held,
  any answered acknowledgement leaves the entry not pending, and only an unlock of the key releases
  it. That the environment does not release it is the heartbeat: the holder extends the lock before
  it expires. \<open>ok\<close> describes the replies.
\<close>

locale lock_server = pel_server h env A delivered pending
  for h :: "eff \<Rightarrow> 's \<Rightarrow> reply \<times> 's" and env :: "'s \<Rightarrow> 's \<Rightarrow> bool" and A :: eff
    and delivered pending :: "'s \<Rightarrow> bool" +
  fixes key :: string and held :: "'s \<Rightarrow> bool" and ok :: "eff \<Rightarrow> reply \<Rightarrow> bool"
  assumes exists_absent: "h (EExists key) s = (RInt n, s') \<Longrightarrow> n \<le> 0 \<Longrightarrow> \<not> held s"
    and ack_answered: "h A s = (RInt n, s') \<Longrightarrow> \<not> pending s'"
    and release_only_unlock: "h e s = (x, s') \<Longrightarrow> held s \<Longrightarrow> \<not> unlocks key e \<Longrightarrow> held s'"
    and heartbeat: "env s s' \<Longrightarrow> held s \<Longrightarrow> held s'"
    and replies_ok: "h e s = (x, s') \<Longrightarrow> delivered s \<Longrightarrow> ok e x"
begin

definition locked_or_done :: "('a, 's) pool \<Rightarrow> (bool \<times> bool) list \<Rightarrow> bool" where
  "locked_or_done c fs \<longleftrightarrow>
     delivered (snd c) \<and> length fs = length (fst c) \<and>
     (\<forall>i < length (fst c). done_safe ok A key (fst c ! i) (fst (fs ! i)) (snd (fs ! i)) False) \<and>
     (pending (snd c) \<longrightarrow> held (snd c) \<and> (\<forall>f \<in> set fs. f = (False, False)))"

lemma locked_step:
  assumes inv: "locked_or_done (ps, s) fs" and i: "i < length ps" and p: "ps ! i = Vis e k"
    and st: "h e s = (x, s')"
  shows "\<not> is_add e \<and> locked_or_done (ps[i := k x], s')
    (fs[i := (fst (fs ! i) \<or> absent_reply key e x, snd (fs ! i) \<or> answered A e x)])"
proof -
  let ?f = "fs ! i"
  have sf: "done_safe ok A key (Vis e k) (fst ?f) (snd ?f) False" and d: "delivered s"
    and len: "length fs = length ps"
    and pend: "pending s \<Longrightarrow> held s \<and> (\<forall>f \<in> set fs. f = (False, False))"
    using inv i p unfolding locked_or_done_def fst_conv snd_conv by (metis, blast+)
  have f: "?f \<in> set fs" using i len by simp
  have nw: "\<not> (fst ?f \<and> 0 < ack_won A e x)"
  proof
    assume a: "fst ?f \<and> 0 < ack_won A e x"
    then obtain n where "h A s = (RInt n, s')" "n \<noteq> 0" using st by (auto simp: ack_won_pos)
    then have "pending s" using ack_once by blast
    with pend f have "?f = (False, False)" by blast
    with a show False by simp
  qed
  then have nxt: "done_safe ok A key (k x) (fst ?f \<or> absent_reply key e x)
      (snd ?f \<or> answered A e x) False"
    using sf replies_ok [OF st d] by auto
  have keep: "held s' \<and> \<not> absent_reply key e x \<and> \<not> answered A e x
      \<and> (\<forall>f \<in> set fs. f = (False, False))" if "pending s'"
  proof -
    have "pending s" using that no_redelivery [OF st d] by blast
    then have hs: "held s" and none: "\<forall>f \<in> set fs. f = (False, False)" using pend by auto
    then have "\<not> unlocks key e" using sf f by auto
    moreover have "\<not> absent_reply key e x" using exists_absent [of s _ s'] st hs
      by (auto simp: absent_reply_def)
    moreover have "\<not> answered A e x" using ack_answered [of s _ s'] st that
      by (auto simp: answered_def)
    ultimately show ?thesis using release_only_unlock [OF st hs] none by blast
  qed
  have "locked_or_done (ps[i := k x], s')
      (fs[i := (fst ?f \<or> absent_reply key e x, snd ?f \<or> answered A e x)])"
    using inv nxt keep no_redelivery [OF st d] f i len
    unfolding locked_or_done_def fst_conv snd_conv
    by (auto simp: nth_list_update dest!: set_update_subset_insert [THEN subsetD])
  with sf show ?thesis by simp
qed

lemma locked_preach:
  assumes "preach h env c0 tr c" and "\<forall>p \<in> set (fst c0). done_safe ok A key p False False False"
    and "delivered (snd c0)" and "held (snd c0)"
  shows "adds (map snd tr) = 0 \<and> (\<exists>fs. locked_or_done c fs)"
  using assms
proof (induction rule: preach.induct)
  case start
  then have "locked_or_done c0 (replicate (length (fst c0)) (False, False))"
    by (auto simp: locked_or_done_def)
  then show ?case by (auto simp: adds_def)
next
  case (move tr c l c')
  then obtain fs where f: "locked_or_done c fs" and z: "adds (map snd tr) = 0" by blast
  from move.hyps(2) obtain ps i e k s x s' where c: "c = (ps, s)" and l: "l = (i, e, x)"
    and i: "i < length ps" "ps ! i = Vis e k" "h e s = (x, s')" and c': "c' = (ps[i := k x], s')"
    by (auto elim!: pstep_SomeE)
  from locked_step [OF f [unfolded c] i] z show ?case unfolding c' l by (auto simp: adds_def)
next
  case (silent tr c c')
  then obtain fs where f: "locked_or_done c fs" by blast
  from silent.hyps(2) obtain ps s s' where c: "c = (ps, s)" and e: "env s s'" and c': "c' = (ps, s')"
    by (auto elim!: pstep_NoneE)
  have "locked_or_done c' fs"
    using f env_no_redelivery [OF e] heartbeat [OF e] unfolding locked_or_done_def c c' by auto
  with silent show ?case by blast
qed

end

end
