(* ===== verification/Requeue.thy ===== *)
theory Requeue
  imports Samples Tokens
begin

text \<open>
  \<open>impl/requeue.go\<close>: the recovery primitive \<open>reQueue\<close> and its parts, shared by the
  reconciliation scan and \<open>Claim\<close>.
\<close>

section \<open>Operations\<close>

definition unknownDataStream :: string where
  "unknownDataStream = ''unknown''"

datatype reQueueOutcome =
  reQueueError | reQueueLostRace | reQueueSkippedAlive | reQueueRequeued | reQueueDLQ

text \<open>\<open>readLBSEntry\<close>: \<open>Inr None\<close> is \<open>exists == false\<close> with a nil error.\<close>

definition readLBSEntry :: "Client \<Rightarrow> string \<Rightarrow> (goerror + lbsEntry option) prog" where
  "readLBSEntry r idInLBS =
     xRange (lbsName r) idInLBS idInLBS (\<lambda>res.
     case res of
       Inl err \<Rightarrow> Ret (Inl (NewRedisError OpReQueue err))
     | Inr msgs \<Rightarrow>
         (case msgs of
            [] \<Rightarrow> Ret (Inr None)
          | m # _ \<Rightarrow> Ret (Inr (Some \<lparr>eid = idInLBS, evalues = XValues m\<rparr>))))"

definition ownerAlive :: "LBSInfo \<Rightarrow> (goerror + bool) prog" where
  "ownerAlive lbsInfo =
     existsKey (FormMutexKey lbsInfo) (\<lambda>res.
     case res of
       Inl err \<Rightarrow> Ret (Inl (NewRedisError OpReQueue err))
     | Inr n \<Rightarrow> Ret (Inr (n > 0)))"

definition routeToDLQ :: "Client \<Rightarrow> string \<Rightarrow> lbsEntry \<Rightarrow> int \<Rightarrow> string
    \<Rightarrow> (reQueueOutcome \<times> goerror option) prog" where
  "routeToDLQ r dsn entry count reason =
     xAck (lbsName r) (lbsGroupName r) (eid entry) (\<lambda>res.
     case res of
       Inl err \<Rightarrow> Ret (reQueueError, Some (NewRedisError OpRouteDLQ err))
     | Inr acked \<Rightarrow>
         if acked = 0 then Ret (reQueueLostRace, None)
         else (let finish = xDel (lbsName r) (eid entry) (\<lambda>_. Ret (reQueueDLQ, None)) in
           if DLQStream (recoveryConfig r) \<noteq> '''' then
             (let dlqValues = (cloneValues entry)
                  (RetryCountField \<mapsto> AStr (Itoa count),
                   DLQReasonField \<mapsto> AStr reason)
              in xAdd (DLQStream (recoveryConfig r)) dlqValues
                   (DLQMaxLen (recoveryConfig r)) True (\<lambda>addErr.
                 case addErr of
                   Some err \<Rightarrow>
                     metric (RecordAckAddGap dsn)
                       (Ret (reQueueDLQ, Some (NewRedisError OpRouteDLQ err)))
                 | None \<Rightarrow> metric (RecordDLQRouting dsn) finish))
           else finish))"

definition reQueue :: "Client \<Rightarrow> string \<Rightarrow> (reQueueOutcome \<times> string \<times> goerror option) prog" where
  "reQueue r idInLBS =
     bind (readLBSEntry r idInLBS) (\<lambda>read.
     case read of
       Inl err \<Rightarrow> Ret (reQueueError, '''', Some err)
     | Inr None \<Rightarrow>
         xAck (lbsName r) (lbsGroupName r) idInLBS (\<lambda>_. Ret (reQueueLostRace, '''', None))
     | Inr (Some entry) \<Rightarrow>
     (case dataStreamName entry of
       Inl _ \<Rightarrow>
         bind (routeToDLQ r unknownDataStream entry (retryCount entry) DLQReasonUnparseable)
           (\<lambda>(out, dlqErr). Ret (out, unknownDataStream, dlqErr))
     | Inr dsn \<Rightarrow>
     (case CreateByParts dsn idInLBS of
       Inl err \<Rightarrow> Ret (reQueueError, dsn, Some (NewRedisError OpReQueue err))
     | Inr lbsInfo \<Rightarrow>
     bind (ownerAlive lbsInfo) (\<lambda>alive.
     case alive of
       Inl err \<Rightarrow> Ret (reQueueError, dsn, Some err)
     | Inr True \<Rightarrow> metric (RecordMutexAliveSkip dsn) (Ret (reQueueSkippedAlive, dsn, None))
     | Inr False \<Rightarrow>
     (let nxt = wrap64 (retryCount entry + 1) in
      if nxt > MaxRetries (recoveryConfig r) then
        bind (routeToDLQ r dsn entry nxt DLQReasonMaxRetries)
          (\<lambda>(out, dlqErr). Ret (out, dsn, dlqErr))
      else
        xAck (lbsName r) (lbsGroupName r) idInLBS (\<lambda>ackRes.
        case ackRes of
          Inl err \<Rightarrow>
            metric (RecordReQueue dsn False)
              (Ret (reQueueError, dsn, Some (NewRedisError OpReQueue err)))
        | Inr acked \<Rightarrow>
            if acked = 0 then Ret (reQueueLostRace, dsn, None)
            else
              xAdd (lbsName r) ((cloneValues entry)(RetryCountField \<mapsto> AStr (Itoa nxt))) 0 False
              (\<lambda>addErr. case addErr of
                 Some err \<Rightarrow>
                   metric (RecordAckAddGap dsn) (metric (RecordReQueue dsn False)
                     (Ret (reQueueError, dsn, Some (NewRedisError OpReQueue err))))
               | None \<Rightarrow>
                   xDel (lbsName r) idInLBS (\<lambda>_.
                   metric (RecordReQueue dsn True) (Ret (reQueueRequeued, dsn, None))))))))))"

section \<open>All behaviours\<close>

lemmas requeue_defs = readLBSEntry_def ownerAlive_def routeToDLQ_def reQueue_def

lemma reQueue_requeued_iff:
  "path (reQueue r i) tr (reQueueRequeued, d, e) \<longleftrightarrow>
   (\<exists>m ms n0 n ra rd rm.
      tr = [(EXRange (lbsName r) i i, RMsgs (m # ms)),
            (EExists (d @ MutexKeySep @ i), RInt n0),
            (EXAck (lbsName r) (lbsGroupName r) i, RInt n),
            (EXAdd (lbsName r)
               ((XValues m)(RetryCountField \<mapsto>
                  AStr (Itoa (wrap64 (retryCount \<lparr>eid = i, evalues = XValues m\<rparr> + 1))))) 0 False, ra),
            (EXDel (lbsName r) i, rd),
            (EMetric (RecordReQueue d True), rm)]
      \<and> e = None \<and> dataStreamName \<lparr>eid = i, evalues = XValues m\<rparr> = Inr d \<and> i \<noteq> []
      \<and> n0 \<le> 0 \<and> n \<noteq> 0 \<and> as_err ra = None
      \<and> wrap64 (retryCount \<lparr>eid = i, evalues = XValues m\<rparr> + 1) \<le> MaxRetries (recoveryConfig r))"
  (is "?P \<longleftrightarrow> ?Q")
proof
  assume ?P
  then show ?Q
    by (auto simp: requeue_defs eff_simps path_simps Let_def CreateByParts_Inr_iff
        FormMutexKey_eq cloneValues_def simp del: fun_upd_apply)
next
  assume ?Q
  then show ?P
    by (auto simp: requeue_defs eff_simps path_simps Let_def CreateByParts_Inr_iff
        FormMutexKey_eq cloneValues_def dest: dataStreamName_nonempty simp del: fun_upd_apply)
qed

text \<open>The part of a log that changes the server's streams.\<close>

fun stream_write :: "eff \<Rightarrow> bool" where
  "stream_write (EXAck _ _ _) = True"
| "stream_write (EXAdd _ _ _ _) = True"
| "stream_write (EXDel _ _) = True"
| "stream_write _ = False"

definition writes :: "log \<Rightarrow> eff list" where
  "writes tr = filter stream_write (map fst tr)"

lemma writes_simps [simp]:
  "writes [] = []"
  "writes ((e, r) # tr) = (if stream_write e then e # writes tr else writes tr)"
  "writes (tr @ tr') = writes tr @ writes tr'"
  by (simp_all add: writes_def)

lemmas path_unfold = eff_simps path_simps Let_def CreateByParts_Inr_iff FormMutexKey_eq
  cloneValues_def

text \<open>The rules that evaluate a recovery on concrete replies.\<close>

lemmas requeue_eval = requeue_defs eff_simps Let_def CreateByParts_def FormMutexKey_eq cloneValues_def


lemma routeToDLQ_dropped_iff:
  assumes "DLQStream (recoveryConfig r) = []"
  shows "path (routeToDLQ r d en c why) tr (reQueueDLQ, e) \<longleftrightarrow>
   (\<exists>n rd. n \<noteq> 0 \<and> e = None \<and>
      tr = [(EXAck (lbsName r) (lbsGroupName r) (eid en), RInt n), (EXDel (lbsName r) (eid en), rd)])"
  using assms by (auto simp: routeToDLQ_def path_unfold simp del: fun_upd_apply)
lemma routeToDLQ_writes:
  "path (routeToDLQ r d en c why) tr (out, e) \<Longrightarrow>
     out \<noteq> reQueueRequeued \<and> out \<noteq> reQueueSkippedAlive"
  by (auto simp: routeToDLQ_def eff_simps path_simps Let_def)

lemma reQueue_skipped_silent:
  "path (reQueue r i) tr (reQueueSkippedAlive, d, e) \<Longrightarrow>
     e = None \<and> writes tr = [] \<and> (\<exists>n > 0. (EExists (d @ MutexKeySep @ i), RInt n) \<in> set tr)"
  by (auto simp: requeue_defs path_unfold simp del: fun_upd_apply)

lemma reQueue_dlq_cases:
  assumes "path (reQueue r i) tr (reQueueDLQ, d, e)"
  shows "(\<exists>m ms tr'. tr = (EXRange (lbsName r) i i, RMsgs (m # ms)) # tr'
            \<and> (\<forall>x. dataStreamName \<lparr>eid = i, evalues = XValues m\<rparr> \<noteq> Inr x) \<and> d = unknownDataStream
            \<and> path (routeToDLQ r d \<lparr>eid = i, evalues = XValues m\<rparr>
                 (retryCount \<lparr>eid = i, evalues = XValues m\<rparr>) DLQReasonUnparseable) tr' (reQueueDLQ, e))
       \<or> (\<exists>m ms n tr'. tr = (EXRange (lbsName r) i i, RMsgs (m # ms))
              # (EExists (d @ MutexKeySep @ i), RInt n) # tr' \<and> n \<le> 0
            \<and> dataStreamName \<lparr>eid = i, evalues = XValues m\<rparr> = Inr d
            \<and> MaxRetries (recoveryConfig r)
                < wrap64 (retryCount \<lparr>eid = i, evalues = XValues m\<rparr> + 1)
            \<and> path (routeToDLQ r d \<lparr>eid = i, evalues = XValues m\<rparr>
                 (wrap64 (retryCount \<lparr>eid = i, evalues = XValues m\<rparr> + 1)) DLQReasonMaxRetries)
                 tr' (reQueueDLQ, e))"
  using assms
  by (auto simp: reQueue_def readLBSEntry_def ownerAlive_def path_unfold simp del: fun_upd_apply)

fun winner :: "reQueueOutcome \<times> string \<times> goerror option \<Rightarrow> bool" where
  "winner (out, _, _) \<longleftrightarrow> out = reQueueRequeued \<or> out = reQueueDLQ"

lemma reQueue_ack_safe:
  "ack_safe (EXAck (lbsName r) (lbsGroupName r) i) winner (reQueue r i) 0 0"
  by (auto simp: requeue_defs eff_simps ack_won_def Let_def
      split: option.splits list.splits bool.splits sum.splits simp del: fun_upd_apply)
section \<open>The retry budget\<close>

text \<open>The fields an entry is re-added with.\<close>

definition requeued_values :: "fields \<Rightarrow> fields" where
  "requeued_values f =
     f(RetryCountField \<mapsto> AStr (Itoa (wrap64 (retryCount \<lparr>eid = '''', evalues = f\<rparr> + 1))))"

lemma retryCount_eid: "retryCount \<lparr>eid = i, evalues = f\<rparr> = retryCount \<lparr>eid = '''', evalues = f\<rparr>"
  by (simp add: retryCount_def)

lemma retryCount_requeued:
  assumes "retryCount \<lparr>eid = i, evalues = f\<rparr> < maxInt64"
  shows "retryCount \<lparr>eid = j, evalues = requeued_values f\<rparr>
      = retryCount \<lparr>eid = i, evalues = f\<rparr> + 1"
proof -
  let ?n = "retryCount \<lparr>eid = i, evalues = f\<rparr>"
  have "in_int64 (?n + 1)" "0 \<le> ?n + 1" "?n + 1 \<le> maxInt64"
    using assms retryCount_range [of "\<lparr>eid = i, evalues = f\<rparr>"] by (auto simp: in_int64_def maxInt64_def)
  then show ?thesis
    by (intro retryCount_stored) (simp_all add: requeued_values_def retryCount_eid [of i])
qed

lemma retryCount_iterate:
  assumes "f RetryCountField = None" and "int k \<le> maxInt64"
  shows "retryCount \<lparr>eid = i, evalues = (requeued_values ^^ k) f\<rparr> = int k"
  using assms(2)
proof (induction k arbitrary: i)
  case 0
  with assms(1) show ?case by (simp add: retryCount_def)
next
  case (Suc k)
  have IH: "retryCount \<lparr>eid = i, evalues = (requeued_values ^^ k) f\<rparr> = int k" for i
    using Suc by simp
  with Suc.prems show ?case
    using retryCount_requeued [of i "(requeued_values ^^ k) f" i] by simp
qed

lemma requeued_values_other: "k \<noteq> RetryCountField \<Longrightarrow> (requeued_values ^^ n) f k = f k"
  by (induction n) (auto simp: requeued_values_def)

lemma dataStreamName_iterate:
  "dataStreamName \<lparr>eid = i, evalues = (requeued_values ^^ k) f\<rparr> = dataStreamName \<lparr>eid = j, evalues = f\<rparr>"
  by (rule dataStreamName_cong) (simp add: requeued_values_other)

text \<open>
  C7. The retry budget. An entry that started without a retry count and has been re-queued \<open>k\<close>
  times carries the count \<open>k\<close>. It is re-queued again, as the \<open>k+1\<close>st, only while \<open>k\<close> is
  below \<open>MaxRetries\<close>, and goes to the dead letter queue only when \<open>k = MaxRetries\<close>: at most
  \<open>MaxRetries\<close> re-queues happen to one task.
\<close>

theorem requeue_at_most_MaxRetries:
  assumes fresh: "f RetryCountField = None"
    and name: "dataStreamName \<lparr>eid = i, evalues = f\<rparr> = Inr d"
    and mx: "0 \<le> MaxRetries (recoveryConfig r)" "MaxRetries (recoveryConfig r) < maxInt64"
    and k: "int k \<le> MaxRetries (recoveryConfig r)"
    and msg: "XValues m = (requeued_values ^^ k) f"
    and p: "path (reQueue r i) ((EXRange (lbsName r) i i, RMsgs (m # ms)) # tr) (out, d', e)"
  shows "(out = reQueueRequeued \<longrightarrow> int k < MaxRetries (recoveryConfig r) \<and>
            (\<exists>x. (EXAdd (lbsName r) ((requeued_values ^^ Suc k) f) 0 False, x) \<in> set tr))
       \<and> (out = reQueueDLQ \<longrightarrow> int k = MaxRetries (recoveryConfig r))"
proof -
  have cnt: "retryCount \<lparr>eid = i, evalues = XValues m\<rparr> = int k" for i
    using fresh k mx by (simp add: msg retryCount_iterate)
  have w: "wrap64 (int k + 1) = int k + 1"
    using k mx by (intro wrap64_id) (auto simp: in_int64_def maxInt64_def)
  have nm: "dataStreamName \<lparr>eid = i, evalues = XValues m\<rparr> = Inr d"
    using name dataStreamName_iterate [of i k f i] by (simp add: msg)
  have next_vals: "(XValues m)(RetryCountField \<mapsto> AStr (Itoa (int k + 1))) = (requeued_values ^^ Suc k) f"
    using cnt [of "''''"] w by (simp add: requeued_values_def msg)
  have "int k < MaxRetries (recoveryConfig r) \<and>
      (\<exists>x. (EXAdd (lbsName r) ((requeued_values ^^ Suc k) f) 0 False, x) \<in> set tr)"
    if "out = reQueueRequeued"
    using p that by (auto simp: reQueue_requeued_iff cnt w next_vals simp del: funpow.simps fun_upd_apply)
  moreover have "int k = MaxRetries (recoveryConfig r)" if "out = reQueueDLQ"
    using reQueue_dlq_cases p that nm k by (fastforce simp: cnt w)
  ultimately show ?thesis by blast
qed

theorem requeue_at_most_MaxRetries_witness:
  "\<exists>tr. path (reQueue sampleClient ''1-0'') tr (reQueueRequeued, ''s1'', None)
     \<and> int 0 < MaxRetries (recoveryConfig sampleClient)"
proof -
  let ?m = "\<lparr>XID = ''1-0'', XValues = sampleFields\<rparr>"
  let ?tr = "[(EExists (''s1'' @ MutexKeySep @ ''1-0''), RInt 0),
    (EXAck ''svc-input'' ''svc-group'' ''1-0'', RInt 1),
    (EXAdd ''svc-input'' (sampleFields(RetryCountField \<mapsto> AStr (Itoa 1))) 0 False, RStr ''2-0''),
    (EXDel ''svc-input'' ''1-0'', RInt 1), (EMetric (RecordReQueue ''s1'' True), ROk)]"
  have p: "path (reQueue sampleClient ''1-0'')
      ((EXRange (lbsName sampleClient) ''1-0'' ''1-0'', RMsgs [?m]) # ?tr) (reQueueRequeued, ''s1'', None)"
    by (simp add: requeue_eval in_int64_def del: fun_upd_apply)
  have "int 0 < MaxRetries (recoveryConfig sampleClient)"
    using requeue_at_most_MaxRetries [OF _ _ _ _ _ _ p, of sampleFields "''s1''" 0]
    by (simp add: sampleFields_def [unfolded cfg_simps] cfg_simps maxInt64_def
        sample_dataStreamName_fields [unfolded sampleFields_def])
  with p show ?thesis by blast
qed

lemma retry_overflow_resets:
  assumes "retryCount \<lparr>eid = i, evalues = f\<rparr> = maxInt64"
  shows "retryCount \<lparr>eid = j, evalues = requeued_values f\<rparr> = 0"
proof -
  have "requeued_values f RetryCountField = Some (AStr (Itoa (- (2 ^ 63))))"
    using assms wrap64_max by (simp add: requeued_values_def retryCount_eid [of i])
  moreover have "Atoi (Itoa (- (2 ^ 63))) = Some (- (2 ^ 63))"
    by (rule Atoi_Itoa) (simp add: in_int64_def)
  ultimately show ?thesis by (simp add: retryCount_def)
qed

text \<open>Whether a log has a failed \<open>XADD\<close>, and whether it reports a gap.\<close>

definition add_failed :: "log \<Rightarrow> bool" where
  "add_failed tr = list_ex (\<lambda>(e, x). is_add e \<and> as_err x \<noteq> None) tr"

definition gap_reported :: "log \<Rightarrow> bool" where
  "gap_reported tr = list_ex (\<lambda>(e, x). case e of EMetric (RecordAckAddGap _) \<Rightarrow> True | _ \<Rightarrow> False) tr"

text \<open>
  C26. The gap between \<open>XACK\<close> and \<open>XADD\<close>. An add that fails after the acknowledgement is
  always reported: the gap metric is recorded exactly when an add failed, and then the caller gets an
  error and the original entry is left in the stream.
\<close>

theorem reQueue_gap_reported:
  assumes "path (reQueue r i) tr (out, d, e)"
  shows "(gap_reported tr \<longleftrightarrow> add_failed tr) \<and>
    (add_failed tr \<longrightarrow> e \<noteq> None \<and> list_all (\<lambda>(e, _). e \<noteq> EXDel (lbsName r) i) tr)"
  using assms
  by (auto simp: requeue_defs path_unfold add_failed_def gap_reported_def simp del: fun_upd_apply)

theorem reQueue_gap_reported_witness:
  "\<exists>tr. path (reQueue sampleClient ''1-0'') tr (reQueueError, ''s1'',
       Some (NewRedisError OpReQueue (ErrNew ''READONLY''))) \<and> gap_reported tr \<and> add_failed tr"
proof -
  let ?tr = "[(EXRange ''svc-input'' ''1-0'' ''1-0'', RMsgs [\<lparr>XID = ''1-0'', XValues = sampleFields\<rparr>]),
    (EExists (''s1'' @ MutexKeySep @ ''1-0''), RInt 0),
    (EXAck ''svc-input'' ''svc-group'' ''1-0'', RInt 1),
    (EXAdd ''svc-input'' (sampleFields(RetryCountField \<mapsto> AStr (Itoa 1))) 0 False,
       RErr (ErrNew ''READONLY'')),
    (EMetric (RecordAckAddGap ''s1''), ROk), (EMetric (RecordReQueue ''s1'' False), ROk)]"
  have "path (reQueue sampleClient ''1-0'') ?tr
      (reQueueError, ''s1'', Some (NewRedisError OpReQueue (ErrNew ''READONLY'')))"
    by (simp add: requeue_eval in_int64_def del: fun_upd_apply)
  moreover from this have "gap_reported ?tr \<longleftrightarrow> add_failed ?tr"
    using reQueue_gap_reported by blast
  moreover have "add_failed ?tr" by (simp add: add_failed_def)
  ultimately show ?thesis by blast
qed

section \<open>Properties of the recovery primitive\<close>

text \<open>
  C6. An entry is reported re-queued exactly when the whole protocol went through, in this order: the
  entry was read and parses, its lock key does not exist, the acknowledgement removed it from the
  pending list, and it was added again to the load balancer stream with every field unchanged but the
  retry count, which is one higher and within \<open>MaxRetries\<close>.
\<close>

theorem reQueue_requeued_exactly:
  "path (reQueue r i) tr (reQueueRequeued, d, e) \<longleftrightarrow>
   (\<exists>m ms n0 n ra rd rm.
      tr = [(EXRange (lbsName r) i i, RMsgs (m # ms)),
            (EExists (d @ MutexKeySep @ i), RInt n0),
            (EXAck (lbsName r) (lbsGroupName r) i, RInt n),
            (EXAdd (lbsName r)
               ((XValues m)(RetryCountField \<mapsto>
                  AStr (Itoa (wrap64 (retryCount \<lparr>eid = i, evalues = XValues m\<rparr> + 1))))) 0 False, ra),
            (EXDel (lbsName r) i, rd),
            (EMetric (RecordReQueue d True), rm)]
      \<and> e = None \<and> dataStreamName \<lparr>eid = i, evalues = XValues m\<rparr> = Inr d \<and> i \<noteq> []
      \<and> n0 \<le> 0 \<and> n \<noteq> 0 \<and> as_err ra = None
      \<and> wrap64 (retryCount \<lparr>eid = i, evalues = XValues m\<rparr> + 1) \<le> MaxRetries (recoveryConfig r))"
  by (rule reQueue_requeued_iff)

text \<open>
  C4. No entry is added, to the load balancer stream or to the dead letter queue, before this
  caller's own acknowledgement of the original has removed it from the pending list.
\<close>

theorem reQueue_acks_before_it_adds:
  assumes "path (reQueue r i) (pre @ (e, x) # post) res" and "is_add e"
  shows "\<exists>n. (EXAck (lbsName r) (lbsGroupName r) i, RInt n) \<in> set pre \<and> n \<noteq> 0"
  using ack_safe_add [OF reQueue_ack_safe assms] unfolding won_pos [symmetric] by linarith

theorem reQueue_acks_before_it_adds_witness:
  "\<exists>n. (EXAck ''svc-input'' ''svc-group'' ''1-0'', RInt n) \<in>
     set [(EXRange ''svc-input'' ''1-0'' ''1-0'', RMsgs [\<lparr>XID = ''1-0'', XValues = poisonFields\<rparr>]),
          (EXAck ''svc-input'' ''svc-group'' ''1-0'', RInt 1)] \<and> n \<noteq> 0"
proof -
  let ?pre = "[(EXRange ''svc-input'' ''1-0'' ''1-0'',
      RMsgs [\<lparr>XID = ''1-0'', XValues = poisonFields\<rparr>]),
    (EXAck ''svc-input'' ''svc-group'' ''1-0'', RInt 1)]"
  have "path (reQueue sampleClient ''1-0'')
      (?pre @ (EXAdd ''svc-input-dlq'' (poisonFields(RetryCountField \<mapsto> AStr (Itoa 0),
          DLQReasonField \<mapsto> AStr DLQReasonUnparseable)) 10000 True, ROk)
        # [(EMetric (RecordDLQRouting unknownDataStream), ROk), (EXDel ''svc-input'' ''1-0'', RInt 1)])
      (reQueueDLQ, unknownDataStream, None)"
    by (simp add: requeue_eval del: fun_upd_apply)
  from reQueue_acks_before_it_adds [OF this] show ?thesis by simp
qed





text \<open>
  C37. The retry count wraps. For an entry whose count is the largest 64-bit integer the next count is
  the smallest one, which is not above \<open>MaxRetries\<close>: the entry is not sent to the dead letter
  queue, and once re-queued its count reads as 0, a full new budget.
\<close>

theorem retry_count_wraps_past_the_limit:
  assumes "retryCount \<lparr>eid = i, evalues = XValues m\<rparr> = maxInt64"
    and "0 \<le> MaxRetries (recoveryConfig r)"
    and "dataStreamName \<lparr>eid = i, evalues = XValues m\<rparr> = Inr d"
    and "path (reQueue r i) ((EXRange (lbsName r) i i, RMsgs (m # ms)) # tr) (out, d', e)"
  shows "out \<noteq> reQueueDLQ
    \<and> retryCount \<lparr>eid = j, evalues = requeued_values (XValues m)\<rparr> = 0"
proof -
  have "out \<noteq> reQueueDLQ"
    using reQueue_dlq_cases [of r i _ d' e] assms by (fastforce simp: wrap64_max)
  with retry_overflow_resets [OF assms(1)] show ?thesis by simp
qed

theorem retry_count_wraps_past_the_limit_witness:
  "\<exists>m tr. path (reQueue sampleClient ''1-0'')
     ((EXRange ''svc-input'' ''1-0'' ''1-0'', RMsgs [m]) # tr) (reQueueRequeued, ''s1'', None)
     \<and> retryCount \<lparr>eid = ''1-0'', evalues = XValues m\<rparr> = maxInt64
     \<and> retryCount \<lparr>eid = ''2-0'', evalues = requeued_values (XValues m)\<rparr> = 0"
proof -
  let ?f = "sampleFields(RetryCountField \<mapsto> AStr (Itoa maxInt64))"
  let ?m = "\<lparr>XID = ''1-0'', XValues = ?f\<rparr>"
  let ?tr = "[(EExists (''s1'' @ MutexKeySep @ ''1-0''), RInt 0),
    (EXAck ''svc-input'' ''svc-group'' ''1-0'', RInt 1),
    (EXAdd ''svc-input'' (?f(RetryCountField \<mapsto> AStr (Itoa (- (2 ^ 63))))) 0 False, RStr ''2-0''),
    (EXDel ''svc-input'' ''1-0'', RInt 1), (EMetric (RecordReQueue ''s1'' True), ROk)]"
  have c: "retryCount \<lparr>eid = ''1-0'', evalues = ?f\<rparr> = maxInt64"
    by (rule retryCount_stored) (simp_all add: maxInt64_def)
  have d: "dataStreamName \<lparr>eid = ''1-0'', evalues = ?f\<rparr> = Inr ''s1''"
    by (rule sample_dataStreamName) (simp add: sampleFields_def cfg_simps)
  have p: "path (reQueue sampleClient ''1-0'')
      ((EXRange (lbsName sampleClient) ''1-0'' ''1-0'', RMsgs [?m]) # ?tr) (reQueueRequeued, ''s1'', None)"
    by (simp add: requeue_eval c d wrap64_max del: fun_upd_apply)
  have "retryCount \<lparr>eid = ''2-0'', evalues = requeued_values (XValues ?m)\<rparr> = 0"
    using retry_count_wraps_past_the_limit [OF _ _ _ p, of "''s1''" "''2-0''"] c d by simp
  with p c show ?thesis by (intro exI [of _ ?m] exI [of _ ?tr]) simp
qed

end
