(* ===== verification/Jitter.thy ===== *)
theory Jitter
  imports Consts Effects
begin

text \<open>
  \<open>nextReconciliationDelay\<close> of \<open>impl/requeue.go\<close>. The code multiplies the interval by 0.1 in
  double precision and truncates. Every double that occurs is a positive integer or such an integer
  divided by \<open>2^55\<close>, far from the subnormal range, so the IEEE operations are modelled exactly:
  \<open>round53\<close> rounds a positive integer to 53 significant bits, ties to even.
\<close>

section \<open>Double precision on positive integers\<close>

function bits :: "int \<Rightarrow> nat" where
  "bits n = (if n \<le> 0 then 0 else Suc (bits (n div 2)))"
  by auto
termination by (relation "measure nat") auto

declare bits.simps [simp del]

definition round53 :: "int \<Rightarrow> int" where
  "round53 n =
     (if bits n \<le> 53 then n
      else let sh = bits n - 53;
               q = n div 2 ^ sh;
               rem = n mod 2 ^ sh;
               half = 2 ^ (sh - 1)
           in (if rem > half \<or> (rem = half \<and> odd q) then q + 1 else q) * 2 ^ sh)"

lemma bits_bounds: "0 < n \<Longrightarrow> 2 ^ (bits n - 1) \<le> n \<and> n < 2 ^ bits n"
proof (induction n rule: bits.induct)
  case (1 n)
  show ?case
  proof (cases "n = 1")
    case True
    then show ?thesis by (simp add: bits.simps [of 1] bits.simps [of 0])
  next
    case False
    with 1 have h: "0 < n div 2" by simp
    with 1 have IH: "2 ^ (bits (n div 2) - 1) \<le> n div 2" "n div 2 < 2 ^ bits (n div 2)" by auto
    have b: "bits n = Suc (bits (n div 2))" using 1 by (simp add: bits.simps [of n])
    have "bits (n div 2) = Suc (bits (n div 2) - 1)" using h by (simp add: bits.simps [of "n div 2"])
    then have "(2 :: int) ^ bits (n div 2) = 2 * 2 ^ (bits (n div 2) - 1)" by (metis power_Suc)
    then show ?thesis using IH unfolding b diff_Suc_1 power_Suc by linarith
  qed
qed

lemma bits_le:
  assumes "0 < n" and "n < 2 ^ k"
  shows "bits n \<le> k"
proof -
  have "(2 :: int) ^ (bits n - 1) < 2 ^ k" using bits_bounds [OF assms(1)] assms(2) by linarith
  then have "bits n - 1 < k" by (rule power_less_imp_less_exp [rotated]) simp
  then show ?thesis by simp
qed

lemma bits_ge:
  assumes "2 ^ k \<le> n"
  shows "Suc k \<le> bits n"
proof -
  have n: "0 < n" using assms by (rule less_le_trans [rotated]) simp
  then have "(2 :: int) ^ k < 2 ^ bits n" using bits_bounds [OF n] assms by linarith
  then have "k < bits n" by (rule power_less_imp_less_exp [rotated]) simp
  then show ?thesis by simp
qed

lemma round53_exact: "0 < n \<Longrightarrow> n < 2 ^ 53 \<Longrightarrow> round53 n = n"
  using bits_le [of n 53] by (simp add: round53_def)

text \<open>Rounding moves a value by at most one part in \<open>2^53\<close>, and never below a power of two.\<close>

lemma round53_bounds:
  assumes "0 < n"
  shows "2 ^ (bits n - 1) \<le> round53 n \<and> \<bar>round53 n - n\<bar> * 2 ^ 53 \<le> n"
proof (cases "bits n \<le> 53")
  case True
  with assms bits_bounds [OF assms] show ?thesis by (simp add: round53_def)
next
  case False
  define sh where "sh = bits n - 53"
  define q where "q = n div 2 ^ sh"
  define rem where "rem = n mod 2 ^ sh"
  have sh: "0 < sh" "bits n - 1 = 52 + sh" using False by (auto simp: sh_def)
  have n: "n = q * 2 ^ sh + rem" unfolding q_def rem_def by (rule div_mult_mod_eq [symmetric])
  have rem: "0 \<le> rem" "rem < 2 ^ sh" by (simp_all add: rem_def)
  have half: "(2 :: int) ^ sh = 2 * 2 ^ (sh - 1)" using sh by (cases sh) auto
  have big: "2 ^ 52 * 2 ^ sh \<le> n" using bits_bounds [OF assms] unfolding sh power_add by simp
  then have q: "2 ^ 52 \<le> q"
    using zdiv_mono1 [of "2 ^ 52 * 2 ^ sh" n "2 ^ sh"] unfolding q_def by simp
  define d where "d = (if rem > 2 ^ (sh - 1) \<or> (rem = 2 ^ (sh - 1) \<and> odd q) then 1 else 0 :: int)"
  have r: "round53 n = (q + d) * 2 ^ sh"
    using False unfolding round53_def Let_def sh_def [symmetric] q_def [symmetric]
      rem_def [symmetric] d_def by simp
  have d: "d = 0 \<and> rem \<le> 2 ^ (sh - 1) \<or> d = 1 \<and> 2 ^ (sh - 1) \<le> rem"
    by (auto simp: d_def)
  have "round53 n - n = d * 2 ^ sh - rem" unfolding r using n by (simp add: algebra_simps)
  then have err: "\<bar>round53 n - n\<bar> \<le> 2 ^ (sh - 1)"
    using d rem unfolding half by auto
  have "\<bar>round53 n - n\<bar> * 2 ^ 53 \<le> 2 ^ (sh - 1) * 2 ^ 53"
    using err by (rule mult_right_mono) simp
  also have "\<dots> = 2 ^ 52 * 2 ^ sh" by (simp add: half)
  finally have "\<bar>round53 n - n\<bar> * 2 ^ 53 \<le> n" using big by linarith
  moreover have "2 ^ 52 * 2 ^ sh \<le> (q + d) * 2 ^ sh"
    using q d by (intro mult_right_mono) auto
  then have "2 ^ (bits n - 1) \<le> round53 n" unfolding r sh power_add .
  ultimately show ?thesis by simp
qed

section \<open>The delay\<close>

text \<open>
  \<open>configs.DefaultJitterFraction\<close> is the double nearest to 0.1, which is this integer divided by
  \<open>2^55\<close>. The result \<open>None\<close> is the panic of \<open>rand.Int63n\<close> for an argument \<open>\<le> 0\<close>.
\<close>

definition DefaultJitterFraction :: int where
  "DefaultJitterFraction = 3602879701896397"

definition maxJitter :: "int \<Rightarrow> int" where
  "maxJitter interval = round53 (round53 interval * DefaultJitterFraction)"

definition nextReconciliationDelay :: "int \<Rightarrow> int option prog" where
  "nextReconciliationDelay interval0 =
     (let interval = (if interval0 \<le> 0 then DefaultReconciliationInterval else interval0) in
      if maxJitter interval \<le> 0 then Ret (Some interval)
      else (let n = maxJitter interval div 2 ^ 55 in
        if n \<le> 0 then Ret None
        else randInt63n n (\<lambda>k. Ret (Some (wrap64 (interval + k))))))"

lemma maxJitter_upper:
  assumes "0 < i"
  shows "10 * 2 ^ 51 * (maxJitter i div 2 ^ 55) \<le> i * (2 ^ 51 + 1)"
proof -
  let ?a = "round53 i" and ?c = "3602879701896397 :: int"
  have a: "?a * 2 ^ 53 \<le> i * (2 ^ 53 + 1)" "0 < ?a"
    using round53_bounds [OF assms] by (auto simp: abs_if algebra_simps split: if_splits
        intro: less_le_trans [of 0 "2 ^ (bits i - 1)"])
  have b: "maxJitter i * 2 ^ 53 \<le> ?a * ?c * (2 ^ 53 + 1)"
    using round53_bounds [of "?a * ?c"] a(2)
    by (auto simp: maxJitter_def DefaultJitterFraction_def abs_if algebra_simps split: if_splits)
  have "maxJitter i div 2 ^ 55 * 2 ^ 55 \<le> maxJitter i"
    by (metis (no_types) div_mult_mod_eq le_add_same_cancel1 pos_mod_sign zero_less_numeral
        zero_less_power)
  then have c: "maxJitter i div 2 ^ 55 * 2 ^ 55 * 2 ^ 53 \<le> ?a * ?c * (2 ^ 53 + 1)" using b by simp
  then have "maxJitter i div 2 ^ 55 * 2 ^ 55 * 2 ^ 106 \<le> (?a * 2 ^ 53) * (?c * (2 ^ 53 + 1))" by simp
  also have "\<dots> \<le> i * (2 ^ 53 + 1) * (?c * (2 ^ 53 + 1))" using a(1) by (intro mult_right_mono) auto
  finally show ?thesis using assms by simp
qed

lemma maxJitter_pos: "0 < i \<Longrightarrow> 0 < maxJitter i"
proof -
  assume "0 < i"
  then have "0 < round53 i"
    using round53_bounds [of i] by (auto intro: less_le_trans [of 0 "2 ^ (bits i - 1)"])
  then have "0 < round53 i * DefaultJitterFraction" by (simp add: DefaultJitterFraction_def)
  then show ?thesis
    using round53_bounds unfolding maxJitter_def
    by (auto intro: less_le_trans [of 0 "2 ^ (bits (round53 i * DefaultJitterFraction) - 1)"])
qed

lemma maxJitter_lower:
  assumes "10 \<le> i"
  shows "1 \<le> maxJitter i div 2 ^ 55"
proof -
  have "10 \<le> round53 i"
  proof (cases "i < 2 ^ 53")
    case True
    with assms show ?thesis using round53_exact [of i] by simp
  next
    case False
    then have "2 ^ 53 \<le> (2 :: int) ^ (bits i - 1)"
      using bits_ge [of 53 i] by (intro power_increasing) auto
    with False show ?thesis using round53_bounds [of i] by simp
  qed
  then have p: "2 ^ 55 \<le> round53 i * DefaultJitterFraction" by (simp add: DefaultJitterFraction_def)
  then have "(2 :: int) ^ 55 \<le> 2 ^ (bits (round53 i * DefaultJitterFraction) - 1)"
    using bits_ge [OF p] by (intro power_increasing) auto
  moreover have "\<dots> \<le> maxJitter i" using round53_bounds p unfolding maxJitter_def by simp
  ultimately have "2 ^ 55 \<le> maxJitter i" by linarith
  then show ?thesis using zdiv_mono1 [of "2 ^ 55" "maxJitter i" "2 ^ 55"] by simp
qed

lemma maxJitter_tiny:
  assumes "0 < i" and "i < 10"
  shows "maxJitter i div 2 ^ 55 = 0"
proof -
  have "i \<in> {1, 2, 3, 4, 5, 6, 7, 8, 9}" using assms by auto
  moreover have "\<forall>i \<in> {1, 2, 3, 4, 5, 6, 7, 8, 9}. maxJitter i div 2 ^ 55 = 0" by code_simp
  ultimately show ?thesis by blast
qed

text \<open>
  C32. For an interval of at least 10 ns (and below \<open>2^62\<close> ns) the delay is the interval plus
  a jitter that is non-negative and below a tenth of the interval, up to the rounding of the double
  arithmetic (one part in \<open>2^51\<close>), given that \<open>rand.Int63n(n)\<close> answers in \<open>[0, n)\<close>.
\<close>

theorem nextReconciliationDelay_bounds:
  assumes "10 \<le> i" and "i \<le> 2 ^ 62"
    and "path (nextReconciliationDelay i) tr d"
    and "\<forall>n x. (ERandInt63n n, x) \<in> set tr \<longrightarrow> 0 \<le> as_num x \<and> as_num x < n"
  shows "\<exists>delay. d = Some delay \<and> i \<le> delay \<and> 10 * 2 ^ 51 * (delay - i) < i * (2 ^ 51 + 1)"
proof -
  let ?n = "maxJitter i div 2 ^ 55"
  have n: "1 \<le> ?n" "0 < maxJitter i" using assms(1) by (rule maxJitter_lower, simp add: maxJitter_pos)
  with assms obtain x where d: "d = Some (wrap64 (i + as_num x))" and x: "0 \<le> as_num x" "as_num x < ?n"
    by (auto simp: nextReconciliationDelay_def Let_def eff_simps path_simps)
  have up: "10 * 2 ^ 51 * ?n \<le> i * (2 ^ 51 + 1)" using assms(1) by (intro maxJitter_upper) simp
  then have "in_int64 (i + as_num x)" using assms(1,2) x by (simp add: in_int64_def)
  moreover have "10 * 2 ^ 51 * as_num x < 10 * 2 ^ 51 * ?n" using x by simp
  ultimately show ?thesis using d up x by (intro exI [of _ "i + as_num x"]) simp
qed

theorem nextReconciliationDelay_bounds_witness:
  "\<exists>delay. Some (63000000000 :: int) = Some delay \<and> 60000000000 \<le> delay
     \<and> 10 * 2 ^ 51 * (delay - 60000000000) < 60000000000 * (2 ^ 51 + 1)"
proof (rule nextReconciliationDelay_bounds)
  have "maxJitter 60000000000 = 6000000000 * 2 ^ 55" by code_simp
  then show "path (nextReconciliationDelay 60000000000)
      [(ERandInt63n 6000000000, RInt 3000000000)] (Some 63000000000)"
    by (simp add: nextReconciliationDelay_def Let_def eff_simps in_int64_def)
qed simp_all

text \<open>
  C36. \<open>rand.Int63n\<close> is called with 0, and panics, exactly for intervals from 1 to 9 ns: the
  code tests the jitter before it truncates it.
\<close>

theorem nextReconciliationDelay_panics_iff:
  "path (nextReconciliationDelay i) tr None \<longleftrightarrow> tr = [] \<and> 0 < i \<and> i < 10"
proof -
  define j where "j = (if i \<le> 0 then DefaultReconciliationInterval else i)"
  have j: "0 < j" by (simp add: j_def cfg_simps)
  have "path (nextReconciliationDelay i) tr None \<longleftrightarrow> tr = [] \<and> maxJitter j div 2 ^ 55 \<le> 0"
    using maxJitter_pos [OF j] unfolding nextReconciliationDelay_def j_def [symmetric] Let_def
    by (auto simp: eff_simps path_Vis)
  also have "maxJitter j div 2 ^ 55 \<le> 0 \<longleftrightarrow> j < 10"
    using maxJitter_tiny [OF j] maxJitter_lower [of j] by linarith
  also have "j < 10 \<longleftrightarrow> 0 < i \<and> i < 10" by (auto simp: j_def cfg_simps)
  finally show ?thesis .
qed

end
