(* ===== verification/Recovery.thy ===== *)
theory Recovery
  imports Requeue Jitter
begin

text \<open>
  The callers of \<open>reQueue\<close>: the reconciliation scan and its loop (\<open>impl/init.go\<close>) and
  \<open>Claim\<close> (\<open>impl/relredis.go\<close>).
\<close>

section \<open>One reconciliation pass\<close>

record scanCounts =
  requeued :: int
  skippedAlive :: int
  dlqRouted :: int

definition countOutcome :: "reQueueOutcome \<Rightarrow> scanCounts \<Rightarrow> scanCounts" where
  "countOutcome outcome c =
     (case outcome of
        reQueueRequeued \<Rightarrow> c\<lparr>requeued := requeued c + 1\<rparr>
      | reQueueSkippedAlive \<Rightarrow> c\<lparr>skippedAlive := skippedAlive c + 1\<rparr>
      | reQueueDLQ \<Rightarrow> c\<lparr>dlqRouted := dlqRouted c + 1\<rparr>
      | _ \<Rightarrow> c)"

text \<open>The loop over the pending entries; \<open>None\<close> is the early return on a done context.\<close>

fun reconcileEntries :: "Client \<Rightarrow> string list \<Rightarrow> scanCounts \<Rightarrow> scanCounts option prog" where
  "reconcileEntries r [] c = Ret (Some c)"
| "reconcileEntries r (pid # pids) c =
     ctxDone (\<lambda>done.
       if done then Ret None
       else bind (reQueue r pid) (\<lambda>(outcome, dsn, err).
         case err of
           Some _ \<Rightarrow> reconcileEntries r pids c
         | None \<Rightarrow> reconcileEntries r pids (countOutcome outcome c)))"

definition reconcileLBS :: "Client \<Rightarrow> bool \<Rightarrow> unit prog" where
  "reconcileLBS r startup =
     now (\<lambda>start.
     xPendingExt (lbsName r) (lbsGroupName r) (MinIdleTime (recoveryConfig r))
       MinimalRangeID MaximalRangeID (BatchSize (recoveryConfig r)) (\<lambda>res.
     case res of
       Inl _ \<Rightarrow>
         now (\<lambda>t1. metric (RecordReconciliationScan 0 0 0 (t1 - start))
         (if startup then now (\<lambda>t2. metric (RecordStartupRecovery False 0 (t2 - start)) (Ret ()))
          else Ret ()))
     | Inr pending \<Rightarrow>
         bind (reconcileEntries r pending \<lparr>requeued = 0, skippedAlive = 0, dlqRouted = 0\<rparr>)
         (\<lambda>scan. case scan of
            None \<Rightarrow> Ret ()
          | Some c \<Rightarrow>
              now (\<lambda>t1. metric (RecordReconciliationScan (requeued c) (skippedAlive c) (dlqRouted c)
                (t1 - start))
              (if startup
               then now (\<lambda>t2. metric (RecordStartupRecovery True (requeued c + dlqRouted c)
                 (t2 - start)) (Ret ()))
               else Ret ())))))"

section \<open>The loop\<close>

text \<open>
  The loop runs until its context is done, so it is given a bound on the number of passes; a run
  that exhausts the bound is still running.
\<close>

datatype loopEnd = Stopped | Panicked | StillRunning

fun reconcileLoop :: "nat \<Rightarrow> Client \<Rightarrow> loopEnd prog" where
  "reconcileLoop 0 r = Ret StillRunning"
| "reconcileLoop (Suc fuel) r =
     bind (nextReconciliationDelay (ReconciliationInterval (recoveryConfig r))) (\<lambda>delay.
     case delay of
       None \<Rightarrow> Ret Panicked
     | Some d \<Rightarrow>
         afterOrDone d (\<lambda>done.
           if done then Ret Stopped
           else bind (reconcileLBS r False) (\<lambda>_. reconcileLoop fuel r)))"

definition runReconciliationLoop :: "nat \<Rightarrow> Client \<Rightarrow> loopEnd prog" where
  "runReconciliationLoop fuel r = bind (reconcileLBS r True) (\<lambda>_. reconcileLoop fuel r)"

section \<open>Claim\<close>

definition Claim :: "Client \<Rightarrow> LBSInfo \<Rightarrow> goerror option prog" where
  "Claim r lbsInfo =
     bind (reQueue r (IDInLBS lbsInfo)) (\<lambda>(outcome, dsn, err).
     case err of
       Some e \<Rightarrow> Ret (Some e)
     | None \<Rightarrow>
         if outcome \<noteq> reQueueRequeued \<and> outcome \<noteq> reQueueDLQ
         then Ret (Some (Sentinel ErrAlreadyClaimed))
         else Ret None)"

lemma Claim_ack_safe:
  "ack_safe (EXAck (lbsName r) (lbsGroupName r) (IDInLBS l)) (\<lambda>e. e = None) (Claim r l) 0 0"
  by (auto simp: Claim_def requeue_defs eff_simps ack_won_def Let_def
      split: option.splits list.splits bool.splits sum.splits simp del: fun_upd_apply)







section \<open>What a scan reports\<close>

text \<open>Calls of the recorder in a log, counted.\<close>

definition calls :: "(metric \<Rightarrow> bool) \<Rightarrow> log \<Rightarrow> int" where
  "calls P tr = int (length (filter (\<lambda>(e, _). case e of EMetric m \<Rightarrow> P m | _ \<Rightarrow> False) tr))"

fun is_requeue_ok is_alive_skip is_dlq_routing is_scan :: "metric \<Rightarrow> bool" where
  "is_requeue_ok (RecordReQueue _ b) = b" | "is_requeue_ok _ = False"
| "is_alive_skip (RecordMutexAliveSkip _) = True" | "is_alive_skip _ = False"
| "is_dlq_routing (RecordDLQRouting _) = True" | "is_dlq_routing _ = False"
| "is_scan (RecordReconciliationScan _ _ _ _) = True" | "is_scan _ = False"

lemma calls_simps [simp]:
  "calls P [] = 0"
  "calls P ((e, x) # tr) = (case e of EMetric m \<Rightarrow> of_bool (P m) | _ \<Rightarrow> 0) + calls P tr"
  "calls P (tr @ tr') = calls P tr + calls P tr'"
  by (auto simp: calls_def split: eff.splits)

lemma reQueue_calls_requeue:
  assumes "path (reQueue r i) tr (out, d, e)"
  shows "calls is_requeue_ok tr = (if e = None \<and> out = reQueueRequeued then 1 else 0)"
  using assms by (auto simp: requeue_defs path_unfold simp del: fun_upd_apply)

lemma reQueue_calls_skip:
  assumes "path (reQueue r i) tr (out, d, e)"
  shows "calls is_alive_skip tr = (if e = None \<and> out = reQueueSkippedAlive then 1 else 0)"
  using assms by (auto simp: requeue_defs path_unfold simp del: fun_upd_apply)

lemma reQueue_calls_dlq:
  assumes "path (reQueue r i) tr (out, d, e)" and "DLQStream (recoveryConfig r) \<noteq> []"
  shows "calls is_dlq_routing tr = (if e = None \<and> out = reQueueDLQ then 1 else 0)"
  using assms by (auto simp: requeue_defs path_unfold simp del: fun_upd_apply)

lemma reQueue_calls_scan:
  assumes "path (reQueue r i) tr (out, d, e)"
  shows "calls is_scan tr = 0"
  using assms by (auto simp: requeue_defs path_unfold simp del: fun_upd_apply)

text \<open>The entries a log reads, in order.\<close>

definition visited :: "log \<Rightarrow> string list" where
  "visited tr = concat (map (\<lambda>(e, _). case e of EXRange _ i _ \<Rightarrow> [i] | _ \<Rightarrow> []) tr)"

lemma visited_simps [simp]:
  "visited [] = []"
  "visited ((e, x) # tr) = (case e of EXRange _ i _ \<Rightarrow> [i] | _ \<Rightarrow> []) @ visited tr"
  "visited (tr @ tr') = visited tr @ visited tr'"
  by (simp_all add: visited_def)

lemma reQueue_visited:
  "path (reQueue r i) tr (out, d, e) \<Longrightarrow> visited tr = [i]"
  by (auto simp: requeue_defs path_unfold simp del: fun_upd_apply)

definition scan_total :: "scanCounts \<Rightarrow> log \<Rightarrow> scanCounts" where
  "scan_total c tr = \<lparr>requeued = requeued c + calls is_requeue_ok tr,
     skippedAlive = skippedAlive c + calls is_alive_skip tr,
     dlqRouted = dlqRouted c + calls is_dlq_routing tr\<rparr>"

lemma scan_total_append: "scan_total c (tr @ tr') = scan_total (scan_total c tr) tr'"
  by (simp add: scan_total_def)

lemma reQueue_scan_total:
  assumes "path (reQueue r i) tr (out, d, e)" and "DLQStream (recoveryConfig r) \<noteq> []"
  shows "scan_total c tr = (if e = None then countOutcome out c else c)"
  using assms(2) unfolding scan_total_def reQueue_calls_requeue [OF assms(1)]
    reQueue_calls_skip [OF assms(1)] reQueue_calls_dlq [OF assms]
  by (cases out) (simp_all add: countOutcome_def)

lemma reconcileEntries_eq:
  "reconcileEntries r (i # is) c =
     Vis ECtxDone (\<lambda>x. if as_bool x then Ret None
       else bind (reQueue r i) (\<lambda>z. reconcileEntries r is
         (if snd (snd z) = None then countOutcome (fst z) c else c)))"
  unfolding reconcileEntries.simps ctxDone_def
  by (intro arg_cong [of _ _ "Vis ECtxDone"] ext if_cong refl arg_cong [of _ _ "bind (reQueue r i)"])
    (auto split: option.splits)

lemma reconcileEntries_Cons:
  "path (reconcileEntries r (i # is) c) tr res \<longleftrightarrow>
     (\<exists>x tr1 tr2 out d e. tr = (ECtxDone, x) # tr1 @ tr2 \<and> \<not> as_bool x \<and>
        path (reQueue r i) tr1 (out, d, e) \<and>
        path (reconcileEntries r is (if e = None then countOutcome out c else c)) tr2 res)
     \<or> (\<exists>x. tr = [(ECtxDone, x)] \<and> as_bool x \<and> res = None)"
  unfolding reconcileEntries_eq path_Vis path_if path_bind split_paired_Ex fst_conv snd_conv path_Ret
  by blast

lemma reconcileEntries_total:
  assumes "path (reconcileEntries r is c) tr (Some c')" and "DLQStream (recoveryConfig r) \<noteq> []"
  shows "c' = scan_total c tr \<and> visited tr = is"
  using assms(1)
proof (induction "is" arbitrary: c tr)
  case Nil
  then show ?case by (simp add: scan_total_def)
next
  case (Cons i "is")
  then obtain x tr1 tr2 out d e where tr: "tr = (ECtxDone, x) # tr1 @ tr2"
    and one: "path (reQueue r i) tr1 (out, d, e)"
    and rest: "path (reconcileEntries r is (if e = None then countOutcome out c else c)) tr2 (Some c')"
    by (auto simp only: reconcileEntries_Cons option.distinct)
  have "scan_total c tr = scan_total (scan_total c tr1) tr2"
    unfolding tr by (simp add: scan_total_def)
  with Cons.IH [OF rest] show ?case
    by (simp add: tr reQueue_scan_total [OF one assms(2)] reQueue_visited [OF one])
qed

lemma reconcileEntries_no_scan:
  "path (reconcileEntries r is c) tr res \<Longrightarrow> calls is_scan tr = 0"
proof (induction "is" arbitrary: c tr)
  case (Cons i "is")
  from Cons.prems show ?case
    unfolding reconcileEntries_Cons
  proof (elim disjE exE conjE)
    fix x tr1 tr2 out d e
    assume "tr = (ECtxDone, x) # tr1 @ tr2" and "path (reQueue r i) tr1 (out, d, e)"
      and "path (reconcileEntries r is (if e = None then countOutcome out c else c)) tr2 res"
    then show ?thesis using Cons.IH by (simp add: reQueue_calls_scan)
  qed simp
qed simp

lemma calls_0: "calls P tr = 0 \<Longrightarrow> P m \<Longrightarrow> (EMetric m, x) \<notin> set tr"
  by (auto simp: calls_def filter_empty_conv)

text \<open>The common end of a pass, and a pass as three stages.\<close>

definition recordScan :: "bool \<Rightarrow> int \<Rightarrow> bool \<Rightarrow> scanCounts \<Rightarrow> unit prog" where
  "recordScan startup start ok c =
     now (\<lambda>t1. metric (RecordReconciliationScan (requeued c) (skippedAlive c) (dlqRouted c) (t1 - start))
     (if startup
      then now (\<lambda>t2. metric (RecordStartupRecovery ok (requeued c + dlqRouted c) (t2 - start)) (Ret ()))
      else Ret ()))"

abbreviation "noCounts \<equiv> \<lparr>requeued = 0, skippedAlive = 0, dlqRouted = 0\<rparr>"

lemma reconcileLBS_eq:
  "reconcileLBS r startup =
     Vis ENow (\<lambda>t0.
     Vis (EXPendingExt (lbsName r) (lbsGroupName r) (MinIdleTime (recoveryConfig r))
       MinimalRangeID MaximalRangeID (BatchSize (recoveryConfig r))) (\<lambda>x.
     case as_strs x of
       Inl _ \<Rightarrow> recordScan startup (as_num t0) False noCounts
     | Inr pending \<Rightarrow> bind (reconcileEntries r pending noCounts) (\<lambda>scan. case scan of
          None \<Rightarrow> Ret () | Some c \<Rightarrow> recordScan startup (as_num t0) True c)))"
  unfolding reconcileLBS_def recordScan_def [abs_def] now_def xPendingExt_def scanCounts.select_convs
    add_0 by (rule refl)

lemma recordScan_log:
  assumes "path (recordScan startup start ok c) tr u"
  shows "calls is_requeue_ok tr = 0 \<and> calls is_alive_skip tr = 0 \<and> calls is_dlq_routing tr = 0 \<and>
    visited tr = []"
  using assms by (auto simp: recordScan_def eff_simps path_simps)

lemma recordScan_counts:
  assumes "path (recordScan startup start ok c) tr u"
    and "(EMetric (RecordReconciliationScan a b d t), x) \<in> set tr"
  shows "a = requeued c \<and> b = skippedAlive c \<and> d = dlqRouted c"
  using assms by (auto simp: recordScan_def eff_simps path_simps)

lemma scan_reports:
  assumes dlq: "DLQStream (recoveryConfig r) \<noteq> []"
    and p: "path (reconcileLBS r startup) tr u"
    and m: "(EMetric (RecordReconciliationScan a b c t), x) \<in> set tr"
  shows "a = calls is_requeue_ok tr \<and> b = calls is_alive_skip tr \<and> c = calls is_dlq_routing tr \<and>
    (\<forall>ids. (EXPendingExt (lbsName r) (lbsGroupName r) (MinIdleTime (recoveryConfig r))
       MinimalRangeID MaximalRangeID (BatchSize (recoveryConfig r)), RStrs ids) \<in> set (take 2 tr)
       \<longrightarrow> visited tr = ids)"
proof -
  obtain t0 y rest where tr: "tr = (ENow, t0) # (EXPendingExt (lbsName r) (lbsGroupName r)
      (MinIdleTime (recoveryConfig r)) MinimalRangeID MaximalRangeID (BatchSize (recoveryConfig r)), y)
      # rest"
    and q: "path (case as_strs y of Inl _ \<Rightarrow> recordScan startup (as_num t0) False noCounts
       | Inr pending \<Rightarrow> bind (reconcileEntries r pending noCounts) (\<lambda>scan. case scan of
            None \<Rightarrow> Ret () | Some c \<Rightarrow> recordScan startup (as_num t0) True c)) rest u"
    using p unfolding reconcileLBS_eq path_Vis by blast
  from m have m': "(EMetric (RecordReconciliationScan a b c t), x) \<in> set rest" by (simp add: tr)
  from q consider (failed) e where "as_strs y = Inl e"
      "path (recordScan startup (as_num t0) False noCounts) rest u"
    | (stopped) ids where "path (reconcileEntries r ids noCounts) rest None"
    | (scanned) ids c0 tr1 tr2 where "y = RStrs ids" "rest = tr1 @ tr2"
        "path (reconcileEntries r ids noCounts) tr1 (Some c0)"
        "path (recordScan startup (as_num t0) True c0) tr2 u"
    by (auto simp: path_case_sum path_bind path_case_option)
  then show ?thesis
  proof cases
    case failed
    from recordScan_counts [OF failed(2) m'] recordScan_log [OF failed(2)] failed(1)
    show ?thesis by (auto simp: tr)
  next
    case stopped
    then have "calls is_scan rest = 0" by (rule reconcileEntries_no_scan)
    with m' show ?thesis using calls_0 [of is_scan rest "RecordReconciliationScan a b c t"] by simp
  next
    case scanned
    have "calls is_scan tr1 = 0" using scanned(3) by (rule reconcileEntries_no_scan)
    then have m2: "(EMetric (RecordReconciliationScan a b c t), x) \<in> set tr2"
      using m' scanned(2) calls_0 [of is_scan tr1 "RecordReconciliationScan a b c t"] by auto
    from recordScan_counts [OF scanned(4) m2] recordScan_log [OF scanned(4)]
      reconcileEntries_total [OF scanned(3) dlq]
    show ?thesis by (auto simp: tr scanned scan_total_def)
  qed
qed

text \<open>
  C27. The three counters a scan reports to the recorder are the numbers of entries it re-queued,
  skipped because their lock is held, and routed to the dead letter queue during that scan: each such
  entry is counted once and nothing else is, whatever errors other entries of the batch met. A scan
  that reports non-failure has read every entry of the batch, in order.
\<close>

theorem reconcileLBS_reports_what_it_did:
  assumes dlq: "DLQStream (recoveryConfig r) \<noteq> []"
    and p: "path (reconcileLBS r startup) tr u"
    and m: "(EMetric (RecordReconciliationScan a b c t), x) \<in> set tr"
  shows "a = calls is_requeue_ok tr \<and> b = calls is_alive_skip tr \<and> c = calls is_dlq_routing tr \<and>
    (\<forall>ids. (EXPendingExt (lbsName r) (lbsGroupName r) (MinIdleTime (recoveryConfig r))
       MinimalRangeID MaximalRangeID (BatchSize (recoveryConfig r)), RStrs ids) \<in> set (take 2 tr)
       \<longrightarrow> visited tr = ids)"
  using assms by (rule scan_reports)

lemma scan_reports_calls:
  assumes "DLQStream (recoveryConfig r) \<noteq> []" and "path (reconcileLBS r startup) tr u"
    and "(EMetric (RecordReconciliationScan a b c t), x) \<in> set tr"
  shows "a = calls is_requeue_ok tr \<and> b = calls is_alive_skip tr \<and> c = calls is_dlq_routing tr"
  using scan_reports [OF assms] by blast

lemmas recovery_eval = requeue_eval reconcileLBS_def Claim_def countOutcome_def

text \<open>A scan that re-queues one entry and leaves another alone.\<close>

definition scanLog :: log where
  "scanLog =
    [(ENow, RInt 1),
    (EXPendingExt ''svc-input'' ''svc-group'' 30000000000 MinimalRangeID MaximalRangeID 50,
       RStrs [''1-0'', ''2-0'']),
    (ECtxDone, RBool False),
    (EXRange ''svc-input'' ''1-0'' ''1-0'', RMsgs [\<lparr>XID = ''1-0'', XValues = sampleFields\<rparr>]),
    (EExists (''s1'' @ MutexKeySep @ ''1-0''), RInt 0),
    (EXAck ''svc-input'' ''svc-group'' ''1-0'', RInt 1),
    (EXAdd ''svc-input'' (sampleFields(RetryCountField \<mapsto> AStr (Itoa 1))) 0 False, RStr ''3-0''),
    (EXDel ''svc-input'' ''1-0'', RInt 1), (EMetric (RecordReQueue ''s1'' True), ROk),
    (ECtxDone, RBool False),
    (EXRange ''svc-input'' ''2-0'' ''2-0'', RMsgs [\<lparr>XID = ''2-0'', XValues = sampleFields\<rparr>]),
    (EExists (''s1'' @ MutexKeySep @ ''2-0''), RInt 1), (EMetric (RecordMutexAliveSkip ''s1''), ROk),
    (ENow, RInt 10), (EMetric (RecordReconciliationScan 1 1 0 9), ROk)]"

lemma scanLog_path: "path (reconcileLBS sampleClient False) scanLog ()"
  by (simp add: scanLog_def recovery_eval in_int64_def del: fun_upd_apply)

theorem reconcileLBS_reports_what_it_did_witness:
  "(EMetric (RecordReconciliationScan 1 1 0 9), ROk) \<in> set scanLog \<and> 1 = calls is_requeue_ok scanLog"
proof -
  have m: "(EMetric (RecordReconciliationScan 1 1 0 9), ROk) \<in> set scanLog" by (simp add: scanLog_def)
  then show ?thesis using reconcileLBS_reports_what_it_did [OF _ scanLog_path m] by simp
qed



end
