(* ===== verification/Lifecycle.thy ===== *)
theory Lifecycle
  imports Samples Tokens
begin

text \<open>
  The end of a stream and of a client: \<open>DoneStream\<close> and \<open>Done\<close> (\<open>impl/relredis.go\<close>),
  \<open>popStreamLocksInfo\<close>, \<open>isStreamProcessingDone\<close> and \<open>cleanup\<close> (\<open>impl/helpers.go\<close>) and
  \<open>closeAll\<close> (\<open>impl/oss.go\<close>).
\<close>

section \<open>Operations\<close>

text \<open>The subscriptions a client holds: \<open>pubSub\<close> (nil or open) and \<open>oss.pubSubs\<close>.\<close>

record Subs =
  pubSub :: "subscription option"
  ossPubSubs :: "subscription list"

definition popStreamLocksInfo :: "string \<Rightarrow> (goerror + StreamLocksInfo) prog" where
  "popStreamLocksInfo dsn =
     locksPop dsn (\<lambda>l. case l of
       None \<Rightarrow> Ret (Inl (Sentinel ErrDataStreamNotFound))
     | Some streamLocksInfo \<Rightarrow> Ret (Inr streamLocksInfo))"

definition isStreamProcessingDone :: "string \<Rightarrow> bool prog" where
  "isStreamProcessingDone dsn = locksGet dsn (\<lambda>l. Ret (l = None))"

text \<open>\<open>DoneStream\<close> once the stream is out of the map, and the whole of it.\<close>

definition finishStream :: "Client \<Rightarrow> string \<Rightarrow> StreamLocksInfo \<Rightarrow> goerror option prog" where
  "finishStream r dsn info =
     xAck (lbsName r) (lbsGroupName r) (IDInLBS (sliLBSInfo info)) (\<lambda>ackRes. case ackRes of
       Inl err \<Rightarrow> Ret (Some (NewRedisError OpAckStream err))
     | Inr _ \<Rightarrow>
         xDel (lbsName r) (IDInLBS (sliLBSInfo info)) (\<lambda>delErr. case delErr of
           Some err \<Rightarrow> Ret (Some (NewRedisError OpDelStream err))
         | None \<Rightarrow>
             mutexUnlock (sliMutex info) (\<lambda>unlockErr.
             (let finish = metric (RecordLockReleaseAttempt dsn True)
                    (now (\<lambda>t. metric (RecordStreamProcessingEnd dsn t) (Ret None)))
              in case unlockErr of
                None \<Rightarrow> finish
              | Some err \<Rightarrow>
                  if \<not> errors_Is_opt (Unwrap err) LockAlreadyExpired
                  then metric (RecordLockReleaseAttempt dsn False)
                    (Ret (Some (NewMutexError OpUnlockMutex (Some err))))
                  else finish))))"

definition DoneStream :: "Client \<Rightarrow> string \<Rightarrow> goerror option prog" where
  "DoneStream r dsn =
     bind (popStreamLocksInfo dsn) (\<lambda>pop. case pop of
       Inl err \<Rightarrow> Ret (Some err)
     | Inr streamLocksInfo \<Rightarrow> finishStream r dsn streamLocksInfo)"

text \<open>\<open>DoneStream\<close> for each name, stopping at the first error.\<close>

fun doneStreams :: "Client \<Rightarrow> string list \<Rightarrow> goerror option prog" where
  "doneStreams r [] = Ret None"
| "doneStreams r (streamName # names) =
     bind (DoneStream r streamName) (\<lambda>err. case err of
       Some e \<Rightarrow> Ret (Some e)
     | None \<Rightarrow> doneStreams r names)"

fun closeSubs :: "subscription list \<Rightarrow> 'a prog \<Rightarrow> 'a prog" where
  "closeSubs [] p = p"
| "closeSubs (ps # pss) p = pubSubClose ps (\<lambda>_. closeSubs pss p)"

definition closeAll :: "Subs \<Rightarrow> Subs prog" where
  "closeAll st = closeSubs (ossPubSubs st) (Ret (st\<lparr>ossPubSubs := []\<rparr>))"

definition cleanup :: "Subs \<Rightarrow> (goerror option \<times> Subs) prog" where
  "cleanup st =
     kspDrain (brokerClose (cancel
       (let rest = bind (closeAll st) (\<lambda>st1. Ret (None, st1)) in
        case pubSub st of
          Some ps \<Rightarrow> pubSubClose ps (\<lambda>closeErr. case closeErr of
              Some err \<Rightarrow> Ret (Some (NewRedisError OpClosePubSub err), st)
            | None \<Rightarrow> rest)
        | None \<Rightarrow> rest)))"

definition Done :: "Client \<Rightarrow> Subs \<Rightarrow> (goerror option \<times> Subs) prog" where
  "Done r st =
     locksNames (\<lambda>streamNames.
     bind (doneStreams r streamNames) (\<lambda>err. case err of
       Some e \<Rightarrow> Ret (Some e, st)
     | None \<Rightarrow> cleanup st))"

lemmas lifecycle_defs = popStreamLocksInfo_def isStreamProcessingDone_def DoneStream_def
  finishStream_def

section \<open>Behaviours\<close>

lemma DoneStream_nil_iff:
  "path (DoneStream r d) tr None \<longleftrightarrow>
   (\<exists>info n rd ru rm t rm'.
      tr = [(ELocksPop d, RLock (Some info)),
            (EXAck (lbsName r) (lbsGroupName r) (IDInLBS (sliLBSInfo info)), RInt n),
            (EXDel (lbsName r) (IDInLBS (sliLBSInfo info)), rd),
            (EMutexUnlock (sliMutex info), ru),
            (EMetric (RecordLockReleaseAttempt d True), rm),
            (ENow, t),
            (EMetric (RecordStreamProcessingEnd d (as_num t)), rm')]
      \<and> as_err rd = None
      \<and> (case as_err ru of None \<Rightarrow> True | Some e \<Rightarrow> errors_Is_opt (Unwrap e) LockAlreadyExpired))"
  (is "?P \<longleftrightarrow> ?Q")
proof
  assume ?P
  then show ?Q by (auto simp: lifecycle_defs eff_simps path_simps Let_def)
next
  assume ?Q
  then show ?P by (auto simp: lifecycle_defs eff_simps Let_def split: option.splits)
qed

lemma closeSubs_path:
  "path (closeSubs pss p) tr a \<longleftrightarrow>
     (\<exists>cs tr'. tr = cs @ tr' \<and> map fst cs = map EPubSubClose pss \<and> path p tr' a)"
proof (induction pss arbitrary: tr)
  case (Cons ps pss)
  show ?case
    by (auto simp: eff_simps path_Vis Cons.IH Cons_eq_append_conv map_eq_Cons_conv) blast+
qed simp

lemma doneStreams_eq: "doneStreams r names = seqErr (DoneStream r) names"
  by (induction names) simp_all

lemma doneStreams_nil:
  "path (doneStreams r names) tr None \<longleftrightarrow>
     (\<exists>trs. tr = concat trs \<and> list_all2 (\<lambda>n t. path (DoneStream r n) t None) names trs)"
  unfolding doneStreams_eq by (rule seqErr_None)

text \<open>
  \<open>DoneStream\<close> succeeds exactly by taking the stream out of the client's map, acknowledging its
  entry, deleting it and only then unlocking; the unlock may fail, but only because the lock had
  already expired. The number of entries the acknowledgement removed is not looked at.
\<close>

lemma DoneStream_succeeds_exactly:
  "path (DoneStream r d) tr None \<longleftrightarrow>
   (\<exists>info n rd ru rm t rm'.
      tr = [(ELocksPop d, RLock (Some info)),
            (EXAck (lbsName r) (lbsGroupName r) (IDInLBS (sliLBSInfo info)), RInt n),
            (EXDel (lbsName r) (IDInLBS (sliLBSInfo info)), rd),
            (EMutexUnlock (sliMutex info), ru),
            (EMetric (RecordLockReleaseAttempt d True), rm),
            (ENow, t),
            (EMetric (RecordStreamProcessingEnd d (as_num t)), rm')]
      \<and> as_err rd = None
      \<and> (case as_err ru of None \<Rightarrow> True | Some e \<Rightarrow> errors_Is_opt (Unwrap e) LockAlreadyExpired))"
  by (rule DoneStream_nil_iff)

lemma Done_nil:
  assumes "path (Done r st) tr (None, st')"
  shows "\<exists>names trs x1 x2 x3 cs. tr = (ELocksNames, names) # concat trs
      @ [(EKspDrain, x1), (EBrokerClose, x2), (ECancel, x3)] @ cs
    \<and> list_all2 (\<lambda>n t. path (DoneStream r n) t None) (as_names names) trs
    \<and> map fst cs = map EPubSubClose ((case pubSub st of None \<Rightarrow> [] | Some ps \<Rightarrow> [ps]) @ ossPubSubs st)
    \<and> st' = st\<lparr>ossPubSubs := []\<rparr>"
proof -
  obtain names t1 t2 where tr: "tr = (ELocksNames, names) # t1 @ t2"
    and t1: "path (doneStreams r (as_names names)) t1 None" and t2: "path (cleanup st) t2 (None, st')"
    using assms by (auto simp: Done_def eff_simps path_simps)
  from t1 obtain trs where trs: "t1 = concat trs"
      "list_all2 (\<lambda>n t. path (DoneStream r n) t None) (as_names names) trs"
    unfolding doneStreams_nil by blast
  have "\<exists>x1 x2 x3 cs. t2 = [(EKspDrain, x1), (EBrokerClose, x2), (ECancel, x3)] @ cs
      \<and> map fst cs = map EPubSubClose ((case pubSub st of None \<Rightarrow> [] | Some ps \<Rightarrow> [ps]) @ ossPubSubs st)
      \<and> st' = st\<lparr>ossPubSubs := []\<rparr>"
    using t2 by (cases "pubSub st")
      (auto simp: cleanup_def closeAll_def eff_simps Let_def path_Vis path_bind closeSubs_path
        path_case_option)
  with tr trs show ?thesis by fastforce
qed

text \<open>
  C29. A \<open>Done\<close> that returns nil has finished every stream the client held with a successful
  \<open>DoneStream\<close>, then emptied the keyspace channel, closed the broker, cancelled the context and
  closed every subscription; no per-master subscription stays tracked.
\<close>

theorem Done_releases_everything:
  assumes "path (Done r st) tr (None, st')"
  shows "\<exists>names trs x1 x2 x3 cs. tr = (ELocksNames, names) # concat trs
      @ [(EKspDrain, x1), (EBrokerClose, x2), (ECancel, x3)] @ cs
    \<and> list_all2 (\<lambda>n t. path (DoneStream r n) t None) (as_names names) trs
    \<and> map fst cs = map EPubSubClose ((case pubSub st of None \<Rightarrow> [] | Some ps \<Rightarrow> [ps]) @ ossPubSubs st)
    \<and> st' = st\<lparr>ossPubSubs := []\<rparr>"
  using assms by (rule Done_nil)

theorem Done_releases_everything_witness:
  "path (Done sampleClient \<lparr>pubSub = Some 1, ossPubSubs = [2, 3]\<rparr>)
     [(ELocksNames, RStrs []), (EKspDrain, ROk), (EBrokerClose, ROk), (ECancel, ROk),
      (EPubSubClose 1, ROk), (EPubSubClose 2, ROk), (EPubSubClose 3, RErr ContextCanceled)]
     (None, \<lparr>pubSub = Some 1, ossPubSubs = []\<rparr>)
   \<and> \<lparr>pubSub = Some 1, ossPubSubs = []\<rparr>
       = \<lparr>pubSub = Some 1, ossPubSubs = [2, 3]\<rparr>\<lparr>ossPubSubs := []\<rparr>"
proof -
  have p: "path (Done sampleClient \<lparr>pubSub = Some 1, ossPubSubs = [2, 3]\<rparr>)
     [(ELocksNames, RStrs []), (EKspDrain, ROk), (EBrokerClose, ROk), (ECancel, ROk),
      (EPubSubClose 1, ROk), (EPubSubClose 2, ROk), (EPubSubClose 3, RErr ContextCanceled)]
     (None, \<lparr>pubSub = Some 1, ossPubSubs = []\<rparr>)"
    by (simp add: Done_def cleanup_def closeAll_def eff_simps Let_def)
  from Done_releases_everything [OF p] p show ?thesis by blast
qed

end
