(* ===== verification/RedisRef.thy ===== *)
theory RedisRef
  imports Tokens "HOL-Library.AList"
begin

text \<open>
  A reference server: one Redis node with streams, consumer groups and lock keys, the redsync mutex
  operations on it, and the memory of one client. It documents the behaviour the client relies on and
  shows that the laws of \<open>pel_server\<close> and \<open>lock_server\<close> can be met together. Nothing in the
  model of the client depends on it: it is one instance of the handler.
\<close>

section \<open>State\<close>

record pel_entry =
  pelId :: string
  pelConsumer :: string
  pelTime :: int

record group =
  lastDelivered :: nat
  pel :: "pel_entry list"

record ref =
  entries :: "string \<Rightarrow> (nat \<times> fields) list"
  lastSeq :: "string \<Rightarrow> nat"
  groups :: "string \<times> string \<Rightarrow> group option"
  lockKeys :: "string \<Rightarrow> (string \<times> int) option"
  clock :: int
  streamLocks :: "(string \<times> StreamLocksInfo) list"

definition emptyRef :: ref where
  "emptyRef = \<lparr>entries = (\<lambda>_. []), lastSeq = (\<lambda>_. 0), groups = (\<lambda>_. None), lockKeys = (\<lambda>_. None),
     clock = 0, streamLocks = []\<rparr>"

definition seqId :: "nat \<Rightarrow> string" where
  "seqId n = nat_digits n @ ''-0''"

lemma nat_digits_inj: "nat_digits m = nat_digits n \<Longrightarrow> m = n"
  by (metis of_nat_eq_iff option.inject parse_nat_digits)

lemma seqId_inj [simp]: "seqId m = seqId n \<longleftrightarrow> m = n"
  unfolding seqId_def append_same_eq by (blast dest: nat_digits_inj)

definition keyAlive :: "string \<Rightarrow> ref \<Rightarrow> bool" where
  "keyAlive k s = (case lockKeys s k of None \<Rightarrow> False | Some (_, ex) \<Rightarrow> clock s < ex)"

section \<open>Commands\<close>

definition refAck :: "string \<Rightarrow> string \<Rightarrow> string \<Rightarrow> ref \<Rightarrow> reply \<times> ref" where
  "refAck st g i s =
     (case groups s (st, g) of
        None \<Rightarrow> (RInt 0, s)
      | Some gr \<Rightarrow>
          (RInt (if i \<in> set (map pelId (pel gr)) then 1 else 0),
           s\<lparr>groups := (groups s)((st, g) \<mapsto> gr\<lparr>pel := filter (\<lambda>p. pelId p \<noteq> i) (pel gr)\<rparr>)\<rparr>))"

definition refAdd :: "string \<Rightarrow> fields \<Rightarrow> ref \<Rightarrow> reply \<times> ref" where
  "refAdd st vs s =
     (let n = Suc (lastSeq s st) in
      (RStr (seqId n),
       s\<lparr>entries := (entries s)(st := entries s st @ [(n, vs)]),
         lastSeq := (lastSeq s)(st := n)\<rparr>))"

definition refDel :: "string \<Rightarrow> string \<Rightarrow> ref \<Rightarrow> reply \<times> ref" where
  "refDel st i s =
     (let keep = filter (\<lambda>(n, _). seqId n \<noteq> i) (entries s st) in
      (RInt (int (length (entries s st) - length keep)),
       s\<lparr>entries := (entries s)(st := keep)\<rparr>))"

definition refRange :: "string \<Rightarrow> string \<Rightarrow> ref \<Rightarrow> XMessage list" where
  "refRange st i s =
     map (\<lambda>(n, vs). \<lparr>XID = seqId n, XValues = vs\<rparr>) (filter (\<lambda>(n, _). seqId n = i) (entries s st))"

definition refPending :: "string \<Rightarrow> string \<Rightarrow> int \<Rightarrow> int \<Rightarrow> ref \<Rightarrow> reply" where
  "refPending st g idle count s =
     (case groups s (st, g) of
        None \<Rightarrow> RErr (ExtErr ''NOGROUP'' None)
      | Some gr \<Rightarrow> RStrs (take (nat count)
          (map pelId (filter (\<lambda>p. idle \<le> clock s - pelTime p) (pel gr)))))"

text \<open>\<open>XREADGROUP\<close> with \<open>>\<close>: the entries after the last delivered one, which become pending.\<close>

definition refReadGroup :: "string \<Rightarrow> string \<Rightarrow> string \<Rightarrow> ref \<Rightarrow> reply \<times> ref" where
  "refReadGroup g consumer st s =
     (case groups s (st, g) of
        None \<Rightarrow> (RErr (ExtErr ''NOGROUP'' None), s)
      | Some gr \<Rightarrow>
          (let fresh = filter (\<lambda>(n, _). lastDelivered gr < n) (entries s st) in
           if fresh = [] then (RErr (ExtErr ''redis: nil'' None), s)
           else
             (RStreams [\<lparr>XStreamName = st,
                XMessages = map (\<lambda>(n, vs). \<lparr>XID = seqId n, XValues = vs\<rparr>) fresh\<rparr>],
              s\<lparr>groups := (groups s)((st, g) \<mapsto>
                \<lparr>lastDelivered = Max (set (map fst fresh)),
                 pel = pel gr @ map (\<lambda>(n, _). \<lparr>pelId = seqId n, pelConsumer = consumer,
                   pelTime = clock s\<rparr>) fresh\<rparr>)\<rparr>)))"

definition refGroupCreate :: "string \<Rightarrow> string \<Rightarrow> ref \<Rightarrow> reply \<times> ref" where
  "refGroupCreate st g s =
     (if groups s (st, g) \<noteq> None
      then (RErr (ExtErr ''BUSYGROUP Consumer Group name already exists'' None), s)
      else (ROk, s\<lparr>groups := (groups s)((st, g) \<mapsto> \<lparr>lastDelivered = lastSeq s st, pel = []\<rparr>)\<rparr>))"

text \<open>
  The redsync mutex on one node: \<open>Lock\<close> sets the key if it is absent, \<open>Extend\<close> renews it if it
  carries the caller's value, or sets it again when absent and \<open>WithSetNXOnExtend\<close> was given,
  \<open>Unlock\<close> deletes it if it carries the caller's value.
\<close>

definition setKey :: "Mutex \<Rightarrow> ref \<Rightarrow> ref" where
  "setKey m s = s\<lparr>lockKeys := (lockKeys s)(mkey m \<mapsto> (mvalue m, clock s + mexpiry m))\<rparr>"

definition refLock :: "Mutex \<Rightarrow> ref \<Rightarrow> reply \<times> ref" where
  "refLock m s = (if mexpiry m \<le> 0 then (RErr (ExtErr ''ERR invalid expire time'' None), s)
     else if keyAlive (mkey m) s then (RErr (ExtErr ''lock already taken'' None), s)
     else (ROk, setKey m s))"

definition ownsKey :: "Mutex \<Rightarrow> ref \<Rightarrow> bool" where
  "ownsKey m s \<longleftrightarrow> keyAlive (mkey m) s \<and> map_option fst (lockKeys s (mkey m)) = Some (mvalue m)"

definition refExtend :: "Mutex \<Rightarrow> ref \<Rightarrow> reply \<times> ref" where
  "refExtend m s =
     (if mexpiry m \<le> 0 then (RErr (ExtErr ''ERR invalid expire time'' None), s)
      else if ownsKey m s \<or> \<not> keyAlive (mkey m) s \<and> msetNXOnExtend m then (RBool True, setKey m s)
      else (RErr (ExtErr ''failed to extend'' None), s))"

definition refUnlock :: "Mutex \<Rightarrow> ref \<Rightarrow> reply \<times> ref" where
  "refUnlock m s =
     (if ownsKey m s then (ROk, s\<lparr>lockKeys := (lockKeys s)(mkey m := None)\<rparr>)
      else if keyAlive (mkey m) s then (RErr (ExtErr ''lock already taken'' None), s)
      else (RErr (ExtErr ''unlock'' (Some LockAlreadyExpired)), s))"

definition tick :: "int \<Rightarrow> ref \<Rightarrow> ref" where
  "tick d s = s\<lparr>clock := clock s + max 0 d\<rparr>"

section \<open>The handler\<close>

fun refHandle :: "eff \<Rightarrow> ref \<Rightarrow> reply \<times> ref" where
  "refHandle (EXAck st g i) s = refAck st g i s"
| "refHandle (EXAdd st vs _ _) s = refAdd st vs s"
| "refHandle (EXDel st i) s = refDel st i s"
| "refHandle (EXRange st a b) s = (RMsgs (if a = b then refRange st a s else []), s)"
| "refHandle (EXPendingExt st g idle a b n) s = (refPending st g idle n s, s)"
| "refHandle (EXReadGroup g c st i) s = refReadGroup g c st s"
| "refHandle (EXGroupCreateMkStream st g i) s = refGroupCreate st g s"
| "refHandle (EExists k) s = (RInt (if keyAlive k s then 1 else 0), s)"
| "refHandle (EMutexLock m) s = refLock m s"
| "refHandle (EMutexExtend m) s = refExtend m s"
| "refHandle (EMutexUnlock m) s = refUnlock m s"
| "refHandle (ELocksGet n) s = (RLock (map_of (streamLocks s) n), s)"
| "refHandle (ELocksPut n l) s = (ROk, s\<lparr>streamLocks := AList.update n l (streamLocks s)\<rparr>)"
| "refHandle (ELocksPop n) s =
     (RLock (map_of (streamLocks s) n), s\<lparr>streamLocks := AList.delete n (streamLocks s)\<rparr>)"
| "refHandle ELocksNames s = (RStrs (map fst (streamLocks s)), s)"
| "refHandle ENow s = (RInt (clock s), s)"
| "refHandle (ERandInt63n n) s = (RInt 0, s)"
| "refHandle ECtxDone s = (RBool False, s)"
| "refHandle (EAfter d) s = (RBool False, s)"
| "refHandle _ s = (ROk, s)"

text \<open>The environment: time passes, and keys expire with it.\<close>

definition refEnv :: "ref \<Rightarrow> ref \<Rightarrow> bool" where
  "refEnv s s' \<longleftrightarrow> (\<exists>d \<ge> 0. s' = tick d s)"

section \<open>The laws hold\<close>

definition refPend :: "string \<Rightarrow> string \<Rightarrow> string \<Rightarrow> ref \<Rightarrow> bool" where
  "refPend st g i s = (case groups s (st, g) of None \<Rightarrow> False | Some gr \<Rightarrow> i \<in> set (map pelId (pel gr)))"

definition refDelivered :: "string \<Rightarrow> string \<Rightarrow> string \<Rightarrow> ref \<Rightarrow> bool" where
  "refDelivered st g i s =
     (case groups s (st, g) of None \<Rightarrow> False | Some gr \<Rightarrow> \<exists>n \<le> lastDelivered gr. i = seqId n)"

lemma refAck_once:
  "refAck st g i s = (RInt n, s') \<Longrightarrow> \<not> refPend st g i s' \<and> (n \<noteq> 0 \<longrightarrow> refPend st g i s)"
  by (auto simp: refAck_def refPend_def split: option.splits if_splits)

lemma groups_unchanged:
  assumes "groups s' = groups s"
  shows "refDelivered st g i s' = refDelivered st g i s" "refPend st g i s' = refPend st g i s"
  using assms by (simp_all add: refDelivered_def refPend_def)

lemma refReadGroup_delivered:
  assumes "refReadGroup g' c st' s = (x, s')" and "refDelivered st g i s"
  shows "refDelivered st g i s' \<and> (refPend st g i s' \<longrightarrow> refPend st g i s)"
proof -
  obtain gr n where gr: "groups s (st, g) = Some gr" and n: "n \<le> lastDelivered gr" "i = seqId n"
    using assms(2) by (auto simp: refDelivered_def split: option.splits)
  define fresh where "fresh = filter (\<lambda>(n, _). lastDelivered gr < n) (entries s st)"
  have later: "lastDelivered gr < m" if "m \<in> set (map fst fresh)" for m
    using that by (auto simp: fresh_def)
  show ?thesis
  proof (cases "st' = st \<and> g' = g \<and> fresh \<noteq> []")
    case True
    then have "Max (set (map fst fresh)) \<in> set (map fst fresh)" by (intro Max_in) auto
    then have mx: "lastDelivered gr < Max (set (map fst fresh))" by (rule later)
    from True assms(1) gr have s': "groups s' (st, g) = Some
        \<lparr>lastDelivered = Max (set (map fst fresh)), pel = pel gr @ map (\<lambda>(n, _). \<lparr>pelId = seqId n,
           pelConsumer = c, pelTime = clock s\<rparr>) fresh\<rparr>"
      by (auto simp: refReadGroup_def Let_def fresh_def)
    have "i \<notin> seqId ` set (map fst fresh)" using later n by fastforce
    then have "refPend st g i s' \<longrightarrow> refPend st g i s"
      unfolding refPend_def s' gr by (auto simp: image_iff split_beta)
    moreover have "refDelivered st g i s'"
      using mx n unfolding refDelivered_def s' by (auto intro!: exI [of _ n])
    ultimately show ?thesis by simp
  next
    case False
    then have "groups s' (st, g) = groups s (st, g)"
      using assms(1) gr
      by (auto simp: refReadGroup_def Let_def fresh_def split: option.splits if_splits)
    with assms(2) show ?thesis by (simp add: refDelivered_def refPend_def)
  qed
qed

lemma refAck_delivered:
  assumes "refAck st' g' i' s = (x, s')" and "refDelivered st g i s"
  shows "refDelivered st g i s' \<and> (refPend st g i s' \<longrightarrow> refPend st g i s)"
  using assms by (auto simp: refAck_def refDelivered_def refPend_def split: option.splits if_splits)

lemma refGroupCreate_delivered:
  assumes "refGroupCreate st' g' s = (x, s')" and "refDelivered st g i s"
  shows "refDelivered st g i s' \<and> (refPend st g i s' \<longrightarrow> refPend st g i s)"
  using assms by (auto simp: refGroupCreate_def refDelivered_def refPend_def split: option.splits if_splits)

fun touches_groups :: "eff \<Rightarrow> bool" where
  "touches_groups (EXAck _ _ _) = True"
| "touches_groups (EXReadGroup _ _ _ _) = True"
| "touches_groups (EXGroupCreateMkStream _ _ _) = True"
| "touches_groups _ = False"

lemma refHandle_groups:
  assumes "refHandle e s = (x, s')" and "\<not> touches_groups e"
  shows "groups s' = groups s"
  using assms by (cases e) (auto simp: refAdd_def refDel_def refLock_def refExtend_def refUnlock_def
      setKey_def Let_def split: if_splits)

lemma refHandle_delivered:
  assumes "refHandle e s = (x, s')" and "refDelivered st g i s"
  shows "refDelivered st g i s' \<and> (refPend st g i s' \<longrightarrow> refPend st g i s)"
proof (cases "touches_groups e")
  case True
  then consider st' g' i' where "e = EXAck st' g' i'"
    | g' c st' i' where "e = EXReadGroup g' c st' i'"
    | st' g' i' where "e = EXGroupCreateMkStream st' g' i'"
    by (cases e) simp_all
  then show ?thesis
  proof cases
    case 1
    with assms show ?thesis by (intro refAck_delivered) simp_all
  next
    case 2
    with assms show ?thesis by (intro refReadGroup_delivered) simp_all
  next
    case 3
    with assms show ?thesis by (intro refGroupCreate_delivered) simp_all
  qed
next
  case False
  with assms show ?thesis using groups_unchanged [OF refHandle_groups [OF assms(1)]] by simp
qed

interpretation ref_pel: pel_server refHandle refEnv "EXAck st g i" "refDelivered st g i" "refPend st g i"
  for st g i
proof
  fix s n s' assume "refHandle (EXAck st g i) s = (RInt n, s')" "n \<noteq> 0"
  then show "refPend st g i s \<and> \<not> refPend st g i s'" using refAck_once [of st g i s n s'] by simp
next
  fix e s x s' assume "refHandle e s = (x, s')" "refDelivered st g i s"
  then show "refDelivered st g i s' \<and> (refPend st g i s' \<longrightarrow> refPend st g i s)"
    by (rule refHandle_delivered)
next
  fix s s' assume "refEnv s s'" "refDelivered st g i s"
  then show "refDelivered st g i s' \<and> (refPend st g i s' \<longrightarrow> refPend st g i s)"
    by (auto simp: refEnv_def tick_def refDelivered_def refPend_def)
qed

section \<open>The laws of the lock hold\<close>

text \<open>
  The reference keeps sequence numbers below \<open>lastSeq\<close>, so an entry never changes: as long as it is
  in the stream it has the fields it was added with.
\<close>

definition refReady :: "string \<Rightarrow> string \<Rightarrow> string \<Rightarrow> fields \<Rightarrow> ref \<Rightarrow> bool" where
  "refReady st g i f s \<longleftrightarrow> refDelivered st g i s \<and> (\<exists>n \<le> lastSeq s st. i = seqId n) \<and>
     (\<forall>(n, vs) \<in> set (entries s st). seqId n = i \<longrightarrow> vs = f)"

definition rangeReplies :: "string \<Rightarrow> string \<Rightarrow> fields \<Rightarrow> eff \<Rightarrow> reply \<Rightarrow> bool" where
  "rangeReplies st i f e x \<longleftrightarrow>
     (e = EXRange st i i \<longrightarrow> (\<forall>m ms. x = RMsgs (m # ms) \<longrightarrow> XValues m = f))"

text \<open>Time passes while the heartbeat keeps \<open>key\<close> alive.\<close>

definition refBeat :: "string \<Rightarrow> ref \<Rightarrow> ref \<Rightarrow> bool" where
  "refBeat key s s' \<longleftrightarrow> refEnv s s' \<and> (keyAlive key s \<longrightarrow> keyAlive key s')"

lemma refHandle_entries:
  assumes "refHandle e s = (x, s')" and "\<exists>n \<le> lastSeq s st. i = seqId n"
    and "\<forall>(n, vs) \<in> set (entries s st). seqId n = i \<longrightarrow> vs = f"
  shows "(\<exists>n \<le> lastSeq s' st. i = seqId n) \<and>
    (\<forall>(n, vs) \<in> set (entries s' st). seqId n = i \<longrightarrow> vs = f)"
  using assms
  by (cases e) (auto simp: refAck_def refAdd_def refDel_def refReadGroup_def refGroupCreate_def
      refLock_def refExtend_def refUnlock_def setKey_def Let_def le_Suc_eq
      split: if_splits option.splits)

lemma refHandle_keyAlive:
  assumes "refHandle e s = (x, s')" and "keyAlive key s" and "\<not> unlocks key e"
  shows "keyAlive key s'"
  using assms
  by (cases e) (auto simp: refAck_def refAdd_def refDel_def refReadGroup_def refGroupCreate_def
      refLock_def refExtend_def refUnlock_def setKey_def Let_def keyAlive_def
      split: if_splits option.splits)

interpretation ref_lock: lock_server refHandle "refBeat key" "EXAck st g i" "refReady st g i f"
    "refPend st g i" key "keyAlive key" "rangeReplies st i f"
  for st g i f key
proof
  fix s n s' assume "refHandle (EXAck st g i) s = (RInt n, s')" "n \<noteq> 0"
  then show "refPend st g i s \<and> \<not> refPend st g i s'" by (rule ref_pel.ack_once)
next
  fix e s x s' assume a: "refHandle e s = (x, s')" "refReady st g i f s"
  then show "refReady st g i f s' \<and> (refPend st g i s' \<longrightarrow> refPend st g i s)"
    using refHandle_delivered [OF a(1)] refHandle_entries [OF a(1)] unfolding refReady_def by blast
next
  fix s s' assume "refBeat key s s'" "refReady st g i f s"
  then show "refReady st g i f s' \<and> (refPend st g i s' \<longrightarrow> refPend st g i s)"
    by (auto simp: refBeat_def refEnv_def tick_def refReady_def refDelivered_def refPend_def)
next
  fix s n s' assume "refHandle (EExists key) s = (RInt n, s')" "n \<le> 0"
  then show "\<not> keyAlive key s" by (auto split: if_splits)
next
  fix s n s' assume "refHandle (EXAck st g i) s = (RInt n, s')"
  then show "\<not> refPend st g i s'" using refAck_once [of st g i s n s'] by simp
next
  fix e s x s' assume "refHandle e s = (x, s')" "keyAlive key s" "\<not> unlocks key e"
  then show "keyAlive key s'" by (rule refHandle_keyAlive)
next
  fix s s' assume "refBeat key s s'" "keyAlive key s"
  then show "keyAlive key s'" by (simp add: refBeat_def)
next
  fix e s x s' assume "refHandle e s = (x, s')" "refReady st g i f s"
  then show "rangeReplies st i f e x"
    by (auto simp: rangeReplies_def refReady_def refRange_def filter_eq_Cons_iff map_eq_Cons_conv)
qed

end
