(* ===== verification/Races.thy ===== *)
theory Races
  imports Recovery Lifecycle RedisRef
begin

text \<open>
  Recovery under concurrency: any number of clients of one service that try to recover the same
  pending entry, by their reconciliation scans and by \<open>Claim\<close>, interleaved command by command with
  each other and with an environment; and the owner of a stream finishing it while others try to
  recover it. The server is any handler that meets the laws of \<open>pel_server\<close> (and
  \<open>lock_server\<close>); the witnesses run the reference server.
\<close>

section \<open>The programs that race\<close>

datatype recoverer = Scan Client | Claimer Client string

fun recover :: "string \<Rightarrow> recoverer \<Rightarrow> bool prog" where
  "recover i (Scan r) = bind (reQueue r i) (\<lambda>x. Ret (winner x))"
| "recover i (Claimer r d) =
     bind (Claim r \<lparr>DataStreamName = d, IDInLBS = i\<rparr>) (\<lambda>err. Ret (err = None))"

fun client_of :: "recoverer \<Rightarrow> Client" where
  "client_of (Scan r) = r"
| "client_of (Claimer r d) = r"

text \<open>Clients of one service share the stream and the group, which derive from its name.\<close>

definition same_service :: "string \<Rightarrow> Client list \<Rightarrow> bool" where
  "same_service svc rs \<longleftrightarrow> list_all (\<lambda>r. serviceName r = svc) rs"

definition serviceAck :: "string \<Rightarrow> string \<Rightarrow> eff" where
  "serviceAck svc i = EXAck (svc @ InputSuffix) (svc @ GroupSuffix) i"

lemma service_names:
  "serviceName r = svc \<Longrightarrow> lbsName r = svc @ InputSuffix \<and> lbsGroupName r = svc @ GroupSuffix"
  by (simp add: lbsName_def lbsGroupName_def)

lemma recover_ack_safe:
  assumes "serviceName (client_of x) = svc"
  shows "ack_safe (serviceAck svc i) (\<lambda>w. w) (recover i x) 0 0"
proof (cases x)
  case (Scan r)
  with assms reQueue_ack_safe [of r i] show ?thesis
    by (simp add: ack_safe_bind_Ret serviceAck_def service_names)
next
  case (Claimer r d)
  with assms Claim_ack_safe [of r "\<lparr>DataStreamName = d, IDInLBS = i\<rparr>"] show ?thesis
    by (simp add: ack_safe_bind_Ret serviceAck_def service_names)
qed

lemma same_service_pool:
  assumes "same_service svc (map client_of xs)"
  shows "\<forall>p \<in> set (map (recover i) xs). ack_safe (serviceAck svc i) (\<lambda>w. w) p 0 0"
  using assms recover_ack_safe by (auto simp: same_service_def list_all_iff)

section \<open>One recovery\<close>

text \<open>
  C1. However the scans and claims of any number of clients of a service interleave on one pending
  entry, and whatever each of them observes of the locks, at most one entry is added for it, to the
  stream or to the dead letter queue, by all of them together.
\<close>

theorem concurrent_recovery_adds_once:
  assumes "pel_server h env (serviceAck svc i) delivered pending" and "delivered s"
    and "same_service svc (map client_of xs)"
    and "preach h env (map (recover i) xs, s) tr c"
  shows "adds (map snd tr) \<le> 1"
  using pel_server.pool_adds_once [OF assms(1,4) same_service_pool [OF assms(3)] assms(2)] .

text \<open>
  C2. Of all those recoverers at most one is told it recovered the entry: one scan counts it as
  re-queued or routed, or one \<open>Claim\<close> returns nil.
\<close>

theorem concurrent_recovery_one_winner:
  assumes "pel_server h env (serviceAck svc i) delivered pending" and "delivered s"
    and "same_service svc (map client_of xs)"
    and "preach h env (map (recover i) xs, s) tr (ps, s')"
    and "j < length ps" "ps ! j = Ret True" and "k < length ps" "ps ! k = Ret True"
  shows "j = k"
  using pel_server.pool_one_winner [OF assms(1,4) same_service_pool [OF assms(3)] assms(2) assms(5,6) _
      assms(7,8)] by simp

section \<open>Finishing against recovering\<close>




section \<open>Runs on the reference server\<close>

text \<open>
  One entry \<open>1-0\<close>, delivered to a consumer at time 0 and pending since; \<open>sampleHeld\<close> has its lock
  held until time 100.
\<close>

definition sampleRef :: ref where
  "sampleRef = emptyRef
     \<lparr>entries := (\<lambda>_. [])(''svc-input'' := [(1, sampleFields)]),
      lastSeq := (\<lambda>_. 0)(''svc-input'' := 1),
      groups := [(''svc-input'', ''svc-group'') \<mapsto> \<lparr>lastDelivered = 1,
        pel = [\<lparr>pelId = ''1-0'', pelConsumer = ''redis-consumer-pod'', pelTime = 0\<rparr>]\<rparr>]\<rparr>"



definition sampleHeld :: ref where
  "sampleHeld = sampleRef\<lparr>lockKeys := [''s1'' @ MutexKeySep @ ''1-0'' \<mapsto> (''redis-consumer-pod'', 100)]\<rparr>"

lemma seqId_1 [simp]: "seqId (Suc 0) = ''1-0''" "seqId 2 = ''2-0''"
  by code_simp+

lemma sampleRef_ready:
  "refReady ''svc-input'' ''svc-group'' ''1-0'' sampleFields sampleRef"
  "refReady ''svc-input'' ''svc-group'' ''1-0'' sampleFields sampleHeld"
  by (auto simp: refReady_def refDelivered_def sampleRef_def sampleHeld_def emptyRef_def
      intro!: exI [of _ "1 :: nat"])

lemma sample_service: "serviceName sampleClient = ''svc''"
  by (simp add: sampleClient_def initialClient_def)

lemmas ref_eval = refAck_def refAdd_def refDel_def refRange_def refUnlock_def keyAlive_def ownsKey_def
  sampleRef_def sampleHeld_def emptyRef_def

lemma sample_ack: "serviceAck ''svc'' ''1-0'' = EXAck ''svc-input'' ''svc-group'' ''1-0''"
  by (simp add: serviceAck_def cfg_simps)

lemma sample_scan_run:
  "\<exists>tr s'. run refHandle (recover ''1-0'' (Scan sampleClient)) sampleRef = (True, tr, s')
     \<and> 0 < adds tr"
  by (simp add: requeue_eval ref_eval in_int64_def adds_def)

theorem concurrent_recovery_adds_once_witness:
  "\<exists>tr c. preach refHandle refEnv
       (map (recover ''1-0'') [Claimer sampleClient ''s1'', Scan sampleClient], sampleRef) tr c
     \<and> adds (map snd tr) = 1"
proof -
  let ?xs = "[Claimer sampleClient ''s1'', Scan sampleClient]"
  obtain tr s' where r: "run refHandle (recover ''1-0'' (Scan sampleClient)) sampleRef = (True, tr, s')"
    and a: "0 < adds tr" using sample_scan_run by blast
  have p: "preach refHandle refEnv (map (recover ''1-0'') ?xs, sampleRef) ([] @ map (Pair 1) tr)
      ((map (recover ''1-0'') ?xs)[1 := Ret True], s')"
    by (rule preach_run [OF start _ _ r]) (simp_all del: recover.simps)
  have "adds (map snd ([] @ map (Pair (1 :: nat)) tr)) \<le> 1"
  proof (rule concurrent_recovery_adds_once [OF _ _ _ p])
    show "pel_server refHandle refEnv (serviceAck ''svc'' ''1-0'')
        (refDelivered ''svc-input'' ''svc-group'' ''1-0'') (refPend ''svc-input'' ''svc-group'' ''1-0'')"
      unfolding sample_ack by (rule ref_pel.pel_server_axioms)
    show "refDelivered ''svc-input'' ''svc-group'' ''1-0'' sampleRef"
      using sampleRef_ready(1) by (simp add: refReady_def)
    show "same_service ''svc'' (map client_of ?xs)"
      by (simp add: same_service_def sample_service)
  qed
  with a have "adds (map snd ([] @ map (Pair (1 :: nat)) tr)) = 1" by (simp add: comp_def)
  with p show ?thesis by blast
qed

theorem concurrent_recovery_one_winner_witness:
  "\<exists>tr ps s'. preach refHandle refEnv
       (map (recover ''1-0'') [Claimer sampleClient ''s1'', Scan sampleClient], sampleRef) tr (ps, s')
     \<and> ps ! 1 = Ret True \<and> (\<forall>j < length ps. ps ! j = Ret True \<longrightarrow> j = 1)"
proof -
  let ?xs = "[Claimer sampleClient ''s1'', Scan sampleClient]"
  obtain tr s' where r: "run refHandle (recover ''1-0'' (Scan sampleClient)) sampleRef = (True, tr, s')"
    using sample_scan_run by blast
  let ?ps = "(map (recover ''1-0'') ?xs)[1 := Ret True]"
  have p: "preach refHandle refEnv (map (recover ''1-0'') ?xs, sampleRef) ([] @ map (Pair 1) tr)
      (?ps, s')"
    by (rule preach_run [OF start _ _ r]) (simp_all del: recover.simps)
  have srv: "pel_server refHandle refEnv (serviceAck ''svc'' ''1-0'')
      (refDelivered ''svc-input'' ''svc-group'' ''1-0'') (refPend ''svc-input'' ''svc-group'' ''1-0'')"
    unfolding sample_ack by (rule ref_pel.pel_server_axioms)
  have "j = 1" if "j < length ?ps" "?ps ! j = Ret True" for j
    by (rule concurrent_recovery_one_winner [OF srv _ _ p that])
      (use sampleRef_ready(1) in \<open>simp_all add: refReady_def same_service_def sample_service
         del: recover.simps\<close>)
  with p show ?thesis by (intro exI [of _ "[] @ map (Pair 1) tr"] exI [of _ ?ps] exI [of _ s'])
      (simp del: recover.simps)
qed



end
