(* ===== verification/Reader.thy ===== *)
theory Reader
  imports Lifecycle
begin

text \<open>
  The goroutines of a running client (\<open>impl/init.go\<close>): reading the load balancer stream and
  processing its messages, extending locks, relaying and listening to keyspace notifications. Each is
  a loop that ends on its own only in special cases, so each takes a bound on its iterations; a run
  that exhausts the bound is still running.
\<close>

section \<open>Processing messages\<close>

text \<open>The mutex \<open>processLBSMessages\<close> creates for a message, with its redsync options.\<close>

definition newMutex :: "Client \<Rightarrow> LBSInfo \<Rightarrow> Mutex" where
  "newMutex r lbsInfo =
     \<lparr>mkey = FormMutexKey lbsInfo, mexpiry = hbInterval r, mfailFast = True,
      mretryDelay = 10 * Millisecond, msetNXOnExtend = True, mvalue = consumerID r\<rparr>"

text \<open>What the message must be: the checks up to the mutex.\<close>

definition parseMessage :: "XMessage \<Rightarrow> goerror + (LBSInputMessage \<times> LBSInfo)" where
  "parseMessage message =
     (case XValues message LBSInput of
        None \<Rightarrow> Inl (Sentinel ErrInvalidKeyForLBSMessage)
      | Some v \<Rightarrow>
     (case assert_string v of
        None \<Rightarrow> Inl (Sentinel ErrInvalidLBSMessage)
      | Some val \<Rightarrow>
     (case Unmarshal val of
        Inl err \<Rightarrow> Inl (NewRedisError OpUnmarshalLBSMessage err)
      | Inr lbsMessage \<Rightarrow>
          if MsgDataStreamName lbsMessage = '''' then Inl (Sentinel ErrNoDatastreamInLBSMessage)
          else
            (case CreateByParts (MsgDataStreamName lbsMessage) (XID message) of
               Inl err \<Rightarrow> Inl err
             | Inr lbsInfo \<Rightarrow> Inr (lbsMessage, lbsInfo)))))"

definition processMessage :: "Client \<Rightarrow> XMessage \<Rightarrow> goerror option prog" where
  "processMessage r message =
     (case parseMessage message of
        Inl err \<Rightarrow> Ret (Some err)
      | Inr (lbsMessage, lbsInfo) \<Rightarrow>
          (let redsyncMutex = newMutex r lbsInfo in
           now (\<lambda>start.
           mutexLock redsyncMutex (\<lambda>lockErr. case lockErr of
             Some err \<Rightarrow>
               now (\<lambda>t. metric (RecordLockAcquisitionAttempt (MsgDataStreamName lbsMessage) False (t - start))
                 (Ret (Some (NewMutexError OpLockMutex (Some err)))))
           | None \<Rightarrow>
               now (\<lambda>t. metric (RecordLockAcquisitionAttempt (MsgDataStreamName lbsMessage) True (t - start))
               (locksPut (DataStreamName lbsInfo)
                 \<lparr>sliLBSInfo = lbsInfo, sliMutex = redsyncMutex, sliAdditionalInfo = MsgInfo lbsMessage\<rparr>
               (send (Make StreamAdded lbsInfo (MsgInfo lbsMessage))
               (now (\<lambda>t2. metric (RecordStreamProcessingStart (DataStreamName lbsInfo) t2)
               (goExtend redsyncMutex lbsInfo (MsgInfo lbsMessage) (Ret None)))))))))))"

fun processMessages :: "Client \<Rightarrow> XMessage list \<Rightarrow> goerror option prog" where
  "processMessages r [] = Ret None"
| "processMessages r (message # messages) =
     bind (processMessage r message) (\<lambda>err. case err of
       Some e \<Rightarrow> Ret (Some e)
     | None \<Rightarrow> processMessages r messages)"

fun processLBSMessages :: "Client \<Rightarrow> XStream list \<Rightarrow> goerror option prog" where
  "processLBSMessages r [] = Ret None"
| "processLBSMessages r (stream # streams) =
     bind (processMessages r (XMessages stream)) (\<lambda>err. case err of
       Some e \<Rightarrow> Ret (Some e)
     | None \<Rightarrow> processLBSMessages r streams)"

section \<open>The read loop\<close>

text \<open>One step of the exponential backoff.\<close>

definition nextRetryDelay :: "Client \<Rightarrow> int \<Rightarrow> int" where
  "nextRetryDelay r currentRetryDelay =
     (let d = wrap64 (currentRetryDelay * 2) in if d > maxRetryDelay r then maxRetryDelay r else d)"

text \<open>The result is true when the loop has returned.\<close>

fun readLoop :: "nat \<Rightarrow> Client \<Rightarrow> int \<Rightarrow> int \<Rightarrow> bool prog" where
  "readLoop 0 r consecutiveErrors currentRetryDelay = Ret False"
| "readLoop (Suc fuel) r consecutiveErrors currentRetryDelay =
     ctxDone (\<lambda>done.
     if done then send (MakeStreamTerminatedNotif ''context done'') (Ret True)
     else xReadGroup (lbsGroupName r) (consumerID r) (lbsName r) PendingMsgID (\<lambda>res.
     case res of
       Inl err \<Rightarrow>
         if errors_Is err ContextCanceled
         then send (MakeStreamTerminatedNotif (Error ContextCanceled)) (Ret True)
         else (let n = wrap64 (consecutiveErrors + 1) in
           if maxRetries r \<ge> 0 \<and> n > maxRetries r
           then send (MakeStreamTerminatedNotif (Error err)) (Ret True)
           else afterOrDone currentRetryDelay (\<lambda>ctxWon.
             if ctxWon then send (MakeStreamTerminatedNotif (Error ContextCanceled)) (Ret True)
             else readLoop fuel r n (nextRetryDelay r currentRetryDelay)))
     | Inr streams \<Rightarrow>
         bind (processLBSMessages r streams) (\<lambda>err. case err of
           Some e \<Rightarrow> send (MakeStreamTerminatedNotif (Error e)) (Ret True)
         | None \<Rightarrow>
             if consecutiveErrors > 0 then readLoop fuel r 0 (initialRetryDelay r)
             else readLoop fuel r consecutiveErrors currentRetryDelay)))"

definition readLBSStream :: "nat \<Rightarrow> Client \<Rightarrow> bool prog" where
  "readLBSStream fuel r = readLoop fuel r 0 (initialRetryDelay r)"

section \<open>Extending a lock\<close>

text \<open>The loop's result: whether an extension failed, and the error returned.\<close>

fun extendLoop :: "nat \<Rightarrow> Client \<Rightarrow> Mutex \<Rightarrow> LBSInfo \<Rightarrow> (bool \<times> goerror option) option prog" where
  "extendLoop 0 r redsyncMutex lbsInfo = Ret None"
| "extendLoop (Suc fuel) r redsyncMutex lbsInfo =
     ctxDone (\<lambda>done.
     if done then Ret (Some (False, None))
     else bind (isStreamProcessingDone (DataStreamName lbsInfo)) (\<lambda>finished.
     if finished then Ret (Some (False, None))
     else mutexExtend redsyncMutex (\<lambda>(ok, err).
     if \<not> ok \<or> err \<noteq> None
     then metric (RecordLockExtensionAttempt (DataStreamName lbsInfo) False)
       (Ret (Some (True, Some (NewMutexError OpExtendMutex err))))
     else metric (RecordLockExtensionAttempt (DataStreamName lbsInfo) True)
       (sleep (hbInterval r div 2) (extendLoop fuel r redsyncMutex lbsInfo)))))"

text \<open>The deferred function, then the whole goroutine.\<close>

definition extendCleanup :: "LBSInfo \<Rightarrow> gomap \<Rightarrow> bool \<Rightarrow> 'a prog \<Rightarrow> 'a prog" where
  "extendCleanup lbsInfo additionalInfo extensionFailed p =
     (let tidy = bind (isStreamProcessingDone (DataStreamName lbsInfo)) (\<lambda>finished.
            if finished then p else bind (popStreamLocksInfo (DataStreamName lbsInfo)) (\<lambda>_. p))
      in if extensionFailed then send (Make StreamDisowned lbsInfo additionalInfo) tidy else tidy)"

definition startExtendingKey :: "nat \<Rightarrow> Client \<Rightarrow> Mutex \<Rightarrow> LBSInfo \<Rightarrow> gomap \<Rightarrow> goerror option option prog"
where
  "startExtendingKey fuel r redsyncMutex lbsInfo additionalInfo =
     bind (extendLoop fuel r redsyncMutex lbsInfo) (\<lambda>res. case res of
       None \<Rightarrow> Ret None
     | Some (extensionFailed, err) \<Rightarrow>
         extendCleanup lbsInfo additionalInfo extensionFailed (Ret (Some err)))"

section \<open>Keyspace notifications\<close>

fun fanInPubSub :: "nat \<Rightarrow> subscription \<Rightarrow> bool prog" where
  "fanInPubSub 0 ps = Ret False"
| "fanInPubSub (Suc fuel) ps =
     pubSubRecv ps (\<lambda>m. case m of
       Some (Some msg) \<Rightarrow>
         kspTrySend msg (\<lambda>sent.
           if sent then fanInPubSub fuel ps
           else metric RecordKspNotificationDropped (fanInPubSub fuel ps))
     | _ \<Rightarrow> Ret True)"

text \<open>One notification: \<open>continue\<close> and the end of the loop body are both the program \<open>p\<close>.\<close>

definition handleKsp :: "KspMessage \<Rightarrow> 'a prog \<Rightarrow> 'a prog" where
  "handleKsp kspNotif p =
     (case extractStreamnameFromKspChannel (KChannel kspNotif) of
        Inl _ \<Rightarrow> p
      | Inr streamName \<Rightarrow>
          metric (RecordKspNotification streamName)
          (case CreateByKspNotification streamName (KPayload kspNotif) of
             Inl _ \<Rightarrow> p
           | Inr lbsInfo \<Rightarrow>
               locksGet (DataStreamName lbsInfo) (\<lambda>l.
               send (Make StreamExpired lbsInfo
                 (case l of None \<Rightarrow> None | Some info \<Rightarrow> sliAdditionalInfo info)) p)))"

fun listenKsp :: "nat \<Rightarrow> bool prog" where
  "listenKsp 0 = Ret False"
| "listenKsp (Suc fuel) =
     kspRecv (\<lambda>x. case x of
       None \<Rightarrow> Ret True
     | Some None \<Rightarrow> listenKsp fuel
     | Some (Some kspNotif) \<Rightarrow> handleKsp kspNotif (listenKsp fuel))"

end
