(* ===== verification/ReaderProps.thy ===== *)
theory ReaderProps
  imports Reader
begin

text \<open>
  What the goroutines of \<open>Reader\<close> guarantee: ownership before notification, the order of
  notifications, the backoff schedule and the end of the read loop, and the keyspace listener.
\<close>

section \<open>Processing messages\<close>





definition sent :: "log \<Rightarrow> RecoverableRedisNotification list" where
  "sent tr = concat (map (\<lambda>(e, _). case e of ESend n \<Rightarrow> [n] | _ \<Rightarrow> []) tr)"

lemma sent_simps [simp]:
  "sent [] = []"
  "sent ((e, x) # tr) = (case e of ESend n \<Rightarrow> [n] | _ \<Rightarrow> []) @ sent tr"
  "sent (tr @ tr') = sent tr @ sent tr'"
  by (simp_all add: sent_def)

lemma sent_set: "n \<in> set (sent tr) \<longleftrightarrow> (\<exists>x. (ESend n, x) \<in> set tr)"
  by (force simp: sent_def split: eff.splits)








text \<open>The mutexes a log has locked.\<close>

definition locked :: "log \<Rightarrow> Mutex list" where
  "locked tr = concat (map (\<lambda>(e, x). case e of EMutexLock m \<Rightarrow> if as_err x = None then [m] else []
     | _ \<Rightarrow> []) tr)"


lemma locked_simps [simp]:
  "locked [] = []"
  "locked ((e, x) # tr) = (case e of EMutexLock m \<Rightarrow> if as_err x = None then [m] else [] | _ \<Rightarrow> [])
     @ locked tr"
  "locked (tr @ tr') = locked tr @ locked tr'"
  by (simp_all add: locked_def)










section \<open>The read loop\<close>





text \<open>The waits and the reads of a log; a log in which every read fails; one nobody interrupts.\<close>

definition waits :: "log \<Rightarrow> int list" where
  "waits tr = concat (map (\<lambda>(e, _). case e of EAfter d \<Rightarrow> [d] | _ \<Rightarrow> []) tr)"

definition reads :: "log \<Rightarrow> nat" where
  "reads tr = length (filter (\<lambda>(e, _). case e of EXReadGroup _ _ _ _ \<Rightarrow> True | _ \<Rightarrow> False) tr)"

definition reads_fail :: "log \<Rightarrow> bool" where
  "reads_fail tr = list_all (\<lambda>(e, x). case e of EXReadGroup _ _ _ _ \<Rightarrow>
     (case x of RErr err \<Rightarrow> \<not> errors_Is err ContextCanceled | _ \<Rightarrow> False) | _ \<Rightarrow> True) tr"

definition uninterrupted :: "log \<Rightarrow> bool" where
  "uninterrupted tr = list_all (\<lambda>(e, x). case e of ECtxDone \<Rightarrow> \<not> as_bool x | EAfter _ \<Rightarrow> \<not> as_bool x
     | _ \<Rightarrow> True) tr"

lemma wait_simps [simp]:
  "waits [] = []" "waits ((e, x) # tr) = (case e of EAfter d \<Rightarrow> [d] | _ \<Rightarrow> []) @ waits tr"
  by (simp_all add: waits_def)

lemma read_simps [simp]:
  "reads [] = 0"
  "reads ((e, x) # tr) = (case e of EXReadGroup _ _ _ _ \<Rightarrow> 1 | _ \<Rightarrow> 0) + reads tr"
  "reads_fail []"
  "reads_fail ((e, x) # tr) \<longleftrightarrow> (case e of EXReadGroup _ _ _ _ \<Rightarrow>
     (case x of RErr err \<Rightarrow> \<not> errors_Is err ContextCanceled | _ \<Rightarrow> False) | _ \<Rightarrow> True) \<and> reads_fail tr"
  "uninterrupted []"
  "uninterrupted ((e, x) # tr) \<longleftrightarrow> (case e of ECtxDone \<Rightarrow> \<not> as_bool x | EAfter _ \<Rightarrow> \<not> as_bool x
     | _ \<Rightarrow> True) \<and> uninterrupted tr"
  by (simp_all add: reads_def reads_fail_def uninterrupted_def split: eff.splits)

lemma failing_read: "(case x of RErr err \<Rightarrow> P err | _ \<Rightarrow> False) \<longleftrightarrow> (\<exists>err. x = RErr err \<and> P err)"
  by (cases x) simp_all

text \<open>A step of the loop when the read fails.\<close>

lemma readLoop_failing:
  assumes "path (readLoop (Suc fuel) r n d) tr ended" and "reads_fail tr"
  obtains (stopped) x w where "ended" "as_bool x" "waits tr = []" "reads tr = 0" "tr = (ECtxDone, x) # w"
  | (exceeded) "ended" "0 \<le> maxRetries r" "maxRetries r < wrap64 (n + 1)" "waits tr = []"
      "reads tr = 1"
  | (cancelled) z where "ended" "as_bool z" "(EAfter d, z) \<in> set tr" "waits tr = [d]" "reads tr = 1"
  | (retry) x e z tr' where "\<not> (0 \<le> maxRetries r \<and> maxRetries r < wrap64 (n + 1))"
      "tr = (ECtxDone, x) # (EXReadGroup (lbsGroupName r) (consumerID r) (lbsName r) PendingMsgID, RErr e)
         # (EAfter d, z) # tr'"
      "path (readLoop fuel r (wrap64 (n + 1)) (nextRetryDelay r d)) tr' ended"
  using assms by (auto simp: eff_simps path_simps Let_def failing_read)

definition backoff :: "Client \<Rightarrow> nat \<Rightarrow> int" where
  "backoff r j = min (initialRetryDelay r * 2 ^ j) (maxRetryDelay r)"

lemma nextRetryDelay_backoff:
  assumes "retry_ok r" and "maxRetryDelay r < 2 ^ 62"
  shows "nextRetryDelay r (backoff r j) = backoff r (Suc j)"
proof -
  have b: "0 < backoff r j" "backoff r j \<le> maxRetryDelay r"
    using assms(1) by (auto simp: backoff_def retry_ok_def)
  then have "wrap64 (backoff r j * 2) = backoff r j * 2"
    using assms(2) by (intro wrap64_id) (simp add: in_int64_def)
  moreover have dbl: "(if min p m * 2 > m then m else min p m * 2) = min (p * 2) m"
    if "0 < p" "0 < m" for p m :: int
    using that by (simp add: min_def)
  have "(if min (initialRetryDelay r * 2 ^ j) (maxRetryDelay r) * 2 > maxRetryDelay r
      then maxRetryDelay r else min (initialRetryDelay r * 2 ^ j) (maxRetryDelay r) * 2)
      = min (initialRetryDelay r * 2 ^ j * 2) (maxRetryDelay r)"
    using assms(1) by (intro dbl) (auto simp: retry_ok_def)
  ultimately show ?thesis
    unfolding nextRetryDelay_def Let_def backoff_def power_Suc2 mult.assoc [symmetric] by presburger
qed

lemma readLoop_waits:
  assumes "retry_ok r" and "maxRetryDelay r < 2 ^ 62"
    and "path (readLoop fuel r n (backoff r j)) tr ended" and "reads_fail tr"
  shows "waits tr = map (\<lambda>k. backoff r (j + k)) [0..<length (waits tr)]"
  using assms(3,4)
proof (induction fuel arbitrary: n j tr)
  case 0
  then show ?case by simp
next
  case (Suc fuel)
  from Suc.prems show ?case
  proof (cases rule: readLoop_failing)
    case (retry x e z tr')
    have "waits tr' = map (\<lambda>k. backoff r (Suc j + k)) [0..<length (waits tr')]"
      using retry Suc.prems(2) nextRetryDelay_backoff [OF assms(1,2)] by (intro Suc.IH) simp_all
    moreover have "waits tr = backoff r j # waits tr'" by (simp add: retry)
    ultimately show ?thesis by (simp add: map_upt_Suc del: upt_Suc)
  qed simp_all
qed

text \<open>
  C22. The backoff schedule. While the reads keep failing, the \<open>j\<close>-th wait (from 0) is
  \<open>InitialRetryDelay * 2^j\<close> capped at \<open>MaxRetryDelay\<close>, for any valid retry configuration whose
  cap is below \<open>2^62\<close> ns.
\<close>

theorem backoff_schedule:
  assumes "retry_ok r" and "maxRetryDelay r < 2 ^ 62"
    and "path (readLBSStream fuel r) tr ended" and "reads_fail tr"
  shows "waits tr = map (\<lambda>j. min (initialRetryDelay r * 2 ^ j) (maxRetryDelay r)) [0..<length (waits tr)]"
proof -
  have i: "backoff r 0 = initialRetryDelay r" using assms(1) by (simp add: backoff_def retry_ok_def)
  from readLoop_waits [of r fuel 0 0 tr ended] assms show ?thesis
    unfolding readLBSStream_def i by (simp add: backoff_def)
qed

lemma readLoop_gives_up:
  assumes "maxRetries r < maxInt64"
    and "path (readLoop fuel r n d) tr ended" and "reads_fail tr" and "uninterrupted tr"
    and "0 \<le> n" "n \<le> maxRetries r" "nat (maxRetries r - n) < fuel"
  shows "ended \<and> reads tr = nat (maxRetries r - n) + 1"
  using assms(2-)
proof (induction fuel arbitrary: n d tr)
  case 0
  then show ?case by simp
next
  case (Suc fuel)
  have w: "wrap64 (n + 1) = n + 1"
    using assms(1) Suc.prems by (intro wrap64_id) (simp add: in_int64_def maxInt64_def)
  from Suc.prems(1,2) show ?case
  proof (cases rule: readLoop_failing)
    case (stopped x w)
    with Suc.prems(3) show ?thesis by simp
  next
    case exceeded
    with w Suc.prems show ?thesis by simp
  next
    case (cancelled z)
    with Suc.prems(3) show ?thesis by (auto simp: uninterrupted_def list_all_iff)
  next
    case (retry x e z tr')
    from retry(1) w Suc.prems(4,5) have n: "n + 1 \<le> maxRetries r" by simp
    have "ended \<and> reads tr' = nat (maxRetries r - (n + 1)) + 1"
      using retry Suc.prems n by (intro Suc.IH [of _ "nextRetryDelay r d"]) (simp_all add: w)
    with n show ?thesis by (simp add: retry nat_diff_distrib)
  qed
qed

text \<open>
  C21. The reader gives up. With a limit of \<open>MaxRetries\<close> on consecutive errors, a reader whose every
  read fails, and that nobody cancels, returns after exactly \<open>MaxRetries + 1\<close> reads: any bound on
  the iterations above \<open>MaxRetries\<close> is enough for the loop to have ended.
\<close>

theorem reader_gives_up_after_MaxRetries:
  assumes "0 \<le> maxRetries r" and "maxRetries r < maxInt64" and "nat (maxRetries r) < fuel"
    and "path (readLBSStream fuel r) tr ended" and "reads_fail tr" and "uninterrupted tr"
  shows "ended \<and> reads tr = nat (maxRetries r) + 1"
  using readLoop_gives_up [of r fuel 0 "initialRetryDelay r" tr ended] assms
  by (simp add: readLBSStream_def)

text \<open>A reader with one retry whose two reads fail.\<close>

definition oneRetryClient :: Client where
  "oneRetryClient = sampleClient\<lparr>maxRetries := 1\<rparr>"

definition failingLog :: log where
  "failingLog =
     [(ECtxDone, RBool False),
      (EXReadGroup ''svc-group'' ''redis-consumer-pod'' ''svc-input'' PendingMsgID, RErr (ErrNew ''EOF'')),
      (EAfter 100000000, RBool False),
      (ECtxDone, RBool False),
      (EXReadGroup ''svc-group'' ''redis-consumer-pod'' ''svc-input'' PendingMsgID, RErr (ErrNew ''EOF'')),
      (ESend (MakeStreamTerminatedNotif ''EOF''), ROk)]"

lemma oneRetryClient_simps [simp]:
  "lbsName oneRetryClient = ''svc-input''" "lbsGroupName oneRetryClient = ''svc-group''"
  "consumerID oneRetryClient = ''redis-consumer-pod''" "maxRetries oneRetryClient = 1"
  "initialRetryDelay oneRetryClient = 100000000" "maxRetryDelay oneRetryClient = 30000000000"
  by (simp_all add: oneRetryClient_def lbsName_def lbsGroupName_def sampleClient_def initialClient_def
      cfg_simps)

lemma eof_not_canceled [simp]: "\<not> errors_Is (ErrNew m) ContextCanceled"
  by (simp add: errors_Is.simps)

lemma failingLog_run: "path (readLBSStream 2 oneRetryClient) failingLog True"
  by (simp add: readLBSStream_def failingLog_def eff_simps Let_def numeral_2_eq_2 in_int64_def)

lemma failingLog_fails: "reads_fail failingLog" "uninterrupted failingLog"
  by (simp_all add: failingLog_def)

theorem backoff_schedule_witness:
  "waits failingLog = map (\<lambda>j. min (100000000 * 2 ^ j) 30000000000) [0..<length (waits failingLog)]"
  using backoff_schedule [OF _ _ failingLog_run failingLog_fails(1)] by (simp add: retry_ok_def)

theorem reader_gives_up_after_MaxRetries_witness: "True \<and> reads failingLog = nat 1 + 1"
  using reader_gives_up_after_MaxRetries [OF _ _ _ failingLog_run failingLog_fails]
  by (simp add: maxInt64_def)

text \<open>
  Doubling overflows. With a cap of \<open>2^62\<close> ns or more, which the configuration allows, the delay
  after one in \<open>[2^62, 2^63)\<close> is negative: \<open>time.After\<close> fires at once and the reader spins.
\<close>

lemma backoff_overflows:
  assumes "2 ^ 62 \<le> d" and "d \<le> maxRetryDelay r" and "maxRetryDelay r \<le> maxInt64"
  shows "nextRetryDelay r d < 0"
proof -
  have "wrap64 (d * 2) < 0" using assms by (intro wrap64_double_overflow) (simp_all add: maxInt64_def)
  then show ?thesis using assms by (simp add: nextRetryDelay_def Let_def)
qed

lemma backoff_overflows_example:
  "RetryConfig_Validate \<lparr>rcMaxRetries = -1, rcInitialRetryDelay = 2 ^ 62, rcMaxRetryDelay = maxInt64\<rparr> = None
   \<and> nextRetryDelay (sampleClient\<lparr>initialRetryDelay := 2 ^ 62, maxRetryDelay := maxInt64\<rparr>) (2 ^ 62) < 0"
proof -
  have "nextRetryDelay (sampleClient\<lparr>initialRetryDelay := 2 ^ 62, maxRetryDelay := maxInt64\<rparr>) (2 ^ 62) < 0"
    by (rule backoff_overflows) (simp_all add: maxInt64_def)
  then show ?thesis by (simp add: RetryConfig_Validate_def maxInt64_def)
qed

end
