(* ===== verification/Ownership.thy ===== *)
theory Ownership
  imports ReaderProps RedisRef
begin

text \<open>
  The lock extender and the keyspace listener: when a client is told it lost a stream, when it is
  told that another client's stream expired, and two situations on the reference server in which the
  extender's bookkeeping goes wrong.
\<close>

section \<open>The extender\<close>

definition extend_failed :: "Mutex \<Rightarrow> log \<Rightarrow> bool" where
  "extend_failed m tr = list_ex (\<lambda>(e, x). e = EMutexExtend m \<and> as_flag_err x \<noteq> (True, None)) tr"

lemma extend_failed_simps [simp]:
  "\<not> extend_failed m []"
  "extend_failed m ((e, x) # tr) \<longleftrightarrow> e = EMutexExtend m \<and> as_flag_err x \<noteq> (True, None) \<or> extend_failed m tr"
  "extend_failed m (a @ b) \<longleftrightarrow> extend_failed m a \<or> extend_failed m b"
  by (simp_all add: extend_failed_def)






section \<open>The keyspace listener\<close>

lemma CreateByKspNotification_inv:
  assumes "CreateByKspNotification k pl = Inr info"
  shows "k = FormMutexKey info \<and> pl = ExpiredPayload"
proof -
  let ?ps = "go_split MutexKeySep k"
  have pl: "pl = ExpiredPayload" and len: "length ?ps \<noteq> 1" "\<not> 2 < length ?ps"
    and info: "info = \<lparr>DataStreamName = ?ps ! 0, IDInLBS = ?ps ! 1\<rparr>"
    using assms by (auto simp: CreateByKspNotification_def Let_def split: if_splits)
  have "length ?ps = 2" using len go_split_nonempty [of MutexKeySep k]
    by (metis One_nat_def length_0_conv less_2_cases nat_neq_iff)
  then have "?ps = [?ps ! 0, ?ps ! 1]" by (auto simp: length_Suc_conv numeral_2_eq_2)
  moreover have "go_join MutexKeySep ?ps = k" by (rule go_split_concat) (simp add: MutexKeySep_def)
  ultimately show ?thesis using pl info by (metis FormMutexKey_def LBSInfo.select_convs(1,2))
qed

lemma extract_inv:
  "extractStreamnameFromKspChannel c = Inr n \<longleftrightarrow> c = KeySpacePrefix @ n"
  by (auto simp: extractStreamnameFromKspChannel_def CutPrefix_def prefix_def split: option.splits if_splits)

lemma handleKsp_log:
  assumes "path (handleKsp k p) tr a"
  shows "\<exists>t1 t2. tr = t1 @ t2 \<and> path p t2 a \<and> (\<forall>n \<in> set (sent t1). NType n = StreamExpired \<and>
    KChannel k = KeySpacePrefix @ FormMutexKey (Payload n) \<and> KPayload k = ExpiredPayload)"
proof -
  consider "path p tr a" | s x t where "tr = (EMetric (RecordKspNotification s), x) # t" "path p t a"
    | s info x y z t l where "extractStreamnameFromKspChannel (KChannel k) = Inr s"
        "CreateByKspNotification s (KPayload k) = Inr info"
        "tr = [(EMetric (RecordKspNotification s), x), (ELocksGet (DataStreamName info), y),
          (ESend (Make StreamExpired info l), z)] @ t" "path p t a"
    using assms by (auto simp: handleKsp_def eff_simps path_simps)
  then show ?thesis
  proof cases
    case 1
    then show ?thesis by (intro exI [of _ "[]"] exI [of _ tr]) simp
  next
    case (2 s x t)
    then show ?thesis
      by (intro exI [of _ "[(EMetric (RecordKspNotification s), x)]"] exI [of _ t]) simp
  next
    case (3 s info x y z t l)
    then show ?thesis
      using CreateByKspNotification_inv [OF 3(2)]
      by (intro exI [of _ "[(EMetric (RecordKspNotification s), x), (ELocksGet (DataStreamName info), y),
          (ESend (Make StreamExpired info l), z)]"] exI [of _ t]) (simp add: extract_inv Make_def)
  qed
qed

lemma listenKsp_sends:
  assumes "path (listenKsp fuel) tr res" and "n \<in> set (sent tr)"
  shows "NType n = StreamExpired \<and> (\<exists>k. (EKspRecv, RKsp (Some k)) \<in> set tr \<and>
    KChannel k = KeySpacePrefix @ FormMutexKey (Payload n) \<and> KPayload k = ExpiredPayload)"
  using assms
proof (induction fuel arbitrary: tr)
  case (Suc fuel)
  from Suc.prems(1) consider "sent tr = []"
    | x t where "tr = (EKspRecv, x) # t" "path (listenKsp fuel) t res"
    | x k t where "tr = (EKspRecv, x) # t" "as_ksp x = Some (Some k)"
        "path (handleKsp k (listenKsp fuel)) t res"
    by (auto simp: eff_simps path_simps)
  then show ?case
  proof cases
    case 1
    with Suc.prems show ?thesis by simp
  next
    case (2 x t)
    from Suc.IH [OF 2(2)] Suc.prems(2) show ?thesis by (auto simp: 2(1))
  next
    case (3 x k t)
    from 3(2) have x: "x = RKsp (Some k)" by (cases x) auto
    from handleKsp_log [OF 3(3)] obtain t1 t2 where t: "t = t1 @ t2" and rest: "path (listenKsp fuel) t2 res"
      and here: "\<forall>n \<in> set (sent t1). NType n = StreamExpired \<and>
        KChannel k = KeySpacePrefix @ FormMutexKey (Payload n) \<and> KPayload k = ExpiredPayload" by blast
    from Suc.prems(2) consider "n \<in> set (sent t1)" | "n \<in> set (sent t2)" by (auto simp: 3(1) t)
    then show ?thesis
    proof cases
      case 1
      with here have "NType n = StreamExpired" and
        "KChannel k = KeySpacePrefix @ FormMutexKey (Payload n) \<and> KPayload k = ExpiredPayload" by blast+
      then show ?thesis by (auto simp: 3(1) x)
    next
      case 2
      from Suc.IH [OF rest 2] show ?thesis by (auto simp: 3(1) t)
    qed
  qed
qed simp

text \<open>
  C23. No false expiry: every notification the keyspace listener sends is a \<open>StreamExpired\<close> for an
  entry whose own lock key Redis reported as expired on a channel of database 0.
\<close>

theorem stream_expired_only_on_expiry:
  assumes "path (listenKsp fuel) tr res" and "(ESend n, x) \<in> set tr"
  shows "NType n = StreamExpired \<and> (\<exists>k. (EKspRecv, RKsp (Some k)) \<in> set tr \<and>
    KChannel k = KeySpacePrefix @ FormMutexKey (Payload n) \<and> KPayload k = ExpiredPayload)"
  using assms by (intro listenKsp_sends) (auto simp: sent_set)

definition sampleExpiry :: KspMessage where
  "sampleExpiry = \<lparr>KChannel = KeySpacePrefix @ ''s1'' @ MutexKeySep @ ''1-0'', KPayload = ExpiredPayload\<rparr>"




theorem stream_expired_only_on_expiry_witness:
  "NType (Make StreamExpired \<lparr>DataStreamName = ''s1'', IDInLBS = ''1-0''\<rparr> None) = StreamExpired \<and>
   (\<exists>k. (EKspRecv, RKsp (Some k)) \<in> set [(EKspRecv, RKsp (Some sampleExpiry))] \<and>
     KPayload k = ExpiredPayload)"
proof -
  let ?i = "\<lparr>DataStreamName = ''s1'', IDInLBS = ''1-0''\<rparr>"
  let ?tr = "[(EKspRecv, RKsp (Some sampleExpiry)),
    (EMetric (RecordKspNotification (''s1'' @ MutexKeySep @ ''1-0'')), ROk),
    (ELocksGet ''s1'', RLock None), (ESend (Make StreamExpired ?i None), ROk)]"
  have h: "handleKsp sampleExpiry p = metric (RecordKspNotification (''s1'' @ MutexKeySep @ ''1-0''))
      (locksGet ''s1'' (\<lambda>l. send (Make StreamExpired ?i
         (case l of None \<Rightarrow> None | Some i \<Rightarrow> sliAdditionalInfo i)) p))" for p :: "bool prog"
  proof -
    have "go_split MutexKeySep (''s1'' @ MutexKeySep @ ''1-0'') = [''s1'', ''1-0'']" by code_simp
    then show ?thesis by (simp add: handleKsp_def sampleExpiry_def CreateByKspNotification_def
          extractStreamnameFromKspChannel_def)
  qed
  have "path (listenKsp 1) ?tr False" by (simp add: eff_simps h)
  from stream_expired_only_on_expiry [OF this, of "Make StreamExpired ?i None" ROk] show ?thesis by auto
qed

section \<open>The relay\<close>

definition received :: "log \<Rightarrow> KspMessage list" where
  "received tr = concat (map (\<lambda>(e, x). case e of EPubSubRecv _ \<Rightarrow>
     (case as_ksp x of Some (Some m) \<Rightarrow> [m] | _ \<Rightarrow> []) | _ \<Rightarrow> []) tr)"

text \<open>What was put into the channel, and what was offered and refused.\<close>

definition relayed :: "log \<Rightarrow> (KspMessage \<times> bool) list" where
  "relayed tr = concat (map (\<lambda>(e, x). case e of EKspTrySend m \<Rightarrow> [(m, as_bool x)] | _ \<Rightarrow> []) tr)"

definition drops :: "log \<Rightarrow> nat" where
  "drops tr = length (filter (\<lambda>(e, _). e = EMetric RecordKspNotificationDropped) tr)"

lemma relay_simps [simp]:
  "received [] = []" "relayed [] = []" "drops [] = 0"
  "received ((e, x) # tr) = (case e of EPubSubRecv _ \<Rightarrow>
     (case as_ksp x of Some (Some m) \<Rightarrow> [m] | _ \<Rightarrow> []) | _ \<Rightarrow> []) @ received tr"
  "relayed ((e, x) # tr) = (case e of EKspTrySend m \<Rightarrow> [(m, as_bool x)] | _ \<Rightarrow> []) @ relayed tr"
  "drops ((e, x) # tr) = (if e = EMetric RecordKspNotificationDropped then 1 else 0) + drops tr"
  by (simp_all add: received_def relayed_def drops_def)

text \<open>
  The relay loses nothing silently. Every message of the subscription is offered to the keyspace
  channel, once and in order, and the drop metric is recorded exactly once for each message the full
  channel refused.
\<close>

lemma fanIn_relays_or_reports:
  assumes "path (fanInPubSub fuel ps) tr res"
  shows "map fst (relayed tr) = received tr \<and> drops tr = length (filter (\<lambda>(_, taken). \<not> taken) (relayed tr))"
  using assms
proof (induction fuel arbitrary: tr)
  case (Suc fuel)
  from Suc.prems consider x where "tr = [(EPubSubRecv ps, x)]" "\<forall>m. as_ksp x \<noteq> Some (Some m)"
    | x m y t where "tr = (EPubSubRecv ps, x) # (EKspTrySend m, y) # t" "as_ksp x = Some (Some m)"
        "as_bool y" "path (fanInPubSub fuel ps) t res"
    | x m y z t where "tr = (EPubSubRecv ps, x) # (EKspTrySend m, y)
        # (EMetric RecordKspNotificationDropped, z) # t" "as_ksp x = Some (Some m)"
        "\<not> as_bool y" "path (fanInPubSub fuel ps) t res"
    by (auto simp: eff_simps path_simps)
  then show ?case
  proof cases
    case 1
    then show ?thesis by (auto split: option.splits)
  next
    case 2
    then show ?thesis using Suc.IH by simp
  next
    case 3
    then show ?thesis using Suc.IH by simp
  qed
qed simp

lemma fanIn_relays_or_reports_example:
  "drops [(EPubSubRecv 1, RKsp (Some sampleExpiry)), (EKspTrySend sampleExpiry, RBool False),
     (EMetric RecordKspNotificationDropped, ROk), (EPubSubRecv 1, RKsp None)]
   = length (filter (\<lambda>(_, taken). \<not> taken) [(sampleExpiry, False)])"
proof -
  have "path (fanInPubSub 2 1) [(EPubSubRecv 1, RKsp (Some sampleExpiry)),
      (EKspTrySend sampleExpiry, RBool False), (EMetric RecordKspNotificationDropped, ROk),
      (EPubSubRecv 1, RKsp None)] True"
    by (simp add: eff_simps numeral_2_eq_2)
  from fanIn_relays_or_reports [OF this] show ?thesis by simp
qed

section \<open>Where the bookkeeping goes wrong\<close>

text \<open>The reference server on a bad day: extending fails, everything else works.\<close>

fun refFlaky :: "eff \<Rightarrow> ref \<Rightarrow> reply \<times> ref" where
  "refFlaky (EMutexExtend m) s = (RErr (ExtErr ''connection reset'' None), s)"
| "refFlaky e s = refHandle e s"

text \<open>
  C38. The extender cleans up by stream name. When an extension of the lock of an old entry fails, the
  client's record of the stream is removed even if it belongs to a newer entry of the same stream,
  which the client holds and is processing: \<open>DoneStream\<close> for it then fails with
  \<open>ErrDataStreamNotFound\<close> and its entry stays pending.
\<close>

theorem extender_drops_newer_entry:
  assumes "map_of (streamLocks s) (DataStreamName info) = Some newer"
    and "run refFlaky (startExtendingKey (Suc fuel) r m info add) s = (res, tr, s')"
  shows "result (run refHandle (DoneStream r (DataStreamName info)) s')
    = Some (Sentinel ErrDataStreamNotFound) \<and> groups s' = groups s"
proof -
  have "map_of (streamLocks s') (DataStreamName info) = None \<and> groups s' = groups s"
    using assms by (auto simp: startExtendingKey_def extendCleanup_def isStreamProcessingDone_def
        popStreamLocksInfo_def eff_simps Let_def delete_conv')
  then show ?thesis by (simp add: DoneStream_def popStreamLocksInfo_def eff_simps)
qed


text \<open>The client holds the entry \<open>3-0\<close> of the stream \<open>s1\<close>; \<open>1-0\<close> is an older entry of it.\<close>

definition newerEntry :: StreamLocksInfo where
  "newerEntry = \<lparr>sliLBSInfo = \<lparr>DataStreamName = ''s1'', IDInLBS = ''3-0''\<rparr>,
     sliMutex = newMutex sampleClient \<lparr>DataStreamName = ''s1'', IDInLBS = ''3-0''\<rparr>,
     sliAdditionalInfo = None\<rparr>"

definition olderInfo :: LBSInfo where
  "olderInfo = \<lparr>DataStreamName = ''s1'', IDInLBS = ''1-0''\<rparr>"

definition holdingNewer :: ref where
  "holdingNewer = emptyRef\<lparr>streamLocks := [(''s1'', newerEntry)]\<rparr>"

theorem extender_drops_newer_entry_witness:
  "result (run refHandle (DoneStream sampleClient ''s1'') (final (run refFlaky
     (startExtendingKey 1 sampleClient (newMutex sampleClient olderInfo) olderInfo None) holdingNewer)))
   = Some (Sentinel ErrDataStreamNotFound)"
proof -
  obtain res tr s' where r: "run refFlaky (startExtendingKey (Suc 0) sampleClient
      (newMutex sampleClient olderInfo) olderInfo None) holdingNewer = (res, tr, s')"
    by (metis surj_pair)
  have d: "DataStreamName olderInfo = ''s1''" by (simp add: olderInfo_def)
  have "map_of (streamLocks holdingNewer) (DataStreamName olderInfo) = Some newerEntry"
    by (simp add: holdingNewer_def d)
  from extender_drops_newer_entry [OF this r] show ?thesis by (simp add: r d)
qed


end
