(* ===== verification/Broker.thy ===== *)
theory Broker
  imports Prelude
begin

text \<open>
  The notification broker (\<open>notifs/broker.go\<close>) as a transition system: the goroutine \<open>run\<close>, any
  number of concurrent calls of \<open>Send\<close> and \<open>Close\<close>, and the consumer of the output channel. Each step
  is one channel or atomic operation of one of them. A channel is its buffer, its capacity and
  whether it is closed; both channels of the program are buffered. A notification is any value.
\<close>

section \<open>The broker and its goroutines\<close>

text \<open>
  Where \<open>run\<close> is: at the outer select, sending a message it took there, at the inner select, sending
  a message it took there, past the inner \<open>default\<close>, returned (the wait group is at zero), crashed.
\<close>

datatype 'm runPc =
    RLoop
  | RForward 'm
  | RDrain
  | RDrainForward 'm
  | RCloseInput
  | RExit
  | RPanic

record 'm NotificationBroker =
  binput :: "'m list"
  inputCap :: nat
  inputClosed :: bool
  boutput :: "'m list"
  outputCap :: nat
  outputClosed :: bool
  bclosed :: bool
  bquit :: bool
  brun :: "'m runPc"

definition NewNotificationBroker :: "nat \<Rightarrow> nat \<Rightarrow> 'm NotificationBroker" where
  "NewNotificationBroker outCap bufferSize =
     \<lparr>binput = [], inputCap = bufferSize, inputClosed = False, boutput = [], outputCap = outCap,
      outputClosed = False, bclosed = False, bquit = False, brun = RLoop\<rparr>"

text \<open>\<open>b.output <- m\<close>: it blocks while the buffer is full and panics on a closed channel.\<close>

definition forward :: "'m \<Rightarrow> 'm runPc \<Rightarrow> 'm NotificationBroker \<Rightarrow> 'm NotificationBroker list" where
  "forward m pc b =
     (if outputClosed b then [b\<lparr>brun := RPanic\<rparr>]
      else if length (boutput b) < outputCap b then [b\<lparr>boutput := boutput b @ [m], brun := pc\<rparr>]
      else [])"

text \<open>
  The next states of \<open>run\<close>; none when it is blocked or has ended. A receive from a closed, empty
  channel yields \<open>ok = false\<close>, and the loop goes round.
\<close>

fun run_step :: "'m runPc \<Rightarrow> 'm NotificationBroker \<Rightarrow> 'm NotificationBroker list" where
  "run_step RLoop b =
     (if bquit b then [b\<lparr>brun := RDrain\<rparr>] else []) @
     (case binput b of
        m # ms \<Rightarrow> [b\<lparr>binput := ms, brun := RForward m\<rparr>]
      | [] \<Rightarrow> if inputClosed b then [b] else [])"
| "run_step (RForward m) b = forward m RLoop b"
| "run_step RDrain b =
     (case binput b of
        m # ms \<Rightarrow> [b\<lparr>binput := ms, brun := RDrainForward m\<rparr>]
      | [] \<Rightarrow> if inputClosed b then [b] else [b\<lparr>brun := RCloseInput\<rparr>])"
| "run_step (RDrainForward m) b = forward m RDrain b"
| "run_step RCloseInput b =
     (if inputClosed b then [b\<lparr>brun := RPanic\<rparr>] else [b\<lparr>inputClosed := True, brun := RExit\<rparr>])"
| "run_step RExit b = []"
| "run_step RPanic b = []"

text \<open>
  A call of \<open>Send\<close>: at the check of \<open>closed\<close>, at the select, returned, crashed. \<open>ctxDone\<close> says whether
  the call's context is done. A send on a closed channel panics.
\<close>

datatype 'm sendPc = SCheck 'm | SSelect 'm | SRet 'm bool | SPanic 'm

fun Send_step :: "bool \<Rightarrow> 'm sendPc \<Rightarrow> 'm NotificationBroker
    \<Rightarrow> ('m sendPc \<times> 'm NotificationBroker) list" where
  "Send_step ctxDone (SCheck m) b = (if bclosed b then [(SRet m False, b)] else [(SSelect m, b)])"
| "Send_step ctxDone (SSelect m) b =
     (if ctxDone then [(SRet m False, b)] else []) @
     (if bquit b then [(SRet m False, b)] else []) @
     (if inputClosed b then [(SPanic m, b)]
      else if length (binput b) < inputCap b then [(SRet m True, b\<lparr>binput := binput b @ [m]\<rparr>)]
      else [])"
| "Send_step ctxDone (SRet m ok) b = []"
| "Send_step ctxDone (SPanic m) b = []"

text \<open>
  A call of \<open>Close\<close>: at the compare-and-swap, about to close \<open>quit\<close>, waiting for \<open>run\<close>, about to close
  the output, returned, crashed.
\<close>

datatype closePc = CSwap | CQuit | CWait | COutput | CRet | CPanic

fun Close_step :: "closePc \<Rightarrow> 'm NotificationBroker \<Rightarrow> (closePc \<times> 'm NotificationBroker) list" where
  "Close_step CSwap b = (if \<not> bclosed b then [(CQuit, b\<lparr>bclosed := True\<rparr>)] else [(CWait, b)])"
| "Close_step CQuit b = (if bquit b then [(CPanic, b)] else [(CWait, b\<lparr>bquit := True\<rparr>)])"
| "Close_step CWait b = (case brun b of RExit \<Rightarrow> [(COutput, b)] | _ \<Rightarrow> [])"
| "Close_step COutput b =
     (if outputClosed b then [(CPanic, b)] else [(CRet, b\<lparr>outputClosed := True\<rparr>)])"
| "Close_step CRet b = []"
| "Close_step CPanic b = []"

section \<open>All of them together\<close>

text \<open>
  A configuration: the broker, the calls of \<open>Send\<close> and the calls of \<open>Close\<close> made so far. The events are
  a message taken into the input (the moment \<open>Send\<close> succeeds) and a message received by the consumer.
\<close>

type_synonym 'm conf = "'m NotificationBroker \<times> 'm sendPc list \<times> closePc list"

datatype 'm event = Internal | Accept 'm | Deliver 'm

fun sendEvent :: "'m sendPc \<Rightarrow> 'm event" where
  "sendEvent (SRet m True) = Accept m"
| "sendEvent _ = Internal"

inductive bstep :: "'m conf \<Rightarrow> 'm event \<Rightarrow> 'm conf \<Rightarrow> bool" where
  runner: "b' \<in> set (run_step (brun b) b) \<Longrightarrow> bstep (b, ss, cs) Internal (b', ss, cs)"
| sender: "i < length ss \<Longrightarrow> (pc, b') \<in> set (Send_step ctxDone (ss ! i) b) \<Longrightarrow>
     bstep (b, ss, cs) (sendEvent pc) (b', ss[i := pc], cs)"
| closer: "i < length cs \<Longrightarrow> (pc, b') \<in> set (Close_step (cs ! i) b) \<Longrightarrow>
     bstep (b, ss, cs) Internal (b', ss, cs[i := pc])"
| consumer: "boutput b = m # ms \<Longrightarrow> bstep (b, ss, cs) (Deliver m) (b\<lparr>boutput := ms\<rparr>, ss, cs)"
| call_Send: "bstep (b, ss, cs) Internal (b, ss @ [SCheck m], cs)"
| call_Close: "bstep (b, ss, cs) Internal (b, ss, cs @ [CSwap])"

inductive_cases bstepE: "bstep c e c'"

lemma sendEvent_not_Deliver [simp]: "sendEvent pc \<noteq> Deliver m" "Deliver m \<noteq> sendEvent pc"
  by (cases pc rule: sendEvent.cases; simp)+

section \<open>A queue\<close>

text \<open>
  The contract of a message queue: there is a list of messages that acceptance extends at the back,
  delivery shortens at the front, and nothing else changes.
\<close>

inductive trace :: "('c \<Rightarrow> 'm event \<Rightarrow> 'c \<Rightarrow> bool) \<Rightarrow> 'c \<Rightarrow> 'm event list \<Rightarrow> 'c \<Rightarrow> bool"
  for step :: "'c \<Rightarrow> 'm event \<Rightarrow> 'c \<Rightarrow> bool" and c0 :: 'c where
  trace_start: "trace step c0 [] c0"
| trace_step: "trace step c0 es c \<Longrightarrow> step c e c' \<Longrightarrow> trace step c0 (es @ [e]) c'"

fun accepted :: "'m event list \<Rightarrow> 'm list" where
  "accepted [] = []"
| "accepted (Accept m # es) = m # accepted es"
| "accepted (_ # es) = accepted es"

fun delivered :: "'m event list \<Rightarrow> 'm list" where
  "delivered [] = []"
| "delivered (Deliver m # es) = m # delivered es"
| "delivered (_ # es) = delivered es"

lemma accepted_append [simp]: "accepted (es @ fs) = accepted es @ accepted fs"
  by (induction es rule: accepted.induct) auto

lemma delivered_append [simp]: "delivered (es @ fs) = delivered es @ delivered fs"
  by (induction es rule: delivered.induct) auto

locale message_queue =
  fixes step :: "'c \<Rightarrow> 'm event \<Rightarrow> 'c \<Rightarrow> bool" and start :: 'c and good :: "'c \<Rightarrow> bool"
    and contents :: "'c \<Rightarrow> 'm list"
  assumes start_good: "good start" and step_good: "good c \<Longrightarrow> step c e c' \<Longrightarrow> good c'"
    and start_empty: "contents start = []"
    and accept_back: "good c \<Longrightarrow> step c (Accept m) c' \<Longrightarrow> contents c' = contents c @ [m]"
    and deliver_front: "good c \<Longrightarrow> step c (Deliver m) c' \<Longrightarrow> contents c = m # contents c'"
    and internal_keeps: "good c \<Longrightarrow> step c Internal c' \<Longrightarrow> contents c' = contents c"
begin

lemma always_good: "trace step start es c \<Longrightarrow> good c"
  by (induction rule: trace.induct) (auto intro: start_good step_good)

lemma first_in_first_out: "trace step start es c \<Longrightarrow> accepted es = delivered es @ contents c"
proof (induction rule: trace.induct)
  case trace_start
  then show ?case by (simp add: start_empty)
next
  case (trace_step es c e c')
  have "good c" using trace_step.hyps(1) by (rule always_good)
  with trace_step show ?case
    by (cases e) (auto simp: internal_keeps dest: accept_back deliver_front)
qed

end

text \<open>What the broker holds, oldest message first.\<close>

fun inHand :: "'m runPc \<Rightarrow> 'm list" where
  "inHand (RForward m) = [m]"
| "inHand (RDrainForward m) = [m]"
| "inHand _ = []"

definition held_messages :: "'m conf \<Rightarrow> 'm list" where
  "held_messages c = (let b = fst c in boutput b @ inHand (brun b) @ binput b)"

section \<open>The invariant\<close>

abbreviation draining :: "'m runPc \<Rightarrow> bool" where
  "draining pc \<equiv> \<not> (pc = RLoop \<or> (\<exists>m. pc = RForward m))"

definition broker_inv :: "'m NotificationBroker \<Rightarrow> bool" where
  "broker_inv b \<longleftrightarrow> brun b \<noteq> RPanic \<and> (inputClosed b \<longleftrightarrow> brun b = RExit) \<and> (outputClosed b \<longrightarrow> brun b = RExit)
     \<and> (draining (brun b) \<longrightarrow> bquit b) \<and> (bquit b \<longrightarrow> bclosed b)
     \<and> length (binput b) \<le> inputCap b \<and> length (boutput b) \<le> outputCap b"

definition closers_inv :: "'m NotificationBroker \<Rightarrow> closePc list \<Rightarrow> bool" where
  "closers_inv b cs \<longleftrightarrow> count_list cs CQuit = (if bclosed b \<and> \<not> bquit b then 1 else 0)
     \<and> (COutput \<in> set cs \<longrightarrow> brun b = RExit)"

definition conf_inv :: "'m conf \<Rightarrow> bool" where
  "conf_inv c = (case c of (b, ss, cs) \<Rightarrow> broker_inv b \<and> closers_inv b cs)"

lemma run_step_inv:
  assumes "b' \<in> set (run_step (brun b) b)" and "broker_inv b"
  shows "broker_inv b' \<and> bclosed b' = bclosed b \<and> bquit b' = bquit b \<and> brun b \<noteq> RExit
    \<and> boutput b' @ inHand (brun b') @ binput b' = boutput b @ inHand (brun b) @ binput b
    \<and> inputCap b' = inputCap b \<and> outputCap b' = outputCap b"
  using assms
  by (cases "brun b"; cases "binput b") (auto simp: broker_inv_def forward_def split: if_splits)

lemma Send_step_inv:
  assumes "(pc', b') \<in> set (Send_step ctxDone pc b)" and "broker_inv b"
  shows "broker_inv b' \<and> bclosed b' = bclosed b \<and> bquit b' = bquit b \<and> brun b' = brun b
    \<and> boutput b' = boutput b \<and> binput b' = binput b @ accepted [sendEvent pc']
    \<and> inputCap b' = inputCap b \<and> outputCap b' = outputCap b"
  using assms by (cases pc) (auto simp: broker_inv_def split: if_splits)

lemma count_list_update:
  "i < length xs \<Longrightarrow> count_list (xs[i := y]) x + (if xs ! i = x then 1 else 0) = count_list xs x + (if y = x then 1 else 0)"
proof (induction xs arbitrary: i)
  case (Cons a xs)
  show ?case
  proof (cases i)
    case (Suc j)
    with Cons.prems Cons.IH [of j] show ?thesis by (auto split: if_splits)
  qed simp
qed simp

lemma Close_step_inv:
  assumes "(pc', b') \<in> set (Close_step (cs ! i) b)" and "i < length cs" and "broker_inv b"
    and "closers_inv b cs"
  shows "broker_inv b' \<and> closers_inv b' (cs[i := pc']) \<and> brun b' = brun b \<and> boutput b' = boutput b
    \<and> binput b' = binput b \<and> inputCap b' = inputCap b \<and> outputCap b' = outputCap b"
proof -
  have c: "count_list (cs[i := pc']) CQuit + (if cs ! i = CQuit then 1 else 0)
      = count_list cs CQuit + (if pc' = CQuit then 1 else 0)" using assms(2) by (rule count_list_update)
  have m: "cs ! i \<in> set cs" using assms(2) by simp
  have s: "COutput \<in> set (cs[i := pc']) \<Longrightarrow> pc' = COutput \<or> COutput \<in> set cs"
    using set_update_subset_insert [of cs i pc'] by auto
  show ?thesis
    using assms(1,3,4) c m s
    by (cases "cs ! i")
       (auto simp: broker_inv_def closers_inv_def split: if_splits runPc.splits)
qed

lemma consumer_inv: "broker_inv b \<Longrightarrow> boutput b = m # ms \<Longrightarrow> broker_inv (b\<lparr>boutput := ms\<rparr>)"
  by (simp add: broker_inv_def)

lemma conf_inv_step: "conf_inv c \<Longrightarrow> bstep c e c' \<Longrightarrow> conf_inv c'"
  by (erule bstepE)
     (auto simp: conf_inv_def closers_inv_def count_list_append
       dest: run_step_inv Send_step_inv Close_step_inv intro: consumer_inv)

lemma conf_inv_start: "conf_inv (NewNotificationBroker out inp, [], [])"
  by (simp add: conf_inv_def broker_inv_def closers_inv_def NewNotificationBroker_def)

interpretation broker_queue: message_queue bstep "(NewNotificationBroker out inp, [], [])" conf_inv
  held_messages for out inp
proof
  show "conf_inv (NewNotificationBroker out inp, [], [])" by (rule conf_inv_start)
  show "held_messages (NewNotificationBroker out inp, [], []) = []"
    by (simp add: held_messages_def NewNotificationBroker_def)
next
  fix c c' :: "'a conf" and e
  assume "conf_inv c" "bstep c e c'"
  then show "conf_inv c'" by (rule conf_inv_step)
next
  fix c c' :: "'a conf" and m
  assume "conf_inv c" "bstep c (Accept m) c'"
  then show "held_messages c' = held_messages c @ [m]"
    by (elim bstepE)
       (auto simp: held_messages_def conf_inv_def dest!: sym [of "Accept m"] Send_step_inv)
next
  fix c c' :: "'a conf" and m
  assume "conf_inv c" "bstep c (Deliver m) c'"
  then show "held_messages c = m # held_messages c'"
    by (elim bstepE) (auto simp: held_messages_def)
next
  fix c c' :: "'a conf"
  assume "conf_inv c" "bstep c Internal c'"
  then show "held_messages c' = held_messages c"
    by (elim bstepE)
       (auto simp: held_messages_def conf_inv_def Let_def dest!: run_step_inv Send_step_inv Close_step_inv)
qed

section \<open>Properties\<close>

abbreviation btrace :: "nat \<Rightarrow> nat \<Rightarrow> 'm event list \<Rightarrow> 'm conf \<Rightarrow> bool" where
  "btrace out inp \<equiv> trace bstep (NewNotificationBroker out inp, [], [])"

text \<open>
  C8. The broker is a queue. However its goroutine, any number of senders and closers and the consumer
  interleave, the messages whose \<open>Send\<close> returned true are, in the order they were taken, those the
  consumer received followed by those still in the output, in the goroutine's hand and in the input:
  nothing is duplicated, reordered or dropped on the way.
\<close>

theorem broker_fifo:
  assumes "btrace out inp es (b, ss, cs)"
  shows "accepted es = delivered es @ boutput b @ inHand (brun b) @ binput b"
  using broker_queue.first_in_first_out [OF assms] by (simp add: held_messages_def)

text \<open>
  The goroutine never sends on a closed output and never closes its input twice: it does not
  panic, the output is closed only after it returned, and the buffers stay within their capacities.
\<close>

lemma run_never_panics:
  assumes "btrace out inp es (b, ss, cs)"
  shows "brun b \<noteq> RPanic \<and> (outputClosed b \<longrightarrow> brun b = RExit)
    \<and> length (binput b) \<le> inputCap b \<and> length (boutput b) \<le> outputCap b"
  using broker_queue.always_good [OF assms] by (simp add: conf_inv_def broker_inv_def)

text \<open>A shutdown is orderly when no call of \<open>Send\<close> is past its check at the compare-and-swap.\<close>

fun atSelect :: "'m sendPc \<Rightarrow> bool" where
  "atSelect (SSelect m) = True"
| "atSelect _ = False"

definition unhurried :: "'m conf \<Rightarrow> 'm conf \<Rightarrow> bool" where
  "unhurried c c' \<longleftrightarrow>
     (\<not> bclosed (fst c) \<and> bclosed (fst c') \<longrightarrow> list_all (\<lambda>s. \<not> atSelect s) (fst (snd c)))"

definition orderly :: "'m conf \<Rightarrow> 'm event \<Rightarrow> 'm conf \<Rightarrow> bool" where
  "orderly c e c' \<longleftrightarrow> bstep c e c' \<and> unhurried c c'"

definition orderly_inv :: "'m conf \<Rightarrow> bool" where
  "orderly_inv c = (case c of (b, ss, cs) \<Rightarrow> (bclosed b \<longrightarrow> list_all (\<lambda>s. \<not> atSelect s) ss)
     \<and> list_all (\<lambda>s. \<forall>m. s \<noteq> SPanic m) ss \<and> (brun b = RCloseInput \<or> brun b = RExit \<longrightarrow> binput b = []))"

lemma list_all_update: "list_all P xs \<Longrightarrow> P y \<Longrightarrow> list_all P (xs[i := y])"
  by (auto simp: list_all_iff dest: set_update_subset_insert [THEN subsetD])

lemma Send_orderly:
  assumes "(pc, b') \<in> set (Send_step ctxDone (ss ! i) b)" and "i < length ss" and "broker_inv b"
    and "orderly_inv (b, ss, cs)"
  shows "orderly_inv (b', ss[i := pc], cs)"
proof (cases "ss ! i")
  case (SCheck m)
  with assms show ?thesis by (auto simp: orderly_inv_def intro!: list_all_update split: if_splits)
next
  case (SSelect m)
  with assms(2) have "\<exists>s \<in> set ss. atSelect s" by (metis atSelect.simps(1) nth_mem)
  with assms(4) have "\<not> bclosed b" by (auto simp: orderly_inv_def list_all_iff)
  with assms(3) have "\<not> inputClosed b" "brun b \<noteq> RExit" "brun b \<noteq> RCloseInput" "\<not> bquit b"
    by (auto simp: broker_inv_def)
  with SSelect \<open>\<not> bclosed b\<close> assms show ?thesis
    by (auto simp: orderly_inv_def intro!: list_all_update split: if_splits)
qed (use assms in simp_all)

lemma run_orderly:
  assumes "b' \<in> set (run_step (brun b) b)" and "broker_inv b" and "orderly_inv (b, ss, cs)"
  shows "orderly_inv (b', ss, cs)"
  using assms
  by (cases "brun b"; cases "binput b")
     (auto simp: orderly_inv_def broker_inv_def forward_def split: if_splits)

lemma orderly_step:
  assumes "orderly c e c'" and "conf_inv c" and "orderly_inv c"
  shows "orderly_inv c'"
proof -
  have "bstep c e c'" and o: "\<not> bclosed (fst c) \<and> bclosed (fst c') \<longrightarrow> list_all (\<lambda>s. \<not> atSelect s) (fst (snd c))"
    using assms(1) by (simp_all add: orderly_def unhurried_def)
  then show ?thesis
  proof cases
    case (runner b' b ss cs)
    with assms(2,3) show ?thesis by (auto simp: conf_inv_def intro: run_orderly)
  next
    case (sender i ss pc b' ctxDone b cs)
    with assms(2,3) show ?thesis by (auto simp: conf_inv_def intro: Send_orderly)
  next
    case (closer i cs pc b' b ss)
    with assms(2,3) have "brun b' = brun b \<and> binput b' = binput b"
      using Close_step_inv [of pc b' cs i b] by (simp add: conf_inv_def)
    with closer o assms(3) show ?thesis by (auto simp: orderly_inv_def)
  qed (use assms(3) in \<open>auto simp: orderly_inv_def\<close>)
qed

lemma orderly_trace:
  assumes "trace orderly (NewNotificationBroker out inp, [], []) es c"
  shows "btrace out inp es c \<and> orderly_inv c"
  using assms
proof (induction rule: trace.induct)
  case trace_start
  then show ?case
    by (auto simp: orderly_inv_def NewNotificationBroker_def intro: trace.trace_start)
next
  case (trace_step es c e c')
  then have "conf_inv c" using broker_queue.always_good by blast
  with trace_step show ?case
    by (auto intro: orderly_step trace.trace_step simp: orderly_def)
qed

text \<open>
  C9. An orderly shutdown loses nothing. If no call of \<open>Send\<close> is between its check of \<open>closed\<close> and its
  return when \<open>Close\<close> sets the flag, no \<open>Send\<close> ever panics, and once \<open>Close\<close> has closed the output every
  message whose \<open>Send\<close> returned true has been received by the consumer or waits for it in the output.
\<close>

theorem orderly_shutdown_complete:
  assumes "trace orderly (NewNotificationBroker out inp, [], []) es (b, ss, cs)"
  shows "(\<forall>m. SPanic m \<notin> set ss) \<and> (outputClosed b \<longrightarrow> accepted es = delivered es @ boutput b)"
proof -
  from orderly_trace [OF assms] have t: "btrace out inp es (b, ss, cs)"
    and o: "orderly_inv (b, ss, cs)" by simp_all
  have "broker_inv b" using broker_queue.always_good [OF t] by (simp add: conf_inv_def)
  then show ?thesis
    using o broker_queue.first_in_first_out [OF t]
    by (auto simp: orderly_inv_def broker_inv_def held_messages_def list_all_iff)
qed

section \<open>Concrete executions\<close>

text \<open>A schedule as data: who moves, and which of its possible next states it takes.\<close>

datatype 'm move = Run nat | SendMove nat bool nat | CloseMove nat nat | Receive | CallSend 'm | CallClose

fun perform :: "'m move \<Rightarrow> 'm conf \<Rightarrow> ('m event \<times> 'm conf) option" where
  "perform (Run k) (b, ss, cs) =
     (let bs = run_step (brun b) b in if k < length bs then Some (Internal, bs ! k, ss, cs) else None)"
| "perform (SendMove i ctxDone k) (b, ss, cs) =
     (if i < length ss then
        (let xs = Send_step ctxDone (ss ! i) b in
         if k < length xs then (case xs ! k of (pc, b') \<Rightarrow> Some (sendEvent pc, b', ss[i := pc], cs))
         else None)
      else None)"
| "perform (CloseMove i k) (b, ss, cs) =
     (if i < length cs then
        (let xs = Close_step (cs ! i) b in
         if k < length xs then (case xs ! k of (pc, b') \<Rightarrow> Some (Internal, b', ss, cs[i := pc]))
         else None)
      else None)"
| "perform Receive (b, ss, cs) =
     (case boutput b of m # ms \<Rightarrow> Some (Deliver m, b\<lparr>boutput := ms\<rparr>, ss, cs) | [] \<Rightarrow> None)"
| "perform (CallSend m) (b, ss, cs) = Some (Internal, b, ss @ [SCheck m], cs)"
| "perform CallClose (b, ss, cs) = Some (Internal, b, ss, cs @ [CSwap])"

fun play :: "'m move list \<Rightarrow> 'm conf \<Rightarrow> ('m event list \<times> 'm conf) option" where
  "play [] c = Some ([], c)"
| "play (mv # mvs) c =
     (case perform mv c of
        None \<Rightarrow> None
      | Some (e, c1) \<Rightarrow> (case play mvs c1 of None \<Rightarrow> None | Some (es, c') \<Rightarrow> Some (e # es, c')))"

text \<open>Whether every step of a schedule is orderly.\<close>

fun playOrderly :: "'m move list \<Rightarrow> 'm conf \<Rightarrow> bool" where
  "playOrderly [] c = True"
| "playOrderly (mv # mvs) c =
     (case perform mv c of
        None \<Rightarrow> False
      | Some (e, c1) \<Rightarrow> unhurried c c1 \<and> playOrderly mvs c1)"

lemma perform_bstep: "perform mv c = Some (e, c') \<Longrightarrow> bstep c e c'"
proof (cases mv)
  case (SendMove i ctxDone k)
  assume "perform mv c = Some (e, c')"
  with SendMove show ?thesis
    by (cases c)
       (auto simp: Let_def split: if_splits prod.splits intro!: bstep.sender [where ctxDone = ctxDone]
         intro: nth_mem dest: sym)
next
  case (CloseMove i k)
  assume "perform mv c = Some (e, c')"
  with CloseMove show ?thesis
    by (cases c) (auto simp: Let_def split: if_splits prod.splits intro!: bstep.closer intro: nth_mem dest: sym)
next
  case (Run k)
  assume "perform mv c = Some (e, c')"
  with Run show ?thesis
    by (cases c) (auto simp: Let_def split: if_splits intro: bstep.runner)
qed (cases c, auto split: list.splits intro: bstep.intros)+

lemma play_trace:
  "trace bstep c0 es0 c \<Longrightarrow> play mvs c = Some (es, c') \<Longrightarrow> trace bstep c0 (es0 @ es) c'"
proof (induction mvs arbitrary: es0 c es)
  case (Cons mv mvs)
  then obtain e c1 es1 where p: "perform mv c = Some (e, c1)" "play mvs c1 = Some (es1, c')"
    and es: "es = e # es1" by (auto split: option.splits)
  have "trace bstep c0 (es0 @ [e]) c1"
    using Cons.prems(1) perform_bstep [OF p(1)] by (rule trace.trace_step)
  from Cons.IH [OF this p(2)] show ?case by (simp add: es)
qed simp

lemma play_orderly:
  "trace orderly c0 es0 c \<Longrightarrow> play mvs c = Some (es, c') \<Longrightarrow> playOrderly mvs c \<Longrightarrow>
     trace orderly c0 (es0 @ es) c'"
proof (induction mvs arbitrary: es0 c es)
  case (Cons mv mvs)
  then obtain e c1 es1 where p: "perform mv c = Some (e, c1)" "play mvs c1 = Some (es1, c')"
    and es: "es = e # es1" by (auto split: option.splits)
  with Cons.prems(3) have u: "unhurried c c1" "playOrderly mvs c1" by simp_all
  have "orderly c e c1" using perform_bstep [OF p(1)] u(1) by (simp add: orderly_def)
  with Cons.prems(1) have "trace orderly c0 (es0 @ [e]) c1" by (rule trace.trace_step)
  from Cons.IH [OF this p(2) u(2)] show ?case by (simp add: es)
qed simp

lemma play_btrace:
  "play mvs (NewNotificationBroker out inp, [], []) = Some (es, c) \<Longrightarrow> btrace out inp es c"
  using play_trace [OF trace.trace_start] by fastforce

lemmas play_simps = NewNotificationBroker_def forward_def Let_def

text \<open>A message sent and received, then an orderly shutdown with one message still in the output.\<close>

definition quietMoves :: "nat move list" where
  "quietMoves = [CallSend 1, SendMove 0 False 0, SendMove 0 False 0, Run 0, Run 0, Receive,
     CallSend 2, SendMove 1 False 0, SendMove 1 False 0, Run 0, Run 0,
     CallClose, CloseMove 0 0, CloseMove 0 0, Run 0, Run 0, Run 0, CloseMove 0 0, CloseMove 0 0]"

definition quietEnd :: "nat NotificationBroker" where
  "quietEnd = \<lparr>binput = [], inputCap = 2, inputClosed = True, boutput = [2], outputCap = 2,
     outputClosed = True, bclosed = True, bquit = True, brun = RExit\<rparr>"

definition quietEvents :: "nat event list" where
  "quietEvents = [Internal, Internal, Accept 1, Internal, Internal, Deliver 1, Internal, Internal,
     Accept 2, Internal, Internal, Internal, Internal, Internal, Internal, Internal, Internal, Internal,
     Internal]"

lemma quiet_play:
  "play quietMoves (NewNotificationBroker 2 2, [], [])
     = Some (quietEvents, quietEnd, [SRet 1 True, SRet 2 True], [CRet])"
  by (simp add: quietMoves_def quietEnd_def quietEvents_def play_simps)

theorem broker_fifo_witness:
  "accepted quietEvents = delivered quietEvents @ [2] \<and> accepted quietEvents = [1, 2]"
  using broker_fifo [OF play_btrace [OF quiet_play]] by (simp add: quietEnd_def quietEvents_def)

lemma quiet_orderly: "playOrderly quietMoves (NewNotificationBroker 2 2, [], [])"
  by (simp add: quietMoves_def play_simps unhurried_def)

theorem orderly_shutdown_complete_witness:
  "outputClosed quietEnd \<and> accepted quietEvents = delivered quietEvents @ boutput quietEnd
   \<and> SPanic 1 \<notin> set [SRet 1 True, SRet (2 :: nat) True]"
proof -
  have "trace orderly (NewNotificationBroker 2 2, [], []) ([] @ quietEvents)
      (quietEnd, [SRet 1 True, SRet 2 True], [CRet])"
    by (rule play_orderly [OF trace.trace_start quiet_play quiet_orderly])
  from orderly_shutdown_complete [OF this [unfolded append_Nil]] show ?thesis
    by (simp add: quietEnd_def)
qed

lemma run_never_panics_example: "outputClosed quietEnd \<and> brun quietEnd = RExit"
  using run_never_panics [OF play_btrace [OF quiet_play]] by (simp add: quietEnd_def)

text \<open>
  C40. Without the order, both can go wrong. A \<open>Send\<close> that passed its check before \<open>Close\<close> set the flag
  can find the input closed, and its select may pick that send: it panics. Or it finds the input still
  open after the goroutine saw it empty: \<open>Send\<close> returns true, the goroutine and \<open>Close\<close> return, and the
  message stays in the input, which nobody reads any more. A second \<open>Close\<close>, even after the first
  returned, panics. And a \<open>Send\<close> whose context is already cancelled, as the reader's last notification on
  cancellation is, may give the message up although the broker is open and empty.
\<close>

theorem shutdown_hazards:
  "(\<exists>(es :: 'a event list) b. btrace 500 500 es (b, [], [CRet, CPanic]))
   \<and> (\<exists>es b. btrace 500 500 es (b, [SPanic (m :: 'a)], [CWait]))
   \<and> (\<exists>es b. btrace 500 500 es (b, [SRet m True], [CRet]) \<and> brun b = RExit \<and> outputClosed b
        \<and> accepted es = [m] \<and> delivered es = [] \<and> boutput b = [] \<and> binput b = [m])
   \<and> (\<exists>es b. btrace 500 500 es (b, [SRet m False], []) \<and> \<not> bclosed b \<and> binput b = [] \<and> boutput b = [])"
proof (intro conjI)
  have "\<exists>es b. play [CallClose, CloseMove 0 0, CloseMove 0 0, Run 0, Run 0, Run 0, CloseMove 0 0,
      CloseMove 0 0, CallClose, CloseMove 1 0, CloseMove 1 0, CloseMove 1 0]
      (NewNotificationBroker 500 500, [], []) = Some (es :: 'a event list, b, [], [CRet, CPanic])"
    by (simp add: play_simps)
  then show "\<exists>(es :: 'a event list) b. btrace 500 500 es (b, [], [CRet, CPanic])" using play_btrace by blast
  let ?start = "[CallSend m, SendMove 0 False 0, CallClose, CloseMove 0 0, CloseMove 0 0, Run 0, Run 0]"
  have "\<exists>es b. play (?start @ [Run 0, SendMove 0 False 1]) (NewNotificationBroker 500 500, [], [])
      = Some (es, b, [SPanic m], [CWait])" by (simp add: play_simps)
  then show "\<exists>es b. btrace 500 500 es (b, [SPanic m], [CWait])" using play_btrace by blast
  have "\<exists>es b. play (?start @ [SendMove 0 False 1, Run 0, CloseMove 0 0, CloseMove 0 0])
      (NewNotificationBroker 500 500, [], []) = Some (es, b, [SRet m True], [CRet])
      \<and> brun b = RExit \<and> outputClosed b \<and> accepted es = [m] \<and> delivered es = [] \<and> boutput b = [] \<and> binput b = [m]"
    by (simp add: play_simps)
  then show "\<exists>es b. btrace 500 500 es (b, [SRet m True], [CRet]) \<and> brun b = RExit \<and> outputClosed b
      \<and> accepted es = [m] \<and> delivered es = [] \<and> boutput b = [] \<and> binput b = [m]"
    using play_btrace by blast
  have "\<exists>es b. play [CallSend m, SendMove 0 True 0, SendMove 0 True 0] (NewNotificationBroker 500 500, [], [])
      = Some (es, b, [SRet m False], []) \<and> \<not> bclosed b \<and> binput b = [] \<and> boutput b = []"
    by (simp add: play_simps)
  then show "\<exists>es b. btrace 500 500 es (b, [SRet m False], []) \<and> \<not> bclosed b \<and> binput b = [] \<and> boutput b = []"
    using play_btrace by blast
qed

section \<open>The drain ends\<close>

text \<open>How much the goroutine and the consumer still have to do once \<open>quit\<close> is closed.\<close>

fun pcWork :: "'m runPc \<Rightarrow> nat" where
  "pcWork RLoop = 3"
| "pcWork (RForward m) = 6"
| "pcWork RDrain = 2"
| "pcWork (RDrainForward m) = 5"
| "pcWork RCloseInput = 1"
| "pcWork RExit = 0"
| "pcWork RPanic = 0"

definition work :: "'m NotificationBroker \<Rightarrow> nat" where
  "work b = 4 * length (binput b) + length (boutput b) + pcWork (brun b)"

text \<open>Steps of the goroutine and of the consumer only, counted.\<close>

inductive drains :: "'m NotificationBroker \<Rightarrow> nat \<Rightarrow> 'm NotificationBroker \<Rightarrow> bool" for b0 where
  drains_start: "drains b0 0 b0"
| drains_run: "drains b0 n b \<Longrightarrow> b' \<in> set (run_step (brun b) b) \<Longrightarrow> drains b0 (Suc n) b'"
| drains_recv: "drains b0 n b \<Longrightarrow> boutput b = m # ms \<Longrightarrow> drains b0 (Suc n) (b\<lparr>boutput := ms\<rparr>)"

lemma run_step_work:
  assumes "b' \<in> set (run_step (brun b) b)" and "broker_inv b"
  shows "work b' < work b"
  using assms
  by (cases "brun b"; cases "binput b")
     (auto simp: work_def broker_inv_def forward_def split: if_splits)

lemma drains_work:
  assumes "drains b0 n b" and "broker_inv b0" and "bquit b0" and "0 < outputCap b0"
  shows "n + work b \<le> work b0 \<and> broker_inv b \<and> bquit b \<and> 0 < outputCap b"
  using assms
proof (induction rule: drains.induct)
  case (drains_run n b b')
  then have "broker_inv b" by simp
  from run_step_work [OF drains_run.hyps(2) this] run_step_inv [OF drains_run.hyps(2) this] drains_run
  show ?case by simp
next
  case (drains_recv n b m ms)
  then have "work (b\<lparr>boutput := ms\<rparr>) < work b" by (simp add: work_def)
  with drains_recv show ?case by (simp add: consumer_inv)
qed simp

lemma drain_progress:
  assumes "broker_inv b" and "bquit b" and "0 < outputCap b" and "brun b \<noteq> RExit"
  shows "run_step (brun b) b \<noteq> [] \<or> boutput b \<noteq> []"
  using assms
  by (cases "brun b"; cases "binput b") (auto simp: broker_inv_def forward_def)

lemma step_outputCap: "conf_inv c \<Longrightarrow> bstep c e c' \<Longrightarrow> outputCap (fst c') = outputCap (fst c)"
  by (erule bstepE) (auto simp: conf_inv_def dest: run_step_inv Send_step_inv Close_step_inv)

lemma trace_outputCap: "btrace out inp es c \<Longrightarrow> outputCap (fst c) = out"
proof (induction rule: trace.induct)
  case (trace_step es c e c')
  with broker_queue.always_good step_outputCap show ?case by metis
qed (simp add: NewNotificationBroker_def)

text \<open>
  C10. \<open>Close\<close> does not hang. In any state after \<open>quit\<close> was closed in which no \<open>Send\<close> interferes any
  more, the goroutine and the consumer together can make at most \<open>work b\<close> further steps, and as long as
  the goroutine has not returned one of them can make a step: so if they keep moving, the goroutine
  returns and \<open>Close\<close>, which waits for it, goes on. It relies on the consumer only to make room.
\<close>

theorem drain_terminates:
  assumes "btrace out inp es (b, ss, cs)" and "bquit b" and "0 < out" and "drains b n b'"
  shows "n \<le> work b \<and> (brun b' = RExit \<or> run_step (brun b') b' \<noteq> [] \<or> boutput b' \<noteq> [])"
proof -
  have i: "broker_inv b" using broker_queue.always_good [OF assms(1)] by (simp add: conf_inv_def)
  have "0 < outputCap b" using trace_outputCap [OF assms(1)] assms(3) by simp
  from drains_work [OF assms(4) i assms(2) this] drain_progress [of b'] show ?thesis by auto
qed

definition closingBroker :: "nat runPc \<Rightarrow> nat list \<Rightarrow> nat NotificationBroker" where
  "closingBroker pc inp = \<lparr>binput = inp, inputCap = 2, inputClosed = False, boutput = [], outputCap = 2,
     outputClosed = False, bclosed = True, bquit = True, brun = pc\<rparr>"

theorem drain_terminates_witness:
  "2 \<le> work (closingBroker RLoop [1])
   \<and> drains (closingBroker RLoop [1]) 2 (closingBroker (RDrainForward 1) [])
   \<and> run_step (RDrainForward 1) (closingBroker (RDrainForward 1) []) \<noteq> []"
proof -
  have "play [CallSend 1, SendMove 0 False 0, SendMove 0 False 0, CallClose, CloseMove 0 0, CloseMove 0 0]
      (NewNotificationBroker 2 2, [], [])
      = Some ([Internal, Internal, Accept 1, Internal, Internal, Internal],
          closingBroker RLoop [1], [SRet 1 True], [CWait])"
    by (simp add: closingBroker_def play_simps)
  note t = play_btrace [OF this]
  have d1: "drains (closingBroker RLoop [1]) (Suc 0) (closingBroker RDrain [1])"
    by (rule drains_run [OF drains_start]) (simp add: closingBroker_def)
  have d: "drains (closingBroker RLoop [1]) (Suc (Suc 0)) (closingBroker (RDrainForward 1) [])"
    by (rule drains_run [OF d1]) (simp add: closingBroker_def)
  from drain_terminates [OF t _ _ d] d show ?thesis
    by (simp add: closingBroker_def numeral_2_eq_2)
qed

end
