(* ===== verification/Metrics.thy ===== *)
theory Metrics
  imports Recovery
begin

text \<open>
  The two implementations of \<open>metrics.Recorder\<close> in the repository: \<open>NoopRecorder\<close>
  (\<open>metrics/noop_recorder.go\<close>) and the Prometheus one (\<open>examples/prometheus/recorder.go\<close>). The
  Prometheus client is a library: what a recorder does is the list of calls it makes on its
  instruments. An instrument is declared with its kind and its label names; a call with another number
  of label values, and adding a negative number to a counter, panic in that library.
\<close>

section \<open>Instruments\<close>

datatype kind = CounterVec | HistogramVec | Counter | Histogram

record instrument =
  iname :: string
  ikind :: kind
  ilabels :: "string list"

text \<open>The fields of \<open>PrometheusRecorder\<close> that hold instruments, and what each is created as (its help
  text and histogram buckets aside).\<close>

datatype field =
    claimTotal
  | claimDurationSeconds
  | lockExtensionTotal
  | lockReleaseTotal
  | startupRecoveryTotal
  | startupRecoveryDurationSeconds
  | streamProcessingDurationSeconds
  | kspNotificationTotal
  | kspNotificationDroppedTotal
  | reconciliationScanTotal
  | reconciliationScanDuration
  | reconciliationRequeuedTotal
  | reconciliationSkippedAliveTotal
  | reconciliationDLQRoutedTotal
  | requeueTotal
  | dlqRoutingTotal
  | mutexAliveSkipTotal
  | ackAddGapTotal
  | topologyReinitTotal
  | masterKeyspaceSetupTotal

fun NewPrometheusRecorder :: "field \<Rightarrow> instrument" where
  "NewPrometheusRecorder claimTotal =
     \<lparr>iname = ''redis_mutex_claim_total'', ikind = CounterVec, ilabels = [''stream'', ''success'']\<rparr>"
| "NewPrometheusRecorder claimDurationSeconds =
     \<lparr>iname = ''redis_mutex_claim_duration_seconds'', ikind = HistogramVec, ilabels = [''stream'']\<rparr>"
| "NewPrometheusRecorder lockExtensionTotal =
     \<lparr>iname = ''redis_mutex_lock_extension_total'', ikind = CounterVec, ilabels = [''stream'', ''success'']\<rparr>"
| "NewPrometheusRecorder lockReleaseTotal =
     \<lparr>iname = ''redis_mutex_lock_release_total'', ikind = CounterVec, ilabels = [''stream'', ''success'']\<rparr>"
| "NewPrometheusRecorder startupRecoveryTotal =
     \<lparr>iname = ''redis_mutex_startup_recovery_total'', ikind = CounterVec, ilabels = [''success'']\<rparr>"
| "NewPrometheusRecorder startupRecoveryDurationSeconds =
     \<lparr>iname = ''redis_mutex_startup_recovery_duration_seconds'', ikind = HistogramVec, ilabels = [''stream'']\<rparr>"
| "NewPrometheusRecorder streamProcessingDurationSeconds =
     \<lparr>iname = ''redis_mutex_stream_processing_duration_seconds'', ikind = HistogramVec, ilabels = [''stream'']\<rparr>"
| "NewPrometheusRecorder kspNotificationTotal =
     \<lparr>iname = ''redis_mutex_ksp_notification_total'', ikind = CounterVec, ilabels = [''stream'']\<rparr>"
| "NewPrometheusRecorder kspNotificationDroppedTotal =
     \<lparr>iname = ''redis_mutex_ksp_notification_dropped_total'', ikind = Counter, ilabels = []\<rparr>"
| "NewPrometheusRecorder reconciliationScanTotal =
     \<lparr>iname = ''redis_reconciliation_scan_total'', ikind = Counter, ilabels = []\<rparr>"
| "NewPrometheusRecorder reconciliationScanDuration =
     \<lparr>iname = ''redis_reconciliation_scan_duration_seconds'', ikind = Histogram, ilabels = []\<rparr>"
| "NewPrometheusRecorder reconciliationRequeuedTotal =
     \<lparr>iname = ''redis_reconciliation_requeued_total'', ikind = Counter, ilabels = []\<rparr>"
| "NewPrometheusRecorder reconciliationSkippedAliveTotal =
     \<lparr>iname = ''redis_reconciliation_skipped_alive_total'', ikind = Counter, ilabels = []\<rparr>"
| "NewPrometheusRecorder reconciliationDLQRoutedTotal =
     \<lparr>iname = ''redis_reconciliation_dlq_routed_total'', ikind = Counter, ilabels = []\<rparr>"
| "NewPrometheusRecorder requeueTotal =
     \<lparr>iname = ''redis_requeue_total'', ikind = CounterVec, ilabels = [''stream'', ''success'']\<rparr>"
| "NewPrometheusRecorder dlqRoutingTotal =
     \<lparr>iname = ''redis_dlq_routing_total'', ikind = CounterVec, ilabels = [''stream'']\<rparr>"
| "NewPrometheusRecorder mutexAliveSkipTotal =
     \<lparr>iname = ''redis_mutex_alive_skip_total'', ikind = CounterVec, ilabels = [''stream'']\<rparr>"
| "NewPrometheusRecorder ackAddGapTotal =
     \<lparr>iname = ''redis_ack_add_gap_total'', ikind = CounterVec, ilabels = [''stream'']\<rparr>"
| "NewPrometheusRecorder topologyReinitTotal =
     \<lparr>iname = ''redis_topology_reinit_total'', ikind = CounterVec, ilabels = [''success'']\<rparr>"
| "NewPrometheusRecorder masterKeyspaceSetupTotal =
     \<lparr>iname = ''redis_master_keyspace_setup_total'', ikind = CounterVec, ilabels = [''success'']\<rparr>"

definition allFields :: "field list" where
  "allFields = [claimTotal, claimDurationSeconds, lockExtensionTotal, lockReleaseTotal, startupRecoveryTotal, startupRecoveryDurationSeconds, streamProcessingDurationSeconds, kspNotificationTotal, kspNotificationDroppedTotal, reconciliationScanTotal, reconciliationScanDuration, reconciliationRequeuedTotal, reconciliationSkippedAliveTotal, reconciliationDLQRoutedTotal, requeueTotal, dlqRoutingTotal, mutexAliveSkipTotal, ackAddGapTotal, topologyReinitTotal, masterKeyspaceSetupTotal]"

text \<open>A call on an instrument. Observed durations are in nanoseconds (the code converts to seconds).\<close>

datatype metricOp = Inc field "string list" | Observe field "string list" int | Add field int

definition labelled :: "kind \<Rightarrow> kind \<Rightarrow> field \<Rightarrow> string list \<Rightarrow> bool" where
  "labelled vec plain f ls =
     (let i = NewPrometheusRecorder f in
      ikind i = vec \<and> length ls = length (ilabels i) \<or> ikind i = plain \<and> ls = [])"

fun op_ok :: "metricOp \<Rightarrow> bool" where
  "op_ok (Inc f ls) = labelled CounterVec Counter f ls"
| "op_ok (Observe f ls d) = labelled HistogramVec Histogram f ls"
| "op_ok (Add f n) = (ikind (NewPrometheusRecorder f) = Counter \<and> 0 \<le> n)"

section \<open>Recorders\<close>

definition FormatBool :: "bool \<Rightarrow> string" where
  "FormatBool b = (if b then ''true'' else ''false'')"

text \<open>The recorder's own state is \<open>streamStarts\<close>, a map that is nil until first written.\<close>

type_synonym starts = "(string \<rightharpoonup> int) option"

definition startOf :: "starts \<Rightarrow> string \<Rightarrow> int option" where
  "startOf st streamName = (case st of None \<Rightarrow> None | Some m \<Rightarrow> m streamName)"

fun PrometheusRecorder :: "metric \<Rightarrow> starts \<Rightarrow> metricOp list \<times> starts" where
  "PrometheusRecorder (RecordClaimAttempt streamName success duration) st =
     ([Inc claimTotal [streamName, FormatBool success], Observe claimDurationSeconds [streamName] duration], st)"
| "PrometheusRecorder (RecordLockAcquisitionAttempt streamName success duration) st =
     ([Inc startupRecoveryTotal [FormatBool success],
       Observe startupRecoveryDurationSeconds [streamName] duration], st)"
| "PrometheusRecorder (RecordLockExtensionAttempt streamName success) st =
     ([Inc lockExtensionTotal [streamName, FormatBool success]], st)"
| "PrometheusRecorder (RecordLockReleaseAttempt streamName success) st =
     ([Inc lockReleaseTotal [streamName, FormatBool success]], st)"
| "PrometheusRecorder (RecordStartupRecovery success unackedCount duration) st =
     ([Inc startupRecoveryTotal [FormatBool success],
       Observe startupRecoveryDurationSeconds [''''] duration], st)"
| "PrometheusRecorder (RecordStreamProcessingStart streamName start) st =
     (let m = (case st of None \<Rightarrow> Map.empty | Some m \<Rightarrow> m) in ([], Some (m(streamName \<mapsto> start))))"
| "PrometheusRecorder (RecordStreamProcessingEnd streamName endTime) st =
     (case startOf st streamName of
        Some start \<Rightarrow>
          ([Observe streamProcessingDurationSeconds [streamName] (endTime - start)],
           map_option (\<lambda>m. m(streamName := None)) st)
      | None \<Rightarrow> ([], st))"
| "PrometheusRecorder (RecordKspNotification streamName) st =
     ([Inc kspNotificationTotal [streamName]], st)"
| "PrometheusRecorder RecordKspNotificationDropped st = ([Inc kspNotificationDroppedTotal []], st)"
| "PrometheusRecorder (RecordReconciliationScan nRequeued nSkipped nRouted duration) st =
     ([Inc reconciliationScanTotal [], Observe reconciliationScanDuration [] duration,
       Add reconciliationRequeuedTotal nRequeued, Add reconciliationSkippedAliveTotal nSkipped,
       Add reconciliationDLQRoutedTotal nRouted], st)"
| "PrometheusRecorder (RecordReQueue streamName success) st =
     ([Inc requeueTotal [streamName, FormatBool success]], st)"
| "PrometheusRecorder (RecordDLQRouting streamName) st = ([Inc dlqRoutingTotal [streamName]], st)"
| "PrometheusRecorder (RecordMutexAliveSkip streamName) st =
     ([Inc mutexAliveSkipTotal [streamName]], st)"
| "PrometheusRecorder (RecordAckAddGap streamName) st = ([Inc ackAddGapTotal [streamName]], st)"
| "PrometheusRecorder (RecordTopologyReinit success) st =
     ([Inc topologyReinitTotal [FormatBool success]], st)"
| "PrometheusRecorder (RecordMasterKeyspaceSetup success) st =
     ([Inc masterKeyspaceSetupTotal [FormatBool success]], st)"

definition NoopRecorder :: "metric \<Rightarrow> starts \<Rightarrow> metricOp list \<times> starts" where
  "NoopRecorder m st = ([], st)"

text \<open>A sequence of interface calls on one recorder.\<close>

fun recordAll :: "(metric \<Rightarrow> 's \<Rightarrow> metricOp list \<times> 's) \<Rightarrow> metric list \<Rightarrow> 's \<Rightarrow> metricOp list \<times> 's" where
  "recordAll sink [] st = ([], st)"
| "recordAll sink (m # ms) st =
     (let (ops, st1) = sink m st; (ops', st2) = recordAll sink ms st1 in (ops @ ops', st2))"

lemma recordAll_append:
  "recordAll sink (ms @ ns) st =
     (let (ops, st1) = recordAll sink ms st; (ops', st2) = recordAll sink ns st1 in (ops @ ops', st2))"
  by (induction ms arbitrary: st) (simp_all add: Let_def case_prod_beta)

section \<open>Recorders do not panic\<close>

text \<open>
  The contract a client relies on: whatever it reports, with counts that are not negative, the calls
  the recorder makes are allowed.
\<close>

fun counts_ok :: "metric \<Rightarrow> bool" where
  "counts_ok (RecordReconciliationScan a b c d) = (0 \<le> a \<and> 0 \<le> b \<and> 0 \<le> c)"
| "counts_ok _ = True"

locale metrics_sink =
  fixes sink :: "metric \<Rightarrow> 's \<Rightarrow> metricOp list \<times> 's"
  assumes sink_ok: "counts_ok m \<Longrightarrow> list_all op_ok (fst (sink m st))"
begin

lemma recordAll_ok: "list_all counts_ok ms \<Longrightarrow> list_all op_ok (fst (recordAll sink ms st))"
  by (induction ms arbitrary: st) (simp_all add: Let_def case_prod_beta sink_ok)

end

interpretation prometheus: metrics_sink PrometheusRecorder
proof
  fix m st
  assume "counts_ok m"
  then show "list_all op_ok (fst (PrometheusRecorder m st))"
    by (cases m) (auto simp: labelled_def Let_def split: option.splits)
qed

interpretation noop: metrics_sink NoopRecorder
  by unfold_locales (simp add: NoopRecorder_def)

text \<open>What a log reports, in order.\<close>

fun reported :: "log \<Rightarrow> metric list" where
  "reported [] = []"
| "reported ((EMetric m, x) # tr) = m # reported tr"
| "reported (_ # tr) = reported tr"

lemma reported_iff: "m \<in> set (reported tr) \<longleftrightarrow> (\<exists>x. (EMetric m, x) \<in> set tr)"
  by (induction tr rule: reported.induct) auto

lemma instrument_names_distinct: "distinct (map (\<lambda>f. iname (NewPrometheusRecorder f)) allFields)"
  by code_simp

lemma allFields_all: "f \<in> set allFields"
  by (cases f) (simp_all add: allFields_def)

section \<open>Properties\<close>

text \<open>
  C35. Reporting a scan never brings the client down: the metrics of any run of \<open>reconcileLBS\<close>, handed to
  the Prometheus recorder in whatever state it is, only lead to calls its instruments allow, with
  the number of label values each was created with and without a negative addition.
\<close>

theorem scan_metrics_do_not_panic:
  assumes "DLQStream (recoveryConfig r) \<noteq> []" and "path (reconcileLBS r startup) tr u"
  shows "list_all op_ok (fst (recordAll PrometheusRecorder (reported tr) st))"
proof (rule prometheus.recordAll_ok)
  have "counts_ok m" if "m \<in> set (reported tr)" for m
  proof (cases m)
    case (RecordReconciliationScan a b c d)
    with that obtain x where "(EMetric (RecordReconciliationScan a b c d), x) \<in> set tr"
      by (auto simp: reported_iff)
    from scan_reports_calls [OF assms this] show ?thesis by (simp add: RecordReconciliationScan calls_def)
  qed simp_all
  then show "list_all counts_ok (reported tr)" by (simp add: list_all_iff)
qed

theorem scan_metrics_do_not_panic_witness:
  "reported scanLog = [RecordReQueue ''s1'' True, RecordMutexAliveSkip ''s1'', RecordReconciliationScan 1 1 0 9]
   \<and> list_all op_ok (fst (recordAll PrometheusRecorder (reported scanLog) None))"
  using scan_metrics_do_not_panic [OF _ scanLog_path] by (simp add: scanLog_def)

fun about_stream :: "string \<Rightarrow> metric \<Rightarrow> bool" where
  "about_stream s (RecordStreamProcessingStart n t) = (n = s)"
| "about_stream s (RecordStreamProcessingEnd n t) = (n = s)"
| "about_stream s _ = False"

lemma recordAll_keeps_start:
  "list_all (\<lambda>m. \<not> about_stream s m) ms \<Longrightarrow> startOf (snd (recordAll PrometheusRecorder ms st)) s = startOf st s"
proof (induction ms arbitrary: st)
  case (Cons m ms)
  then have "startOf (snd (PrometheusRecorder m st)) s = startOf st s"
    by (cases m) (auto simp: startOf_def Let_def split: option.splits)
  with Cons show ?case by (simp add: Let_def case_prod_beta)
qed simp

text \<open>
  The processing time of a stream. Between the report that processing started and the report that
  it ended, whatever is reported about other streams and other events, the recorder remembers the
  start: at the end it observes exactly the elapsed time for this stream, and then forgets it, so a
  second end observes nothing.
\<close>

lemma processing_time_observed:
  assumes "list_all (\<lambda>m. \<not> about_stream s m) ms"
  shows "let st1 = snd (recordAll PrometheusRecorder (RecordStreamProcessingStart s t0 # ms) st);
             (ops, st2) = PrometheusRecorder (RecordStreamProcessingEnd s t1) st1
         in ops = [Observe streamProcessingDurationSeconds [s] (t1 - t0)]
            \<and> fst (PrometheusRecorder (RecordStreamProcessingEnd s t2) st2) = []"
proof -
  define st1 where "st1 = snd (recordAll PrometheusRecorder (RecordStreamProcessingStart s t0 # ms) st)"
  have "startOf st1 s = Some t0"
    unfolding st1_def using recordAll_keeps_start [OF assms]
    by (simp add: Let_def case_prod_beta) (simp add: startOf_def)
  then show ?thesis
    unfolding st1_def [symmetric]
    by (auto simp: Let_def startOf_def split: option.splits)
qed

lemma processing_time_observed_example:
  "fst (PrometheusRecorder (RecordStreamProcessingEnd ''s1'' 9)
     (snd (recordAll PrometheusRecorder
        [RecordStreamProcessingStart ''s1'' 2, RecordLockExtensionAttempt ''s1'' True] None)))
   = [Observe streamProcessingDurationSeconds [''s1''] 7]"
  using processing_time_observed [of "''s1''" "[RecordLockExtensionAttempt ''s1'' True]" 2 None 9]
  by (simp add: Let_def case_prod_beta)

end
