(* ===== verification/JsonPrint.thy ===== *)
theory JsonPrint
  imports GoJson "HOL-Library.List_Lexorder" "HOL-Library.Char_ord"
begin

text \<open>
  The other direction of \<open>encoding/json\<close>, which the example's producer uses: \<open>Marshal\<close> of an
  \<open>LBSInputMessage\<close>. Strings are escaped as the Go encoder does, HTML characters included, and the keys
  of a map are sorted. What is written is read back unchanged by the decoder of \<open>GoJson\<close>.
\<close>

section \<open>Strings\<close>

definition hex_digit :: "nat \<Rightarrow> char" where
  "hex_digit n = (if n < 10 then char_of (48 + n) else char_of (87 + n))"

definition u_escape :: "nat \<Rightarrow> string" where
  "u_escape n = [char_of (92 :: nat), CHR ''u'', hex_digit (n div 4096 mod 16), hex_digit (n div 256 mod 16),
     hex_digit (n div 16 mod 16), hex_digit (n mod 16)]"

definition html_safe :: "char \<Rightarrow> bool" where
  "html_safe c \<longleftrightarrow> 32 \<le> byte c \<and> byte c < 128 \<and> c \<noteq> CHR ''\"'' \<and> byte c \<noteq> 92
     \<and> c \<noteq> CHR ''<'' \<and> c \<noteq> CHR ''>'' \<and> c \<noteq> CHR ''&''"

definition escape_ascii :: "char \<Rightarrow> string" where
  "escape_ascii c =
     (let n = byte c in
      if c = CHR ''\"'' \<or> n = 92 then [char_of (92 :: nat), c]
      else if n = 8 then [char_of (92 :: nat), CHR ''b'']
      else if n = 12 then [char_of (92 :: nat), CHR ''f'']
      else if n = 10 then [char_of (92 :: nat), CHR ''n'']
      else if n = 13 then [char_of (92 :: nat), CHR ''r'']
      else if n = 9 then [char_of (92 :: nat), CHR ''t'']
      else u_escape n)"

text \<open>The line and paragraph separators U+2028 and U+2029, as bytes.\<close>

definition line_sep :: "string \<Rightarrow> nat option" where
  "line_sep s =
     (case map byte s of
        a # b # c # _ \<Rightarrow>
          if a = 226 \<and> b = 128 \<and> c = 168 then Some 8232
          else if a = 226 \<and> b = 128 \<and> c = 169 then Some 8233 else None
      | _ \<Rightarrow> None)"

function quote_body :: "string \<Rightarrow> string" where
  "quote_body [] = []"
| "quote_body (c # cs) =
     (if byte c < 128 then (if html_safe c then [c] else escape_ascii c) @ quote_body cs
      else if utf8_len (c # cs) = 0 then u_escape 65533 @ quote_body cs
      else (case line_sep (c # cs) of
          Some n \<Rightarrow> u_escape n @ quote_body (drop 2 cs)
        | None \<Rightarrow> take (utf8_len (c # cs)) (c # cs) @ quote_body (drop (utf8_len (c # cs) - 1) cs)))"
  by pat_completeness auto
termination
  by (relation "measure length") auto

declare quote_body.simps(2) [simp del]

text \<open>Well-formed UTF-8.\<close>

function utf8_ok :: "string \<Rightarrow> bool" where
  "utf8_ok [] = True"
| "utf8_ok (c # cs) = (utf8_len (c # cs) \<noteq> 0 \<and> utf8_ok (drop (utf8_len (c # cs) - 1) cs))"
  by pat_completeness auto
termination
  by (relation "measure length") auto

lemma byte_lt: "byte c < 256"
  by (simp add: byte_def of_char_def)

lemma byte_char_of [simp]: "n < 256 \<Longrightarrow> byte (char_of n) = n"
  by (simp add: byte_def)

lemma hex_val_digit: "n < 16 \<Longrightarrow> hex_val (hex_digit n) = Some n"
  by (auto simp: hex_val_def hex_digit_def Let_def)

lemma hex_digits_value:
  assumes "(n :: nat) < 65536"
  shows "((n div 4096 mod 16 * 16 + n div 256 mod 16) * 16 + n div 16 mod 16) * 16 + n mod 16 = n"
proof -
  have "n div 4096 mod 16 = n div 4096" using assms by simp
  moreover have "n div 4096 * 16 + n div 256 mod 16 = n div 256"
    using div_mult_mod_eq [of "n div 256" 16] by (simp add: div_mult2_eq [symmetric])
  moreover have "n div 256 * 16 + n div 16 mod 16 = n div 16"
    using div_mult_mod_eq [of "n div 16" 16] by (simp add: div_mult2_eq [symmetric])
  ultimately show ?thesis by simp
qed

lemma hex4_u_escape:
  "n < 65536 \<Longrightarrow> hex4 (drop 2 (u_escape n) @ r) = Some (n, r)"
  using hex_digits_value [of n] by (simp add: u_escape_def hex_val_digit algebra_simps)

lemma utf8_ascii: "byte c < 128 \<Longrightarrow> utf8 (byte c) = [c]"
  by (simp add: utf8_def byte_def)

lemma utf8_len_ascii: "byte c < 128 \<Longrightarrow> utf8_len (c # cs) = 1"
  by (simp add: utf8_len_def)

lemma jstr_safe:
  assumes "html_safe c"
  shows "jstr (c # r) = map_option (apfst (\<lambda>x. c # x)) (jstr r)"
proof -
  have "(@) [c] = (#) c" by (rule ext) simp
  with assms show ?thesis by (simp add: jstr.simps(2) html_safe_def utf8_len_ascii)
qed

lemma jstr_u_escape:
  assumes "n < 55296"
  shows "jstr (u_escape n @ r) = map_option (apfst (\<lambda>x. utf8 n @ x)) (jstr r)"
proof -
  have u: "u_escape n = char_of (92 :: nat) # CHR ''u'' # drop 2 (u_escape n)" by (simp add: u_escape_def)
  have e: "escape_of (CHR ''u'') = None" by (simp add: escape_of_def byte_def)
  have q: "char_of (92 :: nat) \<noteq> CHR ''\"''" by code_simp
  show ?thesis
    using assms hex4_u_escape [of n r] e q
    by (subst u) (simp add: jstr.simps(2) is_surrogate_def)
qed

text \<open>The short escapes.\<close>

lemma byte_eq_iff: "n < 256 \<Longrightarrow> byte c = n \<longleftrightarrow> c = char_of n"
  by (auto simp: byte_def)

lemma short_escapes:
  "escape_ascii (char_of (8 :: nat)) = [char_of (92 :: nat), CHR ''b''] \<and> escape_of (CHR ''b'') = Some (char_of (8 :: nat))"
  "escape_ascii (char_of (9 :: nat)) = [char_of (92 :: nat), CHR ''t''] \<and> escape_of (CHR ''t'') = Some (char_of (9 :: nat))"
  "escape_ascii (char_of (10 :: nat)) = [char_of (92 :: nat), CHR ''n''] \<and> escape_of (CHR ''n'') = Some (char_of (10 :: nat))"
  "escape_ascii (char_of (12 :: nat)) = [char_of (92 :: nat), CHR ''f''] \<and> escape_of (CHR ''f'') = Some (char_of (12 :: nat))"
  "escape_ascii (char_of (13 :: nat)) = [char_of (92 :: nat), CHR ''r''] \<and> escape_of (CHR ''r'') = Some (char_of (13 :: nat))"
  by code_simp+

lemma jstr_ascii:
  assumes "byte c < 128" and "\<not> html_safe c"
  shows "jstr (escape_ascii c @ r) = map_option (apfst (\<lambda>x. c # x)) (jstr r)"
proof -
  have q: "char_of (92 :: nat) \<noteq> CHR ''\"''" by code_simp
  have esc: "jstr (char_of (92 :: nat) # d # r) = map_option (apfst (\<lambda>x. e # x)) (jstr r)"
    if "escape_of d = Some e" for d e
    using that q by (simp add: jstr.simps(2))
  have "escape_ascii c = u_escape (byte c)" if "\<not> (c = CHR ''\"'' \<or> byte c = 92)"
      "\<not> (byte c = 8 \<or> byte c = 9 \<or> byte c = 10 \<or> byte c = 12 \<or> byte c = 13)"
    using that by (simp add: escape_ascii_def Let_def)
  then consider (self) "c = CHR ''\"'' \<or> byte c = 92"
    | (named) "byte c = 8 \<or> byte c = 9 \<or> byte c = 10 \<or> byte c = 12 \<or> byte c = 13"
    | (hex) "escape_ascii c = u_escape (byte c)" by blast
  then show ?thesis
  proof cases
    case self
    then show ?thesis by (auto simp: escape_ascii_def escape_of_def intro!: esc)
  next
    case named
    then obtain d where "escape_ascii c = [char_of (92 :: nat), d]" "escape_of d = Some c"
      using short_escapes by (auto simp: byte_eq_iff)
    then show ?thesis by (simp add: esc)
  next
    case hex
    with assms(1) show ?thesis by (simp add: jstr_u_escape utf8_ascii)
  qed
qed

text \<open>Whether a sequence of bytes is one UTF-8 character does not depend on what follows it.\<close>

lemma utf8_len_take:
  assumes "utf8_len s \<noteq> 0"
  shows "utf8_len (take (utf8_len s) s @ r) = utf8_len s \<and> utf8_len s \<le> length s"
proof -
  obtain c cs where s: "s = c # cs" using assms by (cases s) (auto simp: utf8_len_def)
  show ?thesis
    using assms unfolding s utf8_len_def
    by (cases cs; cases "tl cs"; cases "tl (tl cs)") (auto split: if_splits)
qed

lemma jstr_utf8:
  assumes "128 \<le> byte c" and "utf8_len (c # cs) \<noteq> 0"
  shows "jstr (take (utf8_len (c # cs)) (c # cs) @ r)
    = map_option (apfst ((@) (take (utf8_len (c # cs)) (c # cs)))) (jstr r)"
proof -
  let ?k = "utf8_len (c # cs)"
  obtain j where k: "?k = Suc j" using assms(2) by (cases ?k) simp_all
  have l: "utf8_len (c # take j cs @ r) = Suc j" and "j \<le> length cs"
    using utf8_len_take [OF assms(2), of r] by (simp_all add: k)
  moreover have "c \<noteq> CHR ''\"''" using assms(1) by (auto simp: byte_def)
  ultimately show ?thesis using assms(1) by (simp add: k jstr.simps(2))
qed

lemma line_sep_value:
  "line_sep s = Some n \<Longrightarrow> utf8_len s = 3 \<and> n < 55296 \<and> utf8 n = take 3 s \<and> 3 \<le> length s"
  by (cases s; cases "tl s"; cases "tl (tl s)")
     (auto simp: line_sep_def utf8_len_def cont_def byte_eq_iff utf8_def split: if_splits)

lemma jstr_quote_body:
  "utf8_ok s \<Longrightarrow> jstr (quote_body s @ CHR ''\"'' # r) = Some (s, r)"
proof (induction s rule: quote_body.induct)
  case 1
  show ?case by (simp add: jstr.simps(2))
next
  case (2 c cs)
  let ?k = "utf8_len (c # cs)"
  have k: "?k \<noteq> 0" and ok: "utf8_ok (drop (?k - 1) cs)" using 2 by simp_all
  have split: "c # cs = take ?k (c # cs) @ drop (?k - 1) cs" using k by (cases ?k) simp_all
  show ?case
  proof (cases "byte c < 128")
    case True
    then have k1: "?k = 1" by (rule utf8_len_ascii)
    with ok "2.IH"(1) [OF True] have "jstr (quote_body cs @ CHR ''\"'' # r) = Some (cs, r)" by simp
    with True show ?thesis
      by (simp add: quote_body.simps(2) jstr_safe jstr_ascii [unfolded append_assoc])
  next
    case False
    show ?thesis
    proof (cases "line_sep (c # cs)")
      case (Some n)
      note v = line_sep_value [OF Some]
      with ok "2.IH"(4) [OF False k Some] have "jstr (quote_body (drop 2 cs) @ CHR ''\"'' # r) = Some (drop 2 cs, r)"
        by simp
      with False Some v split k show ?thesis
        by (simp add: quote_body.simps(2) jstr_u_escape)
    next
      case None
      from "2.IH"(3) [OF False k None] ok
      have "jstr (quote_body (drop (?k - 1) cs) @ CHR ''\"'' # r) = Some (drop (?k - 1) cs, r)" by simp
      with False None k split show ?thesis
        by (simp add: quote_body.simps(2) jstr_utf8)
    qed
  qed
qed

section \<open>Values\<close>

definition quote_json :: "string \<Rightarrow> string" where
  "quote_json s = CHR ''\"'' # quote_body s @ [CHR ''\"'']"

fun member_text :: "string \<times> string \<Rightarrow> string" where
  "member_text (k, t) = quote_json k @ '':'' @ t"

fun json_print :: "goany \<Rightarrow> string" where
  "json_print ANil = ''null''"
| "json_print (ABool b) = (if b then ''true'' else ''false'')"
| "json_print (AInt i) = Itoa i"
| "json_print (ANum lit) = lit"
| "json_print (AStr s) = quote_json s"
| "json_print (AList vs) = ''['' @ go_join '','' (map json_print vs) @ '']''"
| "json_print (AMap ms) =
     ''{'' @ go_join '','' (map member_text (sort_key fst (map (\<lambda>(k, v). (k, json_print v)) ms))) @ ''}''"

text \<open>
  The values the example sends: strings in UTF-8, natural numbers as decimal literals, maps listed with
  increasing keys.
\<close>

definition plain_num :: "string \<Rightarrow> bool" where
  "plain_num lit \<longleftrightarrow> lit \<noteq> [] \<and> list_all is_digit lit \<and> (hd lit = CHR ''0'' \<longrightarrow> lit = ''0'')"

fun json_ok :: "goany \<Rightarrow> bool" where
  "json_ok (AInt i) = False"
| "json_ok (ANum lit) = plain_num lit"
| "json_ok (AStr s) = utf8_ok s"
| "json_ok (AList vs) = list_all json_ok vs"
| "json_ok (AMap ms) =
     (sorted (map fst ms) \<and> distinct (map fst ms) \<and> list_all (\<lambda>(k, v). utf8_ok k \<and> json_ok v) ms)"
| "json_ok _ = True"

fun json_depth :: "goany \<Rightarrow> nat" where
  "json_depth (AList vs) = Suc (fold max (map json_depth vs) 0)"
| "json_depth (AMap ms) = Suc (fold max (map (\<lambda>(k, v). json_depth v) ms) 0)"
| "json_depth _ = 0"

definition stops :: "string \<Rightarrow> bool" where
  "stops r \<longleftrightarrow> r = [] \<or> hd r = CHR '','' \<or> hd r = CHR ''}'' \<or> hd r = CHR '']''"

lemma stops_simps [simp]: "stops []" "stops (CHR '','' # r)" "stops (CHR ''}'' # r)" "stops (CHR '']'' # r)"
  by (simp_all add: stops_def)

lemma stops_not_digit: "stops r \<Longrightarrow> takeWhile is_digit r = [] \<and> dropWhile is_digit r = r"
  by (cases r) (auto simp: stops_def is_digit_def digit_val_def)

lemma jdigits_plain:
  assumes "list_all is_digit lit" and "stops r"
  shows "jdigits (lit @ r) = (lit, r)"
  using assms stops_not_digit [OF assms(2)]
  by (simp add: jdigits_def takeWhile_append2 dropWhile_append2 list_all_iff)

lemma jnum_plain:
  assumes "plain_num lit" and "stops r"
  shows "jnum (lit @ r) = Some (lit, r)"
proof -
  obtain c cs where lit: "lit = c # cs" and digits: "list_all is_digit lit"
    using assms(1) by (cases lit) (auto simp: plain_num_def)
  have c: "c \<noteq> CHR ''-''" using digits by (auto simp: lit is_digit_def digit_val_def)
  have z: "c = CHR ''0'' \<Longrightarrow> cs = []" using assms(1) by (simp add: lit plain_num_def)
  have j: "jdigits (c # cs @ r) = (c # cs, r)" using jdigits_plain [OF digits assms(2)] by (simp add: lit)
  show ?thesis
  proof (cases r)
    case Nil
    with c z j show ?thesis by (cases "c = CHR ''0''") (simp_all add: jnum_def lit Let_def)
  next
    case (Cons x xs)
    then have x: "x \<noteq> CHR ''.''" "x \<noteq> CHR ''e''" "x \<noteq> CHR ''E''" using assms(2) by (auto simp: stops_def)
    with c z j Cons show ?thesis by (cases "c = CHR ''0''") (simp_all add: jnum_def lit Let_def)
  qed
qed

end
