(* ===== verification/JsonRound.thy ===== *)
theory JsonRound
  imports JsonPrint
begin

text \<open>
  Reading back what was written: the decoder of \<open>GoJson\<close> inverts the encoder of \<open>JsonPrint\<close>.
\<close>

section \<open>White space\<close>

lemma skip_ws_id: "\<not> is_ws c \<Longrightarrow> skip_ws (c # cs) = c # cs"
  by (simp add: skip_ws_def)

lemma not_ws [simp]: "\<not> is_ws (CHR ''\"'')" "\<not> is_ws (CHR ''{'')" "\<not> is_ws (CHR ''['')" "\<not> is_ws (CHR '':'')"
    "\<not> is_ws (CHR '','')" "\<not> is_ws (CHR ''}'')" "\<not> is_ws (CHR '']'')" "\<not> is_ws (CHR ''n'')" "\<not> is_ws (CHR ''t'')"
    "\<not> is_ws (CHR ''f'')"
  by code_simp+

lemmas skip_simps = skip_ws_id [OF not_ws(1)] skip_ws_id [OF not_ws(2)] skip_ws_id [OF not_ws(3)]
  skip_ws_id [OF not_ws(4)] skip_ws_id [OF not_ws(5)] skip_ws_id [OF not_ws(6)] skip_ws_id [OF not_ws(7)]
  skip_ws_id [OF not_ws(8)] skip_ws_id [OF not_ws(9)] skip_ws_id [OF not_ws(10)]

lemma ws_not_digit: "is_ws c \<Longrightarrow> \<not> is_digit c"
proof -
  have "\<not> is_digit (char_of (n :: nat))" if "n \<in> {32, 9, 10, 13}" for n
    using that by (elim insertE emptyE; hypsubst; code_simp)
  then show "is_ws c \<Longrightarrow> \<not> is_digit c" by (auto simp: is_ws_def byte_eq_iff)
qed

lemma digit_facts:
  assumes "is_digit c"
  shows "\<not> is_ws c" "c \<noteq> CHR ''\"''" "c \<noteq> CHR ''{''" "c \<noteq> CHR ''[''" "c \<noteq> CHR ''t''" "c \<noteq> CHR ''f''" "c \<noteq> CHR ''n''"
  using assms ws_not_digit by (auto simp: is_digit_def digit_val_def)

section \<open>Scalars\<close>

lemma jvalue_str: "utf8_ok s \<Longrightarrow> jvalue (Suc f) d (quote_json s @ r) = Some (AStr s, r)"
  by (simp add: quote_json_def skip_simps jstr_quote_body)

lemma jvalue_num:
  assumes "plain_num lit" and "stops r"
  shows "jvalue (Suc f) d (lit @ r) = Some (ANum lit, r)"
proof -
  obtain c cs where lit: "lit = c # cs" "is_digit c" using assms(1) by (cases lit) (auto simp: plain_num_def)
  then show ?thesis
    using jnum_plain [OF assms] digit_facts [OF lit(2)] by (simp add: skip_ws_id)
qed

section \<open>Lists and maps\<close>

text \<open>Reading back one value, as the induction hypothesis of the parts.\<close>

definition reads_back :: "nat \<Rightarrow> goany \<Rightarrow> bool" where
  "reads_back d v \<longleftrightarrow> (\<forall>f r. stops r \<longrightarrow> 2 * length (json_print v) \<le> f \<longrightarrow>
     jvalue f d (json_print v @ r) = Some (v, r))"

lemma reads_backI:
  assumes "\<And>g r. stops r \<Longrightarrow> jvalue (Suc g) d (json_print v @ r) = Some (v, r)" and "json_print v \<noteq> []"
  shows "reads_back d v"
  unfolding reads_back_def
proof (intro allI impI)
  fix f r
  assume r: "stops r" and "2 * length (json_print v) \<le> f"
  with assms(2) obtain g where "f = Suc g" by (cases f) simp_all
  with assms(1) [OF r] show "jvalue f d (json_print v @ r) = Some (v, r)" by simp
qed

lemma reads_backD:
  "reads_back d v \<Longrightarrow> stops r \<Longrightarrow> 2 * length (json_print v) \<le> f \<Longrightarrow> jvalue f d (json_print v @ r) = Some (v, r)"
  by (simp add: reads_back_def del: jvalue.simps)

lemma scalar_reads_back:
  "plain_num lit \<Longrightarrow> reads_back d (ANum lit)"
  "utf8_ok s \<Longrightarrow> reads_back d (AStr s)"
  "reads_back d (ABool b)"
  "reads_back d ANil"
     apply (rule reads_backI; simp add: jvalue_num del: jvalue.simps; simp add: plain_num_def)
    apply (rule reads_backI; simp add: jvalue_str del: jvalue.simps; simp add: quote_json_def)
   apply (rule reads_backI; cases b; simp add: skip_simps)
  apply (rule reads_backI; simp add: skip_simps)
  done

lemma jelems_print:
  assumes "vs \<noteq> []" and "\<forall>v \<in> set vs. reads_back d v"
    and "2 * length (go_join '','' (map json_print vs)) < f"
  shows "jelems f d (go_join '','' (map json_print vs) @ CHR '']'' # r) = Some (vs, r)"
  using assms
proof (induction vs arbitrary: f rule: induct_list012)
  case (2 v)
  then obtain g where f: "f = Suc g" by (cases f) simp_all
  have "jvalue g d (json_print v @ CHR '']'' # r) = Some (v, CHR '']'' # r)"
    using 2 by (simp add: reads_back_def f)
  then show ?case by (simp add: f skip_simps)
next
  case (3 v w vs)
  then obtain g where f: "f = Suc g" by (cases f) simp_all
  let ?rest = "go_join '','' (map json_print (w # vs)) @ CHR '']'' # r"
  have "jvalue g d (json_print v @ CHR '','' # ?rest) = Some (v, CHR '','' # ?rest)"
    using 3 by (simp add: reads_back_def f)
  moreover have "jelems g d ?rest = Some (w # vs, r)" using 3 by (intro "3.IH"(2)) (simp_all add: f)
  ultimately show ?case by (simp add: f skip_simps)
qed simp

lemma jmembers_print:
  assumes "ms \<noteq> []" and "\<forall>(k, v) \<in> set ms. utf8_ok k \<and> reads_back d v"
    and "2 * length (go_join '','' (map (\<lambda>(k, v). member_text (k, json_print v)) ms)) < f"
  shows "jmembers f d (go_join '','' (map (\<lambda>(k, v). member_text (k, json_print v)) ms) @ CHR ''}'' # r) = Some (ms, r)"
  using assms
proof (induction ms arbitrary: f rule: induct_list012)
  case (2 kv)
  obtain k v where kv: "kv = (k, v)" by (cases kv)
  with 2 obtain g where f: "f = Suc g" by (cases f) simp_all
  have "jvalue g d (json_print v @ CHR ''}'' # r) = Some (v, CHR ''}'' # r)"
    using 2 by (simp add: reads_back_def f kv)
  moreover have "utf8_ok k" using 2 by (simp add: kv)
  ultimately show ?case by (simp add: f kv quote_json_def skip_simps jstr_quote_body)
next
  case (3 kv kw ms)
  obtain k v where kv: "kv = (k, v)" by (cases kv)
  with 3 obtain g where f: "f = Suc g" by (cases f) simp_all
  let ?rest = "go_join '','' (map (\<lambda>(k, v). member_text (k, json_print v)) (kw # ms)) @ CHR ''}'' # r"
  have "jvalue g d (json_print v @ CHR '','' # ?rest) = Some (v, CHR '','' # ?rest)"
    using 3 by (simp add: reads_back_def f kv)
  moreover have "jmembers g d ?rest = Some (kw # ms, r)" using 3 by (intro "3.IH"(2)) (simp_all add: f kv)
  moreover have "utf8_ok k" using 3 by (simp add: kv)
  ultimately show ?case by (simp add: f kv quote_json_def skip_simps jstr_quote_body)
qed simp

section \<open>The round trip\<close>

lemma json_print_map:
  assumes "sorted (map fst ms)"
  shows "json_print (AMap ms) =
     ''{'' @ go_join '','' (map (\<lambda>(k, v). member_text (k, json_print v)) ms) @ ''}''"
proof -
  have "sort_key fst (map (\<lambda>p. (fst p, json_print (snd p))) ms) = map (\<lambda>p. (fst p, json_print (snd p))) ms"
    using assms by (intro sort_key_id_if_sorted) (simp add: comp_def)
  then show ?thesis by (simp add: comp_def case_prod_unfold)
qed

lemma fold_max_ge: "x \<in> set xs \<Longrightarrow> x \<le> fold max xs (a :: nat)"
proof -
  have "fold max xs a \<le> n \<longleftrightarrow> a \<le> n \<and> (\<forall>x \<in> set xs. x \<le> n)" for n
    by (induction xs arbitrary: a) auto
  then show "x \<in> set xs \<Longrightarrow> x \<le> fold max xs a" by blast
qed

lemma json_depth_part:
  "v \<in> set vs \<Longrightarrow> json_depth v < json_depth (AList vs)"
  "(k, v) \<in> set ms \<Longrightarrow> json_depth v < json_depth (AMap ms)"
  by (force simp: less_Suc_eq_le intro!: fold_max_ge)+

text \<open>The text of a nonempty list or map starts with that of its first part.\<close>

lemma go_join_head: "\<exists>r. go_join sep (w # ws) = w @ r"
  by (cases ws) auto

lemma json_print_head: "json_ok v \<Longrightarrow> \<exists>c cs. json_print v = c # cs \<and> \<not> is_ws c \<and> c \<noteq> CHR '']''"
proof (cases v)
  case (ANum lit)
  assume "json_ok v"
  with ANum obtain c cs where "lit = c # cs" "is_digit c" by (cases lit) (auto simp: plain_num_def)
  with ANum show ?thesis
    using digit_facts(1) by (auto simp: is_digit_def digit_val_def)
qed (auto simp: quote_json_def)

lemma empty_brackets:
  "d < max_depth \<Longrightarrow> 4 \<le> f \<Longrightarrow> jvalue f d (CHR ''['' # CHR '']'' # r) = Some (AList [], r)"
  "d < max_depth \<Longrightarrow> 4 \<le> f \<Longrightarrow> jvalue f d (CHR ''{'' # CHR ''}'' # r) = Some (AMap [], r)"
  by (cases f; simp add: skip_simps)+

lemma json_reads_back: "json_ok v \<Longrightarrow> d + json_depth v \<le> max_depth \<Longrightarrow> reads_back d v"
proof (induction v arbitrary: d rule: json_ok.induct)
  case (4 vs)
  show ?case
  proof (cases vs)
    case Nil
    then show ?thesis
      using 4 empty_brackets(1) by (simp add: reads_back_def)
  next
    case (Cons v ws)
    have "\<forall>v \<in> set vs. reads_back (Suc d) v"
      using 4 json_depth_part(1) by (fastforce simp: list_all_iff simp del: json_depth.simps)
    then have e: "jelems f (Suc d) (go_join '','' (map json_print vs) @ CHR '']'' # r) = Some (vs, r)"
      if "2 * length (go_join '','' (map json_print vs)) < f" for f r
      using that Cons by (intro jelems_print) simp_all
    obtain c cs where h: "go_join '','' (map json_print vs) = c # cs" "\<not> is_ws c" "c \<noteq> CHR '']''"
      using json_print_head [of v] go_join_head [of "'',''" "json_print v" "map json_print ws"] 4 Cons by auto
    have "jvalue f d (json_print (AList vs) @ r) = Some (AList vs, r)"
      if f: "2 * length (json_print (AList vs)) \<le> f" for f r
    proof -
      from f obtain g where g: "f = Suc g" by (cases f) simp_all
      with f e [of g r] 4(3) show ?thesis by (simp add: h skip_simps skip_ws_id)
    qed
    then show ?thesis by (simp add: reads_back_def)
  qed
next
  case (5 ms)
  have p: "json_print (AMap ms) = ''{'' @ go_join '','' (map (\<lambda>(k, v). member_text (k, json_print v)) ms) @ ''}''"
    using 5 by (intro json_print_map) simp
  show ?case
  proof (cases ms)
    case Nil
    then show ?thesis
      using 5 empty_brackets(2) by (simp add: reads_back_def)
  next
    case (Cons kv ns)
    have "\<forall>(k, v) \<in> set ms. utf8_ok k \<and> reads_back (Suc d) v"
      using 5 json_depth_part(2) by (fastforce simp: list_all_iff simp del: json_depth.simps)
    then have e: "jmembers f (Suc d) (go_join '','' (map (\<lambda>(k, v). member_text (k, json_print v)) ms) @ CHR ''}'' # r)
        = Some (ms, r)"
      if "2 * length (go_join '','' (map (\<lambda>(k, v). member_text (k, json_print v)) ms)) < f" for f r
      using that Cons by (intro jmembers_print) simp_all
    obtain cs where h: "go_join '','' (map (\<lambda>(k, v). member_text (k, json_print v)) ms) = CHR ''\"'' # cs"
      using go_join_head [of "'',''" "(\<lambda>(k, v). member_text (k, json_print v)) kv"] Cons
      by (cases kv) (auto simp: quote_json_def)
    have "jvalue f d (json_print (AMap ms) @ r) = Some (AMap ms, r)"
      if f: "2 * length (json_print (AMap ms)) \<le> f" for f r
    proof -
      from f obtain g where g: "f = Suc g" by (cases f) (simp_all add: p)
      with f e [of g r] 5(3) show ?thesis
        by (simp add: p h skip_simps del: json_print.simps member_text.simps)
    qed
    then show ?thesis by (simp add: reads_back_def del: json_print.simps)
  qed
qed (simp_all add: scalar_reads_back)

lemma json_roundtrip:
  assumes "json_ok v" and "json_depth v \<le> max_depth"
  shows "json_parse (json_print v) = Some v"
proof -
  have "reads_back 0 v" using json_reads_back [OF assms(1), of 0] assms(2) by simp
  then have "jvalue (2 * length (json_print v) + 2) 0 (json_print v @ []) = Some (v, [])"
    by (rule reads_backD) simp_all
  then show ?thesis by (simp add: json_parse_def skip_ws_def del: jvalue.simps)
qed

section \<open>Messages\<close>

text \<open>\<open>json.Marshal\<close> of an \<open>LBSInputMessage\<close>.\<close>

definition Marshal :: "LBSInputMessage \<Rightarrow> string" where
  "Marshal msg = json_print (AMap [(''DataStreamName'', AStr (MsgDataStreamName msg)),
     (''Info'', case MsgInfo msg of None \<Rightarrow> ANil | Some ms \<Rightarrow> AMap ms)])"

text \<open>
  Values that decoding into \<open>interface{}\<close> leaves as they are: no number too large for a \<open>float64\<close>, no
  key twice.
\<close>

definition scalar_ok :: "goany \<Rightarrow> bool" where
  "scalar_ok v = (case v of AStr s \<Rightarrow> True | ANum lit \<Rightarrow> \<not> num_overflows lit | _ \<Rightarrow> False)"

lemma to_iface_scalar: "scalar_ok v \<Longrightarrow> to_iface v = (v, False)"
  by (cases v) (simp_all add: scalar_ok_def)

lemma fold_update_new:
  assumes "distinct (map fst ms)" and "set (map fst acc) \<inter> set (map fst ms) = {}"
  shows "fold (\<lambda>(k, v) m. AList.update k (fst v) m) (map (\<lambda>(k, v). (k, v, b)) ms) acc = acc @ ms"
  using assms
proof (induction ms arbitrary: acc)
  case (Cons kv ms)
  obtain k v where kv: "kv = (k, v)" by (cases kv)
  have "AList.update k v acc = acc @ [(k, v)]"
    using Cons.prems(2) by (induction acc) (auto simp: kv)
  with Cons show ?case by (auto simp: kv)
qed simp

lemma store_info:
  assumes "distinct (map fst ms)" and "\<forall>(k, v) \<in> set ms. scalar_ok v" and "MsgInfo msg = None"
  shows "store_member (''Info'', AMap ms) (msg, bad) = (msg\<lparr>MsgInfo := Some ms\<rparr>, bad)"
proof -
  have r: "map (\<lambda>(k, v). (k, to_iface v)) ms = map (\<lambda>(k, v). (k, v, False)) ms"
    using assms(2) by (auto simp: to_iface_scalar)
  have k: "\<not> key_matches ''DataStreamName'' ''Info''" "key_matches ''Info'' ''Info''" by code_simp+
  have "list_ex (\<lambda>(k, v). snd v) (map (\<lambda>(k, v). (k, v, False)) ms) = False"
    by (induction ms) auto
  with fold_update_new [OF assms(1), of "[]" False] assms(3) k show ?thesis
    by (simp add: store_member_def r)
qed

lemma Unmarshal_Marshal:
  assumes "utf8_ok (MsgDataStreamName msg)" and "MsgInfo msg = Some ms"
    and "json_ok (AMap ms)" and "\<forall>(k, v) \<in> set ms. scalar_ok v"
  shows "Unmarshal (Marshal msg) = Inr msg"
proof -
  let ?v = "AMap [(''DataStreamName'', AStr (MsgDataStreamName msg)), (''Info'', AMap ms)]"
  have keys: "sorted [''DataStreamName'', ''Info'']" "utf8_ok ''DataStreamName''" "utf8_ok ''Info''" by code_simp+
  have "json_depth v = 0" if "scalar_ok v" for v
    using that by (cases v) (simp_all add: scalar_ok_def)
  with assms(4) have "\<forall>(k, v) \<in> set ms. json_depth v = 0" by fast
  then have "fold max (map (\<lambda>(k, v). json_depth v) ms) 0 = (0 :: nat)" by (induction ms) auto
  then have d: "json_depth ?v \<le> max_depth" by (simp add: max_depth_def)
  have "json_parse (Marshal msg) = Some ?v"
    unfolding Marshal_def assms(2) option.case
    by (rule json_roundtrip [OF _ d]) (use assms keys in \<open>simp del: utf8_ok.simps\<close>)
  moreover have "store_member (''DataStreamName'', AStr (MsgDataStreamName msg)) (zero_msg, False)
      = (zero_msg\<lparr>MsgDataStreamName := MsgDataStreamName msg\<rparr>, False)"
    by (simp add: store_member_def key_matches_def)
  moreover have "store_member (''Info'', AMap ms) (zero_msg\<lparr>MsgDataStreamName := MsgDataStreamName msg\<rparr>, False)
      = (msg, False)"
    using assms by (subst store_info) (simp_all add: zero_msg_def)
  ultimately show ?thesis by (simp add: Unmarshal_def)
qed

end
