(* ===== verification/Settled.thy ===== *)
theory Settled
  imports Samples "HOL-Library.List_Lexorder" "HOL-Library.Char_ord" "HOL-Library.Multiset"
begin

text \<open>
  \<open>impl/settled.go\<close>: the check behind \<open>ReinitTopology\<close>. Strings are ordered as Go orders them,
  lexicographically by byte.
\<close>

section \<open>Reading one node's answers\<close>

record nodeReport =
  naddr :: addr
  nstate :: string
  nslots :: string
  nerr :: "goerror option"

fun infoField :: "string list \<Rightarrow> string \<Rightarrow> string" where
  "infoField [] key = ''''"
| "infoField (line # lines) key =
     (case CutPrefix (TrimSpace line) (key @ '':'') of
        Some v \<Rightarrow> v
      | None \<Rightarrow> infoField lines key)"

definition clusterInfoField :: "string \<Rightarrow> string \<Rightarrow> string" where
  "clusterInfoField info key = infoField (go_split [CHR 0x0A] info) key"

text \<open>The slot ranges of a line, without the bracketed markers, and the owner entry of a line.\<close>

definition lineSlots :: "string list \<Rightarrow> string list" where
  "lineSlots f = filter (\<lambda>s. \<not> prefix ''['' s) (drop 8 f)"

definition ownerEntry :: "string \<Rightarrow> string option" where
  "ownerEntry line =
     (let f = Fields line in
      if length f < 9 then None
      else (let slots = lineSlots f in
        if slots \<noteq> [] then Some (f ! 0 @ '' '' @ go_join '','' slots) else None))"

definition slotOwnership :: "string \<Rightarrow> string" where
  "slotOwnership nodes =
     go_join [CHR 0x0A] (sort (List.map_filter ownerEntry (go_split [CHR 0x0A] nodes)))"

section \<open>The verdict\<close>

definition unreachable :: "nodeReport list \<Rightarrow> goerror option" where
  "unreachable reports =
     (case filter (\<lambda>rep. nerr rep \<noteq> None) reports of
        [] \<Rightarrow> None
      | rep # _ \<Rightarrow> Some (WrapErr (naddr rep @ '': '') (the (nerr rep)) ''''))"

definition notSettled :: "string \<Rightarrow> goerror" where
  "notSettled why = WrapErr '''' (Sentinel ErrClusterNotSettled) ('': '' @ why)"

fun checkStates :: "nodeReport list \<Rightarrow> goerror option" where
  "checkStates [] = None"
| "checkStates (rep # reps) =
     (if nstate rep \<noteq> ''ok''
      then Some (notSettled (''node '' @ naddr rep @ '' reports cluster_state:'' @ nstate rep))
      else checkStates reps)"

fun checkSlots :: "nodeReport \<Rightarrow> nodeReport list \<Rightarrow> goerror option" where
  "checkSlots ref [] = None"
| "checkSlots ref (rep # reps) =
     (if nslots rep \<noteq> nslots ref
      then Some (notSettled (''nodes '' @ naddr ref @ '' and '' @ naddr rep
        @ '' disagree about which node owns which slots''))
      else checkSlots ref reps)"

text \<open>\<open>sort.Slice\<close> by address; the addresses of the nodes of a cluster are distinct.\<close>

definition evaluateSettled :: "nodeReport list \<Rightarrow> goerror option" where
  "evaluateSettled reports0 =
     (let reports = sort_key naddr reports0;
          answered = filter (\<lambda>rep. nerr rep = None) reports
      in case answered of
           [] \<Rightarrow>
             (let firstErr = (case unreachable reports of
                  None \<Rightarrow> ErrNew ''no cluster nodes known'' | Some e \<Rightarrow> e)
              in Some (NewRedisError OpReinitTopology firstErr))
         | ref # others \<Rightarrow>
             (case checkStates answered of
                Some e \<Rightarrow> Some e
              | None \<Rightarrow> checkSlots ref others))"

section \<open>Asking the nodes\<close>

definition askNode :: "addr \<Rightarrow> nodeReport prog" where
  "askNode node =
     clusterInfo node (\<lambda>info. case info of
       Inl ierr \<Rightarrow> Ret \<lparr>naddr = node, nstate = '''', nslots = '''', nerr = Some ierr\<rparr>
     | Inr text \<Rightarrow>
         clusterNodes node (\<lambda>nodes. case nodes of
           Inl nerror \<Rightarrow> Ret \<lparr>naddr = node, nstate = clusterInfoField text ''cluster_state'',
             nslots = '''', nerr = Some nerror\<rparr>
         | Inr ntext \<Rightarrow> Ret \<lparr>naddr = node, nstate = clusterInfoField text ''cluster_state'',
             nslots = slotOwnership ntext, nerr = None\<rparr>))"

fun askNodes :: "addr list \<Rightarrow> nodeReport list prog" where
  "askNodes [] = Ret []"
| "askNodes (node # nodes) =
     bind (askNode node) (\<lambda>rep. bind (askNodes nodes) (\<lambda>reps. Ret (rep # reps)))"

definition ensureClusterSettled :: "goerror option prog" where
  "ensureClusterSettled =
     forEachShard (\<lambda>res. case res of
       Inl err \<Rightarrow> Ret (Some (NewRedisError OpReinitTopology err))
     | Inr nodes \<Rightarrow> bind (askNodes nodes) (\<lambda>reports. Ret (evaluateSettled reports)))"

section \<open>When a cluster is settled\<close>

definition answering :: "nodeReport list \<Rightarrow> nodeReport list" where
  "answering reports = filter (\<lambda>rep. nerr rep = None) reports"

definition agree :: "nodeReport list \<Rightarrow> bool" where
  "agree reports \<longleftrightarrow> answering reports \<noteq> []
     \<and> list_all (\<lambda>rep. nstate rep = ''ok'') (answering reports)
     \<and> card (nslots ` set (answering reports)) = 1"

lemma checkStates_None: "checkStates reps = None \<longleftrightarrow> list_all (\<lambda>rep. nstate rep = ''ok'') reps"
  by (induction reps) simp_all

lemma checkSlots_None: "checkSlots ref reps = None \<longleftrightarrow> (\<forall>rep \<in> set reps. nslots rep = nslots ref)"
  by (induction reps) auto

lemma checks_not_settled:
  "checkStates reps = Some e \<Longrightarrow> errors_Is e (Sentinel ErrClusterNotSettled)"
  "checkSlots ref reps = Some e \<Longrightarrow> errors_Is e (Sentinel ErrClusterNotSettled)"
  by (induction reps) (auto simp: notSettled_def errors_Is_wrap_iff errors_Is.simps [of "Sentinel _"]
      split: if_splits)

lemma set_answered_sort [simp]: "set (filter P (sort_key f xs)) = set (filter P xs)"
  by simp

lemma card_image_one: "xs = x # ys \<Longrightarrow> card (f ` set xs) = 1 \<longleftrightarrow> (\<forall>y \<in> set ys. f y = f x)"
  by (auto simp: card_1_singleton_iff)

text \<open>
  C17. The verdict. The cluster counts as settled exactly when some node answered, every node that
  answered reports \<open>cluster_state:ok\<close>, and all of them report the same slot ownership; nodes that
  could not be asked have no say.
\<close>

theorem settled_iff_agree: "evaluateSettled reports = None \<longleftrightarrow> agree reports"
proof (cases "filter (\<lambda>rep. nerr rep = None) (sort_key naddr reports)")
  case Nil
  then have "answering reports = []"
    by (metis answering_def set_answered_sort set_empty)
  with Nil show ?thesis by (simp add: evaluateSettled_def agree_def)
next
  case (Cons ref others)
  have s: "set (answering reports) = set (ref # others)"
    unfolding answering_def by (metis Cons set_answered_sort)
  have "evaluateSettled reports = None \<longleftrightarrow> list_all (\<lambda>rep. nstate rep = ''ok'') (ref # others)
      \<and> (\<forall>rep \<in> set others. nslots rep = nslots ref)"
    unfolding evaluateSettled_def Let_def Cons
    by (simp add: checkStates_None checkSlots_None split: option.splits)
       (metis checkSlots_None checkStates_None list.pred_inject(2) option.distinct(1))
  also have "\<dots> \<longleftrightarrow> agree reports"
  proof -
    have "answering reports \<noteq> []" using s by (intro notI) simp
    then show ?thesis
      unfolding agree_def list_all_iff s card_image_one [OF refl] by (intro iffI) simp_all
  qed
  finally show ?thesis .
qed

text \<open>
  Which error. When the cluster is not settled the error wraps \<open>ErrClusterNotSettled\<close> exactly if
  some node answered; if none did, it is the connectivity error of an unreachable node (or that no
  node is known), not a verdict about the cluster, unless a node's own error says so.
\<close>

lemma settled_error_kind:
  "case evaluateSettled reports of
     None \<Rightarrow> answering reports \<noteq> []
   | Some e \<Rightarrow> if answering reports \<noteq> [] then errors_Is e (Sentinel ErrClusterNotSettled)
       else (\<exists>cause. e = NewRedisError OpReinitTopology cause)"
proof (cases "filter (\<lambda>rep. nerr rep = None) (sort_key naddr reports)")
  case Nil
  then have "answering reports = []" by (metis answering_def set_answered_sort set_empty)
  with Nil show ?thesis by (auto simp: evaluateSettled_def Let_def)
next
  case (Cons ref others)
  then have "answering reports \<noteq> []"
    by (metis answering_def list.distinct(1) set_answered_sort set_empty)
  with Cons show ?thesis
    by (auto simp: evaluateSettled_def Let_def checks_not_settled simp del: checkStates.simps
        split: option.splits)
qed

text \<open>
  The order in which the nodes answer does not matter: the reports of nodes with distinct
  addresses give the same result, error text included, in any order.
\<close>

lemma settled_order_irrelevant:
  assumes "mset reports = mset reports'" and "distinct (map naddr reports)"
  shows "evaluateSettled reports = evaluateSettled reports'"
proof -
  have "inj_on naddr (set reports)" using assms(2) by (simp add: distinct_map)
  then have "sort_key naddr reports = sort_key naddr reports'"
    using assms(1) by (intro sort_key_inj_key_eq) simp_all
  then show ?thesis by (simp add: evaluateSettled_def)
qed

definition okReport :: "addr \<Rightarrow> nodeReport" where
  "okReport a = \<lparr>naddr = a, nstate = ''ok'', nslots = ''n1 0-16383'', nerr = None\<rparr>"

lemma settled_order_irrelevant_example:
  "evaluateSettled [okReport ''b'', okReport ''a''] = evaluateSettled [okReport ''a'', okReport ''b'']"
  by (rule settled_order_irrelevant) (simp_all add: okReport_def add_mset_commute)

section \<open>What slot ownership depends on\<close>












section \<open>The check only reads\<close>

fun reads_cluster :: "eff \<Rightarrow> bool" where
  "reads_cluster EForEachShard = True"
| "reads_cluster (EClusterInfo _) = True"
| "reads_cluster (EClusterNodes _) = True"
| "reads_cluster _ = False"

lemma askNode_reads: "path (askNode n) tr rep \<Longrightarrow> list_all (\<lambda>(e, _). reads_cluster e) tr"
  by (auto simp: askNode_def eff_simps path_simps)

lemma askNodes_reads: "path (askNodes ns) tr reps \<Longrightarrow> list_all (\<lambda>(e, _). reads_cluster e) tr"
  by (induction ns arbitrary: tr reps) (auto simp: path_simps dest: askNode_reads)

lemma ensureClusterSettled_reads:
  "path ensureClusterSettled tr res \<Longrightarrow> list_all (\<lambda>(e, _). reads_cluster e) tr"
  by (auto simp: ensureClusterSettled_def eff_simps path_simps dest: askNodes_reads)

end
