(* ===== verification/Topology.thy ===== *)
theory Topology
  imports Lifecycle Settled
begin

text \<open>
  Starting a client and following the topology of a cluster: \<open>impl/oss.go\<close>, the keyspace
  configuration and subscriptions of \<open>impl/init.go\<close>, \<open>Init\<close> and \<open>ReinitTopology\<close> of
  \<open>impl/relredis.go\<close>. The callbacks of \<open>ForEachMaster\<close> run one after the other here, in the order
  the effect's reply lists the masters; in the code they may overlap, but each talks to its own master
  and their shared counters and subscription list are guarded by a mutex.
\<close>

section \<open>Keyspace configuration\<close>

text \<open>The loop over the values of \<open>notify-keyspace-events\<close>: true where it returns the error.\<close>

fun existingConfig :: "Client \<Rightarrow> bool \<Rightarrow> string list \<Rightarrow> bool" where
  "existingConfig r reapply [] = False"
| "existingConfig r reapply (v # vs) =
     (if length v > 0
      then (if forceOverrideConfig r then existingConfig r reapply vs
            else if \<not> reapply then True else existingConfig r reapply vs)
      else existingConfig r reapply vs)"

definition enableKeyspaceNotifsOn :: "Client \<Rightarrow> addr \<Rightarrow> bool \<Rightarrow> goerror option prog" where
  "enableKeyspaceNotifsOn r client reapply =
     configGet client NotifyKeyspaceEventsCmd (\<lambda>res. case res of
       Inl err \<Rightarrow> Ret (Some (NewRedisError OpEnableKeyspaceNotification err))
     | Inr configVals \<Rightarrow>
         if existingConfig r reapply configVals
         then Ret (Some (Sentinel ErrExistingConfigWithoutOverride))
         else configSet client NotifyKeyspaceEventsCmd KeyspacePatternForExpiredEvents (\<lambda>err. Ret err))"

text \<open>The counters of the sweep over the masters, and the first error a callback returned.\<close>

record sweep =
  succeeded :: int
  failed :: int
  sweepErr :: "goerror option"

definition setupMaster :: "Client \<Rightarrow> bool \<Rightarrow> addr \<Rightarrow> sweep \<Rightarrow> sweep prog" where
  "setupMaster r reapply master sw =
     bind (enableKeyspaceNotifsOn r master reapply) (\<lambda>res. case res of
       Some setupErr \<Rightarrow>
         if errors_Is setupErr (Sentinel ErrExistingConfigWithoutOverride)
         then Ret (sw\<lparr>sweepErr := (case sweepErr sw of None \<Rightarrow> Some setupErr | Some e \<Rightarrow> Some e)\<rparr>)
         else metric (RecordMasterKeyspaceSetup False) (Ret (sw\<lparr>failed := failed sw + 1\<rparr>))
     | None \<Rightarrow> metric (RecordMasterKeyspaceSetup True) (Ret (sw\<lparr>succeeded := succeeded sw + 1\<rparr>)))"

fun setupMasters :: "Client \<Rightarrow> bool \<Rightarrow> addr list \<Rightarrow> sweep \<Rightarrow> sweep prog" where
  "setupMasters r reapply [] sw = Ret sw"
| "setupMasters r reapply (m # ms) sw = bind (setupMaster r reapply m sw) (setupMasters r reapply ms)"

definition sweepResult :: "sweep \<Rightarrow> goerror option" where
  "sweepResult sw =
     (case sweepErr sw of
        Some err \<Rightarrow> Some err
      | None \<Rightarrow>
          if succeeded sw = 0 then Some (Sentinel ErrKeyspaceNotifsAllMastersFailed) else None)"

definition enableKeyspaceNotifsOnMasters :: "Client \<Rightarrow> bool \<Rightarrow> goerror option prog" where
  "enableKeyspaceNotifsOnMasters r reapply =
     forEachMaster (\<lambda>res. case res of
       Inl err \<Rightarrow> Ret (Some err)
     | Inr masters \<Rightarrow>
         bind (setupMasters r reapply masters \<lparr>succeeded = 0, failed = 0, sweepErr = None\<rparr>)
           (\<lambda>sw. Ret (sweepResult sw)))"

definition enableKeyspaceNotifsForExpiredEvents :: "Client \<Rightarrow> bool \<Rightarrow> goerror option prog" where
  "enableKeyspaceNotifsForExpiredEvents r reapply =
     (if clusterMode r = ClusterModeOSS
      then (if \<not> isClusterClient r then Ret (Some (Sentinel ErrClusterClientRequired))
            else enableKeyspaceNotifsOnMasters r reapply)
      else enableKeyspaceNotifsOn r (clientAddr r) reapply)"

section \<open>Subscriptions\<close>

definition addSub :: "subscription \<Rightarrow> Subs \<Rightarrow> Subs" where
  "addSub ps st = st\<lparr>ossPubSubs := ossPubSubs st @ [ps]\<rparr>"

fun subscribeMasters :: "addr list \<Rightarrow> Subs \<Rightarrow> Subs prog" where
  "subscribeMasters [] st = Ret st"
| "subscribeMasters (m # ms) st =
     pSubscribe m MutexKeySpacePattern (\<lambda>ps. goFanIn ps (subscribeMasters ms (addSub ps st)))"

text \<open>An error of the sweep is only logged.\<close>

definition subscribeToExpiredEventsOSS :: "Client \<Rightarrow> Subs \<Rightarrow> Subs prog" where
  "subscribeToExpiredEventsOSS r st =
     (if \<not> isClusterClient r then Ret st
      else forEachMaster (\<lambda>res. case res of
        Inl _ \<Rightarrow> Ret st
      | Inr masters \<Rightarrow> subscribeMasters masters st))"

definition subscribeToExpiredEvents :: "Client \<Rightarrow> Subs \<Rightarrow> Subs prog" where
  "subscribeToExpiredEvents r st =
     (if clusterMode r = ClusterModeOSS then subscribeToExpiredEventsOSS r st
      else pSubscribe (clientAddr r) MutexKeySpacePattern (\<lambda>ps. goFanIn ps (Ret (st\<lparr>pubSub := Some ps\<rparr>))))"

section \<open>Init and ReinitTopology\<close>

definition Init :: "Client \<Rightarrow> Subs \<Rightarrow> (goerror option \<times> Subs) prog" where
  "Init r st =
     (if clusterMode r = ClusterModeOSS \<and> \<not> isClusterClient r
      then Ret (Some (Sentinel ErrClusterClientRequired), st)
      else bind (enableKeyspaceNotifsForExpiredEvents r False) (\<lambda>keyspaceErr. case keyspaceErr of
        Some err \<Rightarrow> Ret (Some err, st)
      | None \<Rightarrow>
          bind (subscribeToExpiredEvents r st) (\<lambda>st1.
          xGroupCreateMkStream (lbsName r) (lbsGroupName r) StartFromNow (\<lambda>res.
          let proceed = goReadLBS (goListenKsp (goReconcile (Ret (None, st1)))) in
          case res of
            Some err \<Rightarrow>
              if \<not> sublist ''BUSYGROUP'' (Error err)
              then Ret (Some (NewRedisError OpCreateLBSStream err), st1)
              else proceed
          | None \<Rightarrow> proceed))))"

definition ReinitTopology :: "Client \<Rightarrow> Subs \<Rightarrow> (goerror option \<times> Subs) prog" where
  "ReinitTopology r st =
     (if clusterMode r \<noteq> ClusterModeOSS then Ret (None, st)
      else if \<not> isClusterClient r
      then metric (RecordTopologyReinit False) (Ret (Some (Sentinel ErrClusterClientRequired), st))
      else bind ensureClusterSettled (\<lambda>settled. case settled of
        Some err \<Rightarrow> metric (RecordTopologyReinit False) (Ret (Some err, st))
      | None \<Rightarrow>
          reloadState
          (bind (enableKeyspaceNotifsForExpiredEvents r True) (\<lambda>keyspaceErr. case keyspaceErr of
             Some err \<Rightarrow> metric (RecordTopologyReinit False) (Ret (Some err, st))
           | None \<Rightarrow>
               bind (closeAll st) (\<lambda>st1.
               bind (subscribeToExpiredEvents r st1) (\<lambda>st2.
               metric (RecordTopologyReinit True) (Ret (None, st2))))))))"

section \<open>Facts about the parts\<close>

lemma existingConfig_iff:
  "existingConfig r reapply vs \<longleftrightarrow> \<not> forceOverrideConfig r \<and> \<not> reapply \<and> (\<exists>v \<in> set vs. v \<noteq> [])"
  by (induction vs) auto

lemma enableKeyspaceNotifsOn_path:
  "path (enableKeyspaceNotifsOn r a reapply) tr res \<longleftrightarrow>
     (\<exists>e x. tr = [(EConfigGet a NotifyKeyspaceEventsCmd, x)] \<and> as_strs x = Inl e
        \<and> res = Some (NewRedisError OpEnableKeyspaceNotification e))
     \<or> (\<exists>vs. tr = [(EConfigGet a NotifyKeyspaceEventsCmd, RStrs vs)] \<and> existingConfig r reapply vs
        \<and> res = Some (Sentinel ErrExistingConfigWithoutOverride))
     \<or> (\<exists>vs x. tr = [(EConfigGet a NotifyKeyspaceEventsCmd, RStrs vs),
             (EConfigSet a NotifyKeyspaceEventsCmd KeyspacePatternForExpiredEvents, x)]
        \<and> \<not> existingConfig r reapply vs \<and> res = as_err x)"
  by (auto simp: enableKeyspaceNotifsOn_def eff_simps path_simps)

section \<open>The sweep over the masters\<close>

abbreviation fatal :: "goerror \<Rightarrow> bool" where
  "fatal e \<equiv> errors_Is e (Sentinel ErrExistingConfigWithoutOverride)"

text \<open>The log of the callback for one master, given what \<open>enableKeyspaceNotifsOn\<close> returned there.\<close>

definition masterLog :: "Client \<Rightarrow> bool \<Rightarrow> addr \<Rightarrow> log \<Rightarrow> goerror option \<Rightarrow> bool" where
  "masterLog r reapply m t out \<longleftrightarrow>
     (\<exists>t0 x. path (enableKeyspaceNotifsOn r m reapply) t0 out \<and>
        t = t0 @ (case out of
            None \<Rightarrow> [(EMetric (RecordMasterKeyspaceSetup True), x)]
          | Some e \<Rightarrow> if fatal e then [] else [(EMetric (RecordMasterKeyspaceSetup False), x)]))"

definition verdict :: "goerror option list \<Rightarrow> goerror option" where
  "verdict outs =
     (case filter fatal (List.map_filter id outs) of
        e # _ \<Rightarrow> Some e
      | [] \<Rightarrow> if None \<in> set outs then None else Some (Sentinel ErrKeyspaceNotifsAllMastersFailed))"

definition tally :: "goerror option \<Rightarrow> sweep \<Rightarrow> sweep" where
  "tally out sw =
     (case out of
        None \<Rightarrow> sw\<lparr>succeeded := succeeded sw + 1\<rparr>
      | Some e \<Rightarrow>
          if fatal e then sw\<lparr>sweepErr := (case sweepErr sw of None \<Rightarrow> Some e | Some e' \<Rightarrow> Some e')\<rparr>
          else sw\<lparr>failed := failed sw + 1\<rparr>)"

lemma setupMaster_path:
  "path (setupMaster r reapply m sw) t sw' \<longleftrightarrow> (\<exists>out. masterLog r reapply m t out \<and> sw' = tally out sw)"
proof
  assume "path (setupMaster r reapply m sw) t sw'"
  then obtain t1 t2 out where t: "t = t1 @ t2" and p: "path (enableKeyspaceNotifsOn r m reapply) t1 out"
    and rest: "path (case out of
       Some e \<Rightarrow>
         if fatal e
         then Ret (sw\<lparr>sweepErr := (case sweepErr sw of None \<Rightarrow> Some e | Some e' \<Rightarrow> Some e')\<rparr>)
         else metric (RecordMasterKeyspaceSetup False) (Ret (sw\<lparr>failed := failed sw + 1\<rparr>))
     | None \<Rightarrow> metric (RecordMasterKeyspaceSetup True) (Ret (sw\<lparr>succeeded := succeeded sw + 1\<rparr>))) t2 sw'"
    unfolding setupMaster_def path_bind by blast
  from rest t p show "\<exists>out. masterLog r reapply m t out \<and> sw' = tally out sw"
    by (intro exI [of _ out]) (auto simp: masterLog_def tally_def eff_simps path_Vis split: option.splits if_splits)
next
  assume "\<exists>out. masterLog r reapply m t out \<and> sw' = tally out sw"
  then obtain out t0 x where "path (enableKeyspaceNotifsOn r m reapply) t0 out" and "sw' = tally out sw"
    and "t = t0 @ (case out of
            None \<Rightarrow> [(EMetric (RecordMasterKeyspaceSetup True), x)]
          | Some e \<Rightarrow> if fatal e then [] else [(EMetric (RecordMasterKeyspaceSetup False), x)])"
    unfolding masterLog_def by blast
  then show "path (setupMaster r reapply m sw) t sw'"
    unfolding setupMaster_def path_bind
    by (intro exI [of _ t0] exI [of _ out] exI conjI)
       (auto simp: tally_def eff_simps split: option.split)
qed

text \<open>A sweep: one log per master, with the result of each.\<close>

inductive sweepLog :: "Client \<Rightarrow> bool \<Rightarrow> addr list \<Rightarrow> log \<Rightarrow> goerror option list \<Rightarrow> bool"
  for r :: Client and reapply :: bool where
  no_master: "sweepLog r reapply [] [] []"
| next_master: "masterLog r reapply m t out \<Longrightarrow> sweepLog r reapply ms tr outs \<Longrightarrow>
     sweepLog r reapply (m # ms) (t @ tr) (out # outs)"

inductive_cases sweepLog_NilE: "sweepLog r reapply [] tr outs"
inductive_cases sweepLog_ConsE: "sweepLog r reapply (m # ms) tr outs"

lemma setupMasters_path:
  "path (setupMasters r reapply ms sw) tr sw' \<longleftrightarrow>
     (\<exists>outs. sweepLog r reapply ms tr outs \<and> sw' = fold tally outs sw)"
proof (induction ms arbitrary: tr sw)
  case Nil
  then show ?case by (auto intro: sweepLog.intros elim: sweepLog_NilE)
next
  case (Cons m ms)
  show ?case
  proof
    assume "path (setupMasters r reapply (m # ms) sw) tr sw'"
    then obtain t1 t2 out outs where "tr = t1 @ t2" "masterLog r reapply m t1 out"
      "sweepLog r reapply ms t2 outs" "sw' = fold tally outs (tally out sw)"
      by (auto simp: path_bind setupMaster_path Cons.IH)
    then show "\<exists>outs. sweepLog r reapply (m # ms) tr outs \<and> sw' = fold tally outs sw"
      by (intro exI [of _ "out # outs"]) (simp add: next_master)
  next
    assume "\<exists>outs. sweepLog r reapply (m # ms) tr outs \<and> sw' = fold tally outs sw"
    then show "path (setupMasters r reapply (m # ms) sw) tr sw'"
    proof (elim exE conjE sweepLog_ConsE)
      fix outs t out tr' outs'
      assume "sw' = fold tally outs sw" "tr = t @ tr'" "outs = out # outs'"
        "masterLog r reapply m t out" "sweepLog r reapply ms tr' outs'"
      then have "path (setupMaster r reapply m sw) t (tally out sw)"
        "path (setupMasters r reapply ms (tally out sw)) tr' sw'"
        unfolding setupMaster_path Cons.IH by auto
      with \<open>tr = t @ tr'\<close> show ?thesis by (auto simp: path_bind)
    qed
  qed
qed

lemma fold_tally:
  "sweepErr (fold tally outs sw) =
     (case sweepErr sw of Some e \<Rightarrow> Some e | None \<Rightarrow>
       (case filter fatal (List.map_filter id outs) of [] \<Rightarrow> None | e # _ \<Rightarrow> Some e))"
  "succeeded (fold tally outs sw) = succeeded sw + int (count_list outs None)"
  by (induction outs arbitrary: sw)
     (auto simp: tally_def List.map_filter_def split: option.splits list.splits)

lemma sweepResult_tally:
  "sweepResult (fold tally outs \<lparr>succeeded = 0, failed = 0, sweepErr = None\<rparr>) = verdict outs"
  by (auto simp: sweepResult_def fold_tally verdict_def count_list_0_iff split: list.splits)

lemma enableKeyspaceNotifsOnMasters_path:
  "path (enableKeyspaceNotifsOnMasters r reapply) tr res \<longleftrightarrow>
     (\<exists>x e. tr = [(EForEachMaster, x)] \<and> as_strs x = Inl e \<and> res = Some e)
     \<or> (\<exists>ms tr' outs. tr = (EForEachMaster, RStrs ms) # tr' \<and> sweepLog r reapply ms tr' outs
          \<and> res = verdict outs)"
  by (auto simp: enableKeyspaceNotifsOnMasters_def eff_simps path_Vis path_case_sum
      path_bind_Ret setupMasters_path sweepResult_tally)
     (metis sweepResult_tally)

end
