(* ===== verification/Interface.thy ===== *)
theory Interface
  imports Topology Recovery
begin

text \<open>
  The interface \<open>RedisStreamClient\<close> (\<open>types/types.go\<close>) a service programs against: one field per
  method. Methods that open or close subscriptions take the subscriptions the client holds and
  return those it holds afterwards. \<open>streamClient r\<close> is the implementation, the methods of
  \<open>RecoverableRedisStreamClient\<close>.
\<close>

record RedisStreamClient =
  cID :: string
  cInit :: "Subs \<Rightarrow> (goerror option \<times> Subs) prog"
  cClaim :: "LBSInfo \<Rightarrow> goerror option prog"
  cDone :: "Subs \<Rightarrow> (goerror option \<times> Subs) prog"
  cDoneStream :: "string \<Rightarrow> goerror option prog"
  cReinitTopology :: "Subs \<Rightarrow> (goerror option \<times> Subs) prog"

definition streamClient :: "Client \<Rightarrow> RedisStreamClient" where
  "streamClient r =
     \<lparr>cID = ID r, cInit = Init r, cClaim = Claim r, cDone = Done r, cDoneStream = DoneStream r,
      cReinitTopology = ReinitTopology r\<rparr>"

lemma streamClient_simps [simp]:
  "cID (streamClient r) = ID r" "cInit (streamClient r) = Init r" "cClaim (streamClient r) = Claim r"
  "cDone (streamClient r) = Done r" "cDoneStream (streamClient r) = DoneStream r"
  "cReinitTopology (streamClient r) = ReinitTopology r"
  by (simp_all add: streamClient_def)

section \<open>Subscriptions of a log\<close>

abbreviation noSubs :: Subs where "noSubs \<equiv> \<lparr>pubSub = None, ossPubSubs = []\<rparr>"

fun openedBy :: "eff \<times> reply \<Rightarrow> subscription list" where
  "openedBy (EPSubscribe a p, x) = [nat (as_num x)]"
| "openedBy _ = []"

fun closedBy :: "eff \<times> reply \<Rightarrow> subscription list" where
  "closedBy (EPubSubClose ps, x) = [ps]"
| "closedBy _ = []"

definition opened :: "log \<Rightarrow> subscription list" where "opened tr = concat (map openedBy tr)"
definition closed :: "log \<Rightarrow> subscription list" where "closed tr = concat (map closedBy tr)"

lemma opened_simps [simp]: "opened [] = []" "opened (x # tr) = openedBy x @ opened tr"
    "opened (t1 @ t2) = opened t1 @ opened t2"
  by (simp_all add: opened_def)

lemma closed_simps [simp]: "closed [] = []" "closed (x # tr) = closedBy x @ closed tr"
    "closed (t1 @ t2) = closed t1 @ closed t2"
  by (simp_all add: closed_def)

text \<open>The subscriptions a client holds, and the balance of a piece of its log.\<close>

definition held :: "Subs \<Rightarrow> subscription list" where
  "held st = (case pubSub st of None \<Rightarrow> [] | Some ps \<Rightarrow> [ps]) @ ossPubSubs st"

definition balanced :: "Subs \<Rightarrow> log \<Rightarrow> Subs \<Rightarrow> bool" where
  "balanced st tr st' \<longleftrightarrow> mset (held st) + mset (opened tr) = mset (closed tr) + mset (held st')"

lemma balanced_trans: "balanced s t1 s1 \<Longrightarrow> balanced s1 t2 s2 \<Longrightarrow> balanced s (t1 @ t2) s2"
  by (simp add: balanced_def) (metis add.assoc add.commute)

definition quiet :: "log \<Rightarrow> bool" where "quiet tr \<longleftrightarrow> opened tr = [] \<and> closed tr = []"

lemma quiet_balanced: "quiet tr \<Longrightarrow> balanced st tr st"
  by (simp add: quiet_def balanced_def)

lemma quiet_simps [simp]: "quiet []" "quiet (t1 @ t2) \<longleftrightarrow> quiet t1 \<and> quiet t2"
    "quiet (x # t) \<longleftrightarrow> openedBy x = [] \<and> closedBy x = [] \<and> quiet t"
  by (auto simp: quiet_def)

section \<open>The life of a client\<close>

text \<open>
  \<open>Init\<close>, any number of re-initializations with whatever results, \<open>Done\<close>. The contract of the three
  methods is that the first two keep the balance of subscriptions and the last closes what is held.
\<close>

fun reinits :: "RedisStreamClient \<Rightarrow> nat \<Rightarrow> Subs \<Rightarrow> Subs prog" where
  "reinits c 0 st = Ret st"
| "reinits c (Suc n) st = bind (cReinitTopology c st) (\<lambda>x. reinits c n (snd x))"

definition clientLife :: "RedisStreamClient \<Rightarrow> nat \<Rightarrow> goerror option prog" where
  "clientLife c n =
     bind (cInit c noSubs) (\<lambda>x. case fst x of
       Some err \<Rightarrow> Ret (Some err)
     | None \<Rightarrow> bind (reinits c n (snd x)) (\<lambda>st. bind (cDone c st) (\<lambda>y. Ret (fst y))))"

locale client_lifecycle =
  fixes c :: RedisStreamClient
  assumes init_balanced: "path (cInit c noSubs) tr (err, st) \<Longrightarrow> balanced noSubs tr st"
    and reinit_balanced: "path (cReinitTopology c st) tr (err, st') \<Longrightarrow> balanced st tr st'"
    and done_closes: "path (cDone c st) tr (None, st') \<Longrightarrow> opened tr = [] \<and> closed tr = held st"
begin

lemma reinits_balanced: "path (reinits c n st) tr st' \<Longrightarrow> balanced st tr st'"
proof (induction n arbitrary: st tr)
  case (Suc n)
  then obtain t1 t2 err st1 where "tr = t1 @ t2" "path (cReinitTopology c st) t1 (err, st1)"
    "path (reinits c n st1) t2 st'" by (auto simp: path_bind)
  with Suc.IH reinit_balanced show ?case by (blast intro: balanced_trans)
qed (simp add: balanced_def)

lemma all_closed:
  assumes "path (clientLife c n) tr None"
  shows "mset (opened tr) = mset (closed tr)"
proof -
  obtain t1 t2 t3 st1 st2 st3 where tr: "tr = t1 @ t2 @ t3" and "path (cInit c noSubs) t1 (None, st1)"
    "path (reinits c n st1) t2 st2" and d: "path (cDone c st2) t3 (None, st3)"
    using assms by (auto simp: clientLife_def path_bind path_case_option)
  then have "balanced noSubs (t1 @ t2) st2"
    by (auto intro: balanced_trans reinits_balanced init_balanced)
  then show ?thesis using done_closes [OF d] by (simp add: tr balanced_def held_def)
qed

end

end
