(* ===== verification/TopologyProps.thy ===== *)
theory TopologyProps
  imports Interface
begin

text \<open>
  What \<open>Init\<close> and \<open>ReinitTopology\<close> do, on every branch: which configuration they overwrite, when the
  goroutines start, what a failed re-initialization leaves untouched, and that no subscription is lost
  over the life of a client.
\<close>

section \<open>The keyspace configuration\<close>

text \<open>
  Enabling keyspace notifications on the masters. Every master the cluster client lists is tried,
  in turn, whatever happened on the others, and each attempt that succeeded or failed is recorded. The
  result is the first configuration conflict if there is one; else success if at least one master was
  configured, and \<open>ErrKeyspaceNotifsAllMastersFailed\<close> if none was.
\<close>

lemma masters_sweep:
  "path (enableKeyspaceNotifsOnMasters r reapply) tr res \<longleftrightarrow>
     (\<exists>x e. tr = [(EForEachMaster, x)] \<and> as_strs x = Inl e \<and> res = Some e)
     \<or> (\<exists>ms tr' outs. tr = (EForEachMaster, RStrs ms) # tr' \<and> sweepLog r reapply ms tr' outs
          \<and> res = verdict outs)"
  by (rule enableKeyspaceNotifsOnMasters_path)

fun config_checked :: "Client \<Rightarrow> log \<Rightarrow> eff \<Rightarrow> bool" where
  "config_checked r tr (EConfigSet a p v) \<longleftrightarrow>
     p = NotifyKeyspaceEventsCmd \<and> v = KeyspacePatternForExpiredEvents \<and>
     (forceOverrideConfig r \<or> (\<exists>vs. (EConfigGet a p, RStrs vs) \<in> set tr \<and> (\<forall>v \<in> set vs. v = [])))"
| "config_checked r tr _ \<longleftrightarrow> True"

lemma config_checked_mono: "config_checked r tr e \<Longrightarrow> set tr \<subseteq> set tr' \<Longrightarrow> config_checked r tr' e"
  by (cases e) auto

definition all_checked :: "Client \<Rightarrow> log \<Rightarrow> bool" where
  "all_checked r tr \<longleftrightarrow> (\<forall>(e, x) \<in> set tr. config_checked r tr e)"

lemma all_checked_append: "all_checked r t1 \<Longrightarrow> all_checked r t2 \<Longrightarrow> all_checked r (t1 @ t2)"
  by (fastforce simp: all_checked_def intro: config_checked_mono)

lemma enableKeyspaceNotifsOn_checked:
  "path (enableKeyspaceNotifsOn r a False) tr res \<Longrightarrow> all_checked r tr"
  by (auto simp: enableKeyspaceNotifsOn_path existingConfig_iff all_checked_def)

lemma masterLog_checked: "masterLog r False m t out \<Longrightarrow> all_checked r t"
  unfolding masterLog_def
  by (elim exE conjE, hypsubst, rule all_checked_append, erule enableKeyspaceNotifsOn_checked)
     (auto simp: all_checked_def split: option.splits)

lemma sweepLog_checked: "sweepLog r False ms tr outs \<Longrightarrow> all_checked r tr"
  by (induction rule: sweepLog.induct)
     (auto simp: all_checked_def [of r "[]"] intro: all_checked_append masterLog_checked)

lemma all_checked_Cons: "(\<And>a p v. e \<noteq> EConfigSet a p v) \<Longrightarrow> all_checked r tr \<Longrightarrow> all_checked r ((e, x) # tr)"
  using all_checked_append [of r "[(e, x)]" tr] by (cases e) (auto simp: all_checked_def)

lemma enable_checked:
  "path (enableKeyspaceNotifsForExpiredEvents r False) tr res \<Longrightarrow> all_checked r tr"
  unfolding enableKeyspaceNotifsForExpiredEvents_def enableKeyspaceNotifsOnMasters_path path_if
  by (auto simp: all_checked_def [of r "[]"] intro!: all_checked_Cons
      dest: sweepLog_checked enableKeyspaceNotifsOn_checked)

section \<open>Effects of the parts\<close>

fun setup_eff :: "eff \<Rightarrow> bool" where
  "setup_eff (EConfigGet _ _) = True"
| "setup_eff (EConfigSet _ _ _) = True"
| "setup_eff EForEachMaster = True"
| "setup_eff (EMetric _) = True"
| "setup_eff _ = False"

fun subscribe_eff :: "eff \<Rightarrow> bool" where
  "subscribe_eff (EPSubscribe _ _) = True"
| "subscribe_eff (EGoFanIn _) = True"
| "subscribe_eff EForEachMaster = True"
| "subscribe_eff _ = False"

lemma enableKeyspaceNotifsOn_effs:
  "path (enableKeyspaceNotifsOn r a reapply) tr res \<Longrightarrow> list_all setup_eff (map fst tr)"
  by (auto simp: enableKeyspaceNotifsOn_path)

lemma masterLog_effs: "masterLog r reapply m t out \<Longrightarrow> list_all setup_eff (map fst t)"
  unfolding masterLog_def by (auto split: option.splits dest: enableKeyspaceNotifsOn_effs)

lemma sweepLog_effs: "sweepLog r reapply ms tr outs \<Longrightarrow> list_all setup_eff (map fst tr)"
  by (induction rule: sweepLog.induct) (auto dest: masterLog_effs)

lemma enable_effs:
  "path (enableKeyspaceNotifsForExpiredEvents r reapply) tr res \<Longrightarrow> list_all setup_eff (map fst tr)"
  unfolding enableKeyspaceNotifsForExpiredEvents_def enableKeyspaceNotifsOnMasters_path path_if
  by (auto dest: sweepLog_effs enableKeyspaceNotifsOn_effs)

text \<open>Subscribing to the masters: one subscription and one relay goroutine each.\<close>

definition subLog :: "addr \<Rightarrow> reply \<times> reply \<Rightarrow> log" where
  "subLog m x = [(EPSubscribe m MutexKeySpacePattern, fst x), (EGoFanIn (nat (as_num (fst x))), snd x)]"

lemma subscribeMasters_path:
  "path (subscribeMasters ms st) tr st' \<longleftrightarrow>
     (\<exists>xs. length xs = length ms \<and> tr = concat (map2 subLog ms xs)
        \<and> st' = st\<lparr>ossPubSubs := ossPubSubs st @ map (\<lambda>x. nat (as_num (fst x))) xs\<rparr>)"
proof (induction ms arbitrary: tr st)
  case (Cons m ms)
  show ?case
  proof
    assume "path (subscribeMasters (m # ms) st) tr st'"
    then obtain x y tr' where tr: "tr = subLog m (x, y) @ tr'"
      and "path (subscribeMasters ms (addSub (nat (as_num x)) st)) tr' st'"
      by (auto simp: eff_simps path_Vis subLog_def)
    with Cons.IH obtain xs where "length xs = length ms" "tr' = concat (map2 subLog ms xs)"
      "st' = (addSub (nat (as_num x)) st)\<lparr>ossPubSubs :=
         ossPubSubs (addSub (nat (as_num x)) st) @ map (\<lambda>x. nat (as_num (fst x))) xs\<rparr>" by blast
    with tr show "\<exists>xs. length xs = length (m # ms) \<and> tr = concat (map2 subLog (m # ms) xs)
        \<and> st' = st\<lparr>ossPubSubs := ossPubSubs st @ map (\<lambda>x. nat (as_num (fst x))) xs\<rparr>"
      by (intro exI [of _ "(x, y) # xs"]) (simp add: addSub_def)
  next
    assume "\<exists>xs. length xs = length (m # ms) \<and> tr = concat (map2 subLog (m # ms) xs)
        \<and> st' = st\<lparr>ossPubSubs := ossPubSubs st @ map (\<lambda>x. nat (as_num (fst x))) xs\<rparr>"
    then obtain x xs where len: "length xs = length ms" and tr: "tr = subLog m x @ concat (map2 subLog ms xs)"
      and st': "st' = st\<lparr>ossPubSubs := ossPubSubs st @ map (\<lambda>x. nat (as_num (fst x))) (x # xs)\<rparr>"
      by (auto simp: length_Suc_conv)
    have "path (subscribeMasters ms (addSub (nat (as_num (fst x))) st)) (concat (map2 subLog ms xs)) st'"
      unfolding Cons.IH by (intro exI [of _ xs]) (simp add: len st' addSub_def)
    then show "path (subscribeMasters (m # ms) st) tr st'"
      by (simp add: tr subLog_def [of m] eff_simps)
  qed
qed auto

lemma subLogs_effs: "list_all subscribe_eff (map fst (concat (map2 subLog ms xs)))"
  by (induction ms xs rule: list_induct2') (auto simp: subLog_def)

lemma subscribe_effs:
  "path (subscribeToExpiredEvents r st) tr st' \<Longrightarrow> list_all subscribe_eff (map fst tr)"
  unfolding subscribeToExpiredEvents_def subscribeToExpiredEventsOSS_def
  by (auto simp: eff_simps path_Vis path_if path_case_sum subscribeMasters_path subLogs_effs)

lemma settled_effs: "path ensureClusterSettled tr res \<Longrightarrow> list_all reads_cluster (map fst tr)"
  using ensureClusterSettled_reads [of tr res] by (simp add: list_all_iff case_prod_beta)

lemma closeAll_path:
  "path (closeAll st) tr st' \<longleftrightarrow> map fst tr = map EPubSubClose (ossPubSubs st) \<and> st' = st\<lparr>ossPubSubs := []\<rparr>"
  by (auto simp: closeAll_def closeSubs_path)

text \<open>Reading off all behaviours of \<open>Init\<close> and \<open>ReinitTopology\<close>.\<close>

lemma Init_path:
  assumes "path (Init r st) tr (err, st')"
  obtains (no_cluster) "clusterMode r = ClusterModeOSS" "\<not> isClusterClient r" "tr = []"
      "err = Some (Sentinel ErrClusterClientRequired)" "st' = st"
  | (no_config) e where "path (enableKeyspaceNotifsForExpiredEvents r False) tr (Some e)"
      "err = Some e" "st' = st"
  | (no_group) t1 t2 e where "path (enableKeyspaceNotifsForExpiredEvents r False) t1 None"
      "path (subscribeToExpiredEvents r st) t2 st'"
      "tr = t1 @ t2 @ [(EXGroupCreateMkStream (lbsName r) (lbsGroupName r) StartFromNow, RErr e)]"
      "\<not> sublist ''BUSYGROUP'' (Error e)" "err = Some (NewRedisError OpCreateLBSStream e)"
  | (started) t1 t2 x a b c where "path (enableKeyspaceNotifsForExpiredEvents r False) t1 None"
      "path (subscribeToExpiredEvents r st) t2 st'"
      "tr = t1 @ t2 @ [(EXGroupCreateMkStream (lbsName r) (lbsGroupName r) StartFromNow, x),
         (EGoReadLBS, a), (EGoListenKsp, b), (EGoReconcile, c)]"
      "\<And>e. x = RErr e \<Longrightarrow> sublist ''BUSYGROUP'' (Error e)" "err = None"
proof (cases "clusterMode r = ClusterModeOSS \<and> \<not> isClusterClient r")
  case True
  with assms no_cluster show thesis by (auto simp: Init_def)
next
  case False
  with assms show thesis
    unfolding Init_def Let_def if_not_P [OF False]
    by (elim path_bind [THEN iffD1, elim_format] exE conjE)
       (auto simp: eff_simps path_Vis path_bind path_case_option path_if
         intro: no_config no_group started)
qed

lemma ReinitTopology_path:
  assumes "path (ReinitTopology r st) tr (err, st')"
  obtains (single) "clusterMode r \<noteq> ClusterModeOSS" "tr = []" "err = None" "st' = st"
  | (no_cluster) x where "\<not> isClusterClient r" "tr = [(EMetric (RecordTopologyReinit False), x)]"
      "err = Some (Sentinel ErrClusterClientRequired)" "st' = st"
  | (not_settled) t e x where "path ensureClusterSettled t (Some e)"
      "tr = t @ [(EMetric (RecordTopologyReinit False), x)]" "err = Some e" "st' = st"
  | (no_config) t1 t2 e x y where "path ensureClusterSettled t1 None"
      "path (enableKeyspaceNotifsForExpiredEvents r True) t2 (Some e)"
      "tr = t1 @ (EReloadState, x) # t2 @ [(EMetric (RecordTopologyReinit False), y)]"
      "err = Some e" "st' = st"
  | (rebuilt) t1 t2 t3 t4 x y where "path ensureClusterSettled t1 None"
      "path (enableKeyspaceNotifsForExpiredEvents r True) t2 None"
      "map fst t3 = map EPubSubClose (ossPubSubs st)"
      "path (subscribeToExpiredEventsOSS r (st\<lparr>ossPubSubs := []\<rparr>)) t4 st'"
      "tr = t1 @ (EReloadState, x) # t2 @ t3 @ t4 @ [(EMetric (RecordTopologyReinit True), y)]"
      "err = None" "isClusterClient r" "clusterMode r = ClusterModeOSS"
proof (cases "clusterMode r = ClusterModeOSS \<and> isClusterClient r")
  case False
  with assms single no_cluster show thesis
    by (auto simp: ReinitTopology_def eff_simps path_Vis split: if_splits)
next
  case True
  then have "subscribeToExpiredEvents r = subscribeToExpiredEventsOSS r"
    by (simp add: subscribeToExpiredEvents_def fun_eq_iff)
  with True assms show thesis
    unfolding ReinitTopology_def
    by (auto simp: eff_simps path_Vis path_bind path_case_option closeAll_path
        intro: not_settled no_config rebuilt)
qed

section \<open>Properties\<close>

lemma harmless_checked: "list_all (\<lambda>e. \<forall>a p v. e \<noteq> EConfigSet a p v) (map fst t) \<Longrightarrow> all_checked r t"
proof (induction t)
  case (Cons ex t)
  then show ?case by (cases ex) (auto intro: all_checked_Cons)
qed (simp add: all_checked_def)

lemma subscribe_checked: "path (subscribeToExpiredEvents r st) t st' \<Longrightarrow> all_checked r t"
  by (rule harmless_checked, drule subscribe_effs) (auto simp: list_all_iff)

lemma Init_checked:
  assumes "path (Init r st) tr res"
  shows "all_checked r tr"
proof -
  obtain err st' where "res = (err, st')" by (cases res)
  with assms have "path (Init r st) tr (err, st')" by simp
  then show ?thesis
  proof (cases rule: Init_path)
    case no_cluster
    then show ?thesis by (simp add: all_checked_def)
  next
    case no_config
    then show ?thesis by (blast intro: enable_checked)
  next
    case no_group
    then show ?thesis
      by (simp add: all_checked_append enable_checked subscribe_checked harmless_checked)
  next
    case started
    then show ?thesis
      by (simp add: all_checked_append enable_checked subscribe_checked harmless_checked)
  qed
qed

text \<open>
  C14. An operator's keyspace configuration is not overwritten. Whatever Redis answers, \<open>Init\<close> sets
  the configuration of a node only if the client was built with the override option, or after that
  node reported no value for it; and it only ever sets this one parameter, to the expired-events value.
\<close>

theorem existing_config_kept:
  assumes "path (Init r st) tr res" and "(EConfigSet a p v, x) \<in> set tr"
  shows "p = NotifyKeyspaceEventsCmd \<and> v = KeyspacePatternForExpiredEvents \<and>
    (forceOverrideConfig r \<or> (\<exists>vs. (EConfigGet a p, RStrs vs) \<in> set tr \<and> (\<forall>v \<in> set vs. v = [])))"
  using Init_checked [OF assms(1)] assms(2) unfolding all_checked_def by force

definition initLog :: log where
  "initLog =
     [(EConfigGet ''localhost:6379'' NotifyKeyspaceEventsCmd, RStrs [''''] ),
      (EConfigSet ''localhost:6379'' NotifyKeyspaceEventsCmd KeyspacePatternForExpiredEvents, ROk),
      (EPSubscribe ''localhost:6379'' MutexKeySpacePattern, RInt 1), (EGoFanIn 1, ROk),
      (EXGroupCreateMkStream ''svc-input'' ''svc-group'' StartFromNow, ROk),
      (EGoReadLBS, ROk), (EGoListenKsp, ROk), (EGoReconcile, ROk)]"

lemma initLog_path: "path (Init sampleClient noSubs) initLog (None, noSubs\<lparr>pubSub := Some 1\<rparr>)"
  by (simp add: Init_def initLog_def enableKeyspaceNotifsForExpiredEvents_def enableKeyspaceNotifsOn_def
      subscribeToExpiredEvents_def eff_simps)

theorem existing_config_kept_witness:
  "(EConfigSet ''localhost:6379'' NotifyKeyspaceEventsCmd KeyspacePatternForExpiredEvents, ROk) \<in> set initLog
   \<and> (\<exists>vs. (EConfigGet ''localhost:6379'' NotifyKeyspaceEventsCmd, RStrs vs) \<in> set initLog \<and> (\<forall>v \<in> set vs. v = []))"
proof -
  have i: "(EConfigSet ''localhost:6379'' NotifyKeyspaceEventsCmd KeyspacePatternForExpiredEvents, ROk) \<in> set initLog"
    by (simp add: initLog_def)
  then show ?thesis using existing_config_kept [OF initLog_path i] by simp
qed

fun worker :: "eff \<Rightarrow> bool" where
  "worker EGoReadLBS = True"
| "worker EGoListenKsp = True"
| "worker EGoReconcile = True"
| "worker _ = False"

lemma filter_setup: "list_all setup_eff es \<Longrightarrow> filter worker es = []"
  by (induction es) (auto elim: setup_eff.elims)

lemma filter_subscribe: "list_all subscribe_eff es \<Longrightarrow> filter worker es = []"
  by (induction es) (auto elim: subscribe_eff.elims)

text \<open>
  C30. \<open>Init\<close> starts everything or nothing. When it returns no error it has started the reader, the
  keyspace listener and the reconciliation loop, once each and after the consumer group exists: the
  last command before them created it, or reported that it exists already. When it returns an error
  it has started none of them.
\<close>

theorem Init_starts_all_or_nothing:
  assumes "path (Init r st) tr (err, st')"
  shows "if err = None
    then \<exists>t x a b c. tr = t @ [(EXGroupCreateMkStream (lbsName r) (lbsGroupName r) StartFromNow, x),
           (EGoReadLBS, a), (EGoListenKsp, b), (EGoReconcile, c)]
         \<and> filter worker (map fst t) = [] \<and> (\<forall>e. x = RErr e \<longrightarrow> sublist ''BUSYGROUP'' (Error e))
    else filter worker (map fst tr) = []"
  using assms
proof (cases rule: Init_path)
  case no_cluster
  then show ?thesis by simp
next
  case no_config
  then show ?thesis by (simp add: enable_effs filter_setup)
next
  case no_group
  then show ?thesis
    by (simp add: filter_setup [OF enable_effs] filter_subscribe [OF subscribe_effs] del: filter_map)
next
  case (started t1 t2 x a b c)
  moreover from this have "filter worker (map fst (t1 @ t2)) = []"
    by (simp add: filter_setup [OF enable_effs] filter_subscribe [OF subscribe_effs] del: filter_map)
  ultimately show ?thesis by (simp del: map_append filter_append)
qed

theorem Init_starts_all_or_nothing_witness: "filter worker (map fst (take 5 initLog)) = []
    \<and> map fst (drop 5 initLog) = [EGoReadLBS, EGoListenKsp, EGoReconcile]"
  using Init_starts_all_or_nothing [OF initLog_path] by (simp add: initLog_def)

text \<open>
  C15. A re-initialization that fails leaves the client's subscriptions alone: it holds those it held,
  none was closed and none opened. Until every node that answered agreed on the topology it has only
  read the cluster's state, so neither a master's configuration nor the client's view of the cluster
  changed; and the failure is recorded, last.
\<close>

theorem failed_reinit_changes_nothing:
  assumes "path (ReinitTopology r st) tr (Some e, st')"
  shows "st' = st \<and> (\<exists>t x. tr = t @ [(EMetric (RecordTopologyReinit False), x)] \<and>
    (list_all reads_cluster (map fst t)
     \<or> (\<exists>t1 y t2. t = t1 @ (EReloadState, y) # t2 \<and> path ensureClusterSettled t1 None
          \<and> list_all reads_cluster (map fst t1) \<and> list_all setup_eff (map fst t2))))"
  using assms
proof (cases rule: ReinitTopology_path)
  case (no_config t1 t2 e' x y)
  then have "tr = (t1 @ (EReloadState, x) # t2) @ [(EMetric (RecordTopologyReinit False), y)]" by simp
  moreover have "list_all reads_cluster (map fst t1)" "list_all setup_eff (map fst t2)"
    using no_config by (simp_all add: settled_effs enable_effs)
  ultimately show ?thesis using no_config(1,5) by blast
next
  case (not_settled t e' x)
  then show ?thesis by (simp add: settled_effs)
qed simp_all

text \<open>A cluster of one node, which says that it is fine, or that it is not.\<close>

definition ossClient :: Client where
  "ossClient = sampleClient\<lparr>isClusterClient := True, clusterMode := ClusterModeOSS\<rparr>"

definition unsettledLog :: log where
  "unsettledLog = [(EForEachShard, RStrs [''n1'']), (EClusterInfo ''n1'', RStr ''cluster_state:fail''),
     (EClusterNodes ''n1'', RStr []), (EMetric (RecordTopologyReinit False), ROk)]"

lemma cluster_state_fail: "clusterInfoField ''cluster_state:fail'' ''cluster_state'' = ''fail''"
  by code_simp

lemma cluster_state_ok: "clusterInfoField ''cluster_state:ok'' ''cluster_state'' = ''ok''"
  by code_simp

lemma unsettledLog_path:
  "\<exists>e. path (ReinitTopology ossClient st) unsettledLog (Some e, st)"
  by (simp add: ReinitTopology_def ossClient_def unsettledLog_def ensureClusterSettled_def askNode_def
      evaluateSettled_def eff_simps cluster_state_fail)

theorem failed_reinit_changes_nothing_witness:
  "\<exists>t x. unsettledLog = t @ [(EMetric (RecordTopologyReinit False), x)] \<and> list_all reads_cluster (map fst t)"
proof -
  obtain e where "path (ReinitTopology ossClient noSubs) unsettledLog (Some e, noSubs)"
    using unsettledLog_path by blast
  from failed_reinit_changes_nothing [OF this] show ?thesis
    by (auto simp: unsettledLog_def Cons_eq_append_conv)
qed

section \<open>No subscription is lost\<close>

lemma setup_quiet: "list_all setup_eff (map fst tr) \<Longrightarrow> quiet tr"
proof (induction tr)
  case (Cons ex tr)
  then show ?case by (cases ex; cases "fst ex") auto
qed simp

lemma reads_quiet: "list_all reads_cluster (map fst tr) \<Longrightarrow> quiet tr"
proof (induction tr)
  case (Cons ex tr)
  then show ?case by (cases ex; cases "fst ex") auto
qed simp

lemma subLogs_balance: "length xs = length ms \<Longrightarrow>
    opened (concat (map2 subLog ms xs)) = map (\<lambda>x. nat (as_num (fst x))) xs
    \<and> closed (concat (map2 subLog ms xs)) = []"
  by (induction xs ms rule: list_induct2) (auto simp: subLog_def)

lemma subscribeOSS_cases:
  assumes "path (subscribeToExpiredEventsOSS r st) tr st'"
  obtains (none) "quiet tr" "st' = st"
  | (all) ms xs where "isClusterClient r" "length xs = length ms"
      "tr = (EForEachMaster, RStrs ms) # concat (map2 subLog ms xs)"
      "st' = st\<lparr>ossPubSubs := ossPubSubs st @ map (\<lambda>x. nat (as_num (fst x))) xs\<rparr>"
  using assms unfolding subscribeToExpiredEventsOSS_def
  by (auto simp: eff_simps path_Vis path_if path_case_sum subscribeMasters_path)

lemma subscribe_balanced:
  assumes "path (subscribeToExpiredEvents r st) tr st'" and "pubSub st = None"
  shows "balanced st tr st' \<and> (clusterMode r = ClusterModeOSS \<longrightarrow> pubSub st' = None)
    \<and> (clusterMode r \<noteq> ClusterModeOSS \<longrightarrow> ossPubSubs st' = ossPubSubs st)"
proof (cases "clusterMode r = ClusterModeOSS")
  case True
  with assms(1) have "path (subscribeToExpiredEventsOSS r st) tr st'"
    by (simp add: subscribeToExpiredEvents_def)
  then show ?thesis
  proof (cases rule: subscribeOSS_cases)
    case none
    with assms(2) True show ?thesis by (simp add: quiet_balanced)
  next
    case (all ms xs)
    with assms(2) True show ?thesis by (simp add: subLogs_balance balanced_def held_def)
  qed
next
  case False
  with assms show ?thesis
    by (auto simp: subscribeToExpiredEvents_def eff_simps path_Vis balanced_def held_def)
qed

lemma Init_balanced:
  assumes "path (Init r st) tr (err, st')" and "pubSub st = None" and "ossPubSubs st = []"
  shows "balanced st tr st' \<and> (clusterMode r = ClusterModeOSS \<longrightarrow> pubSub st' = None)
    \<and> (clusterMode r \<noteq> ClusterModeOSS \<longrightarrow> ossPubSubs st' = [])"
  using assms(1)
proof (cases rule: Init_path)
  case no_cluster
  with assms(2,3) show ?thesis by (simp add: quiet_balanced)
next
  case no_config
  with assms(2,3) show ?thesis by (simp add: quiet_balanced setup_quiet enable_effs)
next
  case (no_group t1 t2 e)
  with subscribe_balanced [OF no_group(2) assms(2)] assms(3) show ?thesis
    using balanced_trans [OF quiet_balanced balanced_trans [OF _ quiet_balanced], of t1 st t2 st']
    by (simp add: setup_quiet enable_effs)
next
  case (started t1 t2 x a b c)
  with subscribe_balanced [OF started(2) assms(2)] assms(3) show ?thesis
    using balanced_trans [OF quiet_balanced balanced_trans [OF _ quiet_balanced], of t1 st t2 st']
    by (simp add: setup_quiet enable_effs)
qed

lemma map_fst_close: "map fst t = map EPubSubClose pss \<Longrightarrow> opened t = [] \<and> closed t = pss"
proof (induction t arbitrary: pss)
  case (Cons ex t)
  then show ?case by (cases ex; cases pss) auto
qed simp

lemma ReinitTopology_balanced:
  assumes "path (ReinitTopology r st) tr (err, st')"
  shows "balanced st tr st' \<and> pubSub st' = pubSub st"
  using assms
proof (cases rule: ReinitTopology_path)
  case (rebuilt t1 t2 t3 t4 x y)
  have q: "quiet t1" "quiet t2"
    using rebuilt by (simp_all add: settled_effs reads_quiet enable_effs setup_quiet)
  have c: "opened t3 = []" "closed t3 = ossPubSubs st" using map_fst_close [OF rebuilt(3)] by simp_all
  from rebuilt(4) show ?thesis
  proof (cases rule: subscribeOSS_cases)
    case none
    with q c show ?thesis unfolding rebuilt(5) by (auto simp: balanced_def held_def quiet_def)
  next
    case (all ms xs)
    with q c show ?thesis
      unfolding rebuilt(5) by (auto simp: balanced_def held_def quiet_def subLogs_balance)
  qed
qed (auto simp: quiet_balanced settled_effs reads_quiet enable_effs setup_quiet)

text \<open>
  C16. A successful re-initialization replaces the subscriptions: those held before are closed, and the
  client then holds exactly one new subscription per master the cluster client listed after the
  reload, each with its relay goroutine. The listing may also fail after the old subscriptions were
  closed; that error is only logged, the re-initialization still counts as successful, and the client
  is left without any subscription.
\<close>

theorem reinit_replaces_subscriptions:
  assumes "path (ReinitTopology r st) tr (None, st')" and "clusterMode r = ClusterModeOSS"
  shows "closed tr = ossPubSubs st \<and> ossPubSubs st' = opened tr \<and>
    ((\<exists>t ms xs x. tr = t @ (EForEachMaster, RStrs ms) # concat (map2 subLog ms xs)
          @ [(EMetric (RecordTopologyReinit True), x)] \<and> length xs = length ms)
     \<or> (\<exists>t x y e. tr = t @ [(EForEachMaster, x), (EMetric (RecordTopologyReinit True), y)]
          \<and> as_strs x = Inl e \<and> ossPubSubs st' = []))"
  using assms(1)
proof (cases rule: ReinitTopology_path)
  case (rebuilt t1 t2 t3 t4 x y)
  have q: "quiet t1" "quiet t2"
    using rebuilt by (simp_all add: settled_effs reads_quiet enable_effs setup_quiet)
  have c: "opened t3 = []" "closed t3 = ossPubSubs st" using map_fst_close [OF rebuilt(3)] by simp_all
  let ?t = "t1 @ (EReloadState, x) # t2 @ t3"
  from rebuilt(4,7) consider (failed) z e where "t4 = [(EForEachMaster, z)]" "as_strs z = Inl e"
      "st' = st\<lparr>ossPubSubs := []\<rparr>"
    | (listed) ms xs where "t4 = (EForEachMaster, RStrs ms) # concat (map2 subLog ms xs)"
      "length xs = length ms" "st' = st\<lparr>ossPubSubs := map (\<lambda>x. nat (as_num (fst x))) xs\<rparr>"
    unfolding subscribeToExpiredEventsOSS_def
    by (auto simp: eff_simps path_Vis path_case_sum subscribeMasters_path)
  then show ?thesis
  proof cases
    case failed
    then have "tr = ?t @ [(EForEachMaster, z), (EMetric (RecordTopologyReinit True), y)]"
      unfolding rebuilt(5) by simp
    moreover have "closed tr = ossPubSubs st \<and> ossPubSubs st' = opened tr"
      unfolding rebuilt(5) using q c failed by (simp add: quiet_def)
    ultimately show ?thesis using failed by (metis Subs.select_convs(2) Subs.surjective Subs.update_convs(2))
  next
    case listed
    then have "tr = ?t @ (EForEachMaster, RStrs ms) # concat (map2 subLog ms xs)
        @ [(EMetric (RecordTopologyReinit True), y)]" unfolding rebuilt(5) by simp
    moreover have "closed tr = ossPubSubs st \<and> ossPubSubs st' = opened tr"
      unfolding rebuilt(5) using q c listed by (simp add: quiet_def subLogs_balance)
    ultimately show ?thesis using listed(2) by blast
  qed
qed (simp_all add: assms(2))

text \<open>The cluster agrees on its topology, but the masters cannot be listed the second time.\<close>

definition lostLog :: log where
  "lostLog = [(EForEachShard, RStrs [''n1'']), (EClusterInfo ''n1'', RStr ''cluster_state:ok''),
     (EClusterNodes ''n1'', RStr []), (EReloadState, ROk), (EForEachMaster, RStrs [''n1'']),
     (EConfigGet ''n1'' NotifyKeyspaceEventsCmd, RStrs [''Ex'']),
     (EConfigSet ''n1'' NotifyKeyspaceEventsCmd KeyspacePatternForExpiredEvents, ROk),
     (EMetric (RecordMasterKeyspaceSetup True), ROk), (EPubSubClose 7, ROk),
     (EForEachMaster, RErr (ErrNew ''redis: nil'')), (EMetric (RecordTopologyReinit True), ROk)]"

lemma lostLog_path:
  "path (ReinitTopology ossClient (noSubs\<lparr>ossPubSubs := [7]\<rparr>)) lostLog (None, noSubs)"
  by (simp add: ReinitTopology_def ossClient_def lostLog_def ensureClusterSettled_def askNode_def
      evaluateSettled_def eff_simps cluster_state_ok enableKeyspaceNotifsForExpiredEvents_def
      enableKeyspaceNotifsOnMasters_def setupMaster_def enableKeyspaceNotifsOn_def sweepResult_def
      closeAll_def subscribeToExpiredEvents_def subscribeToExpiredEventsOSS_def)

theorem reinit_replaces_subscriptions_witness:
  "path (ReinitTopology ossClient (noSubs\<lparr>ossPubSubs := [7]\<rparr>)) lostLog (None, noSubs)
   \<and> closed lostLog = [7] \<and> opened lostLog = []"
  using reinit_replaces_subscriptions [OF lostLog_path] lostLog_path by (simp add: ossClient_def)

lemma DoneStream_quiet: "path (DoneStream r d) tr None \<Longrightarrow> quiet tr"
  by (auto simp: DoneStream_nil_iff)

lemma DoneStreams_quiet: "list_all2 (\<lambda>n t. path (DoneStream r n) t None) ns trs \<Longrightarrow> quiet (concat trs)"
  by (induction rule: list_all2_induct) (auto dest: DoneStream_quiet)

lemma Done_closes: "path (Done r st) tr (None, st') \<Longrightarrow> opened tr = [] \<and> closed tr = held st"
  by (drule Done_nil, fold held_def, elim exE conjE, drule DoneStreams_quiet, drule map_fst_close)
     (simp add: quiet_def)

interpretation client_life: client_lifecycle "streamClient r" for r
proof
  show "path (cInit (streamClient r) noSubs) tr (err, st) \<Longrightarrow> balanced noSubs tr st" for tr err st
    using Init_balanced [of r noSubs tr err st] by simp
  show "path (cReinitTopology (streamClient r) st) tr (err, st') \<Longrightarrow> balanced st tr st'" for st tr err st'
    using ReinitTopology_balanced by simp
  show "path (cDone (streamClient r) st) tr (None, st') \<Longrightarrow> opened tr = [] \<and> closed tr = held st" for st tr st'
    using Done_closes by simp
qed

text \<open>
  C13. No subscription outlives the client: over the whole life of a client that ends with a
  successful \<open>Done\<close>, in both modes, with any number of re-initializations in between, failed ones
  included, the subscriptions closed are exactly those opened, each as often as it was opened.
\<close>

theorem every_subscription_closed:
  assumes "path (clientLife (streamClient r) n) tr None"
  shows "mset (opened tr) = mset (closed tr)"
  using assms by (rule client_life.all_closed)

theorem every_subscription_closed_witness:
  "opened (initLog @ [(ELocksNames, RStrs []), (EKspDrain, ROk), (EBrokerClose, ROk), (ECancel, ROk),
      (EPubSubClose 1, ROk)]) = [1]
   \<and> mset [1] = mset (closed (initLog @ [(ELocksNames, RStrs []), (EKspDrain, ROk), (EBrokerClose, ROk),
      (ECancel, ROk), (EPubSubClose 1, ROk)]))"
proof -
  let ?d = "[(ELocksNames, RStrs []), (EKspDrain, ROk), (EBrokerClose, ROk), (ECancel, ROk), (EPubSubClose 1, ROk)]"
  have "path (clientLife (streamClient sampleClient) 0) (initLog @ ?d) None"
    unfolding clientLife_def streamClient_simps
    by (rule path_bindI [OF initLog_path])
       (simp add: path_bind_Ret Done_def cleanup_def closeAll_def eff_simps Let_def)
  from every_subscription_closed [OF this] show ?thesis by (simp add: initLog_def)
qed

end
