(* ===== verification/ConfigProps.thy ===== *)
theory ConfigProps
  imports Samples
begin

text \<open>
  What every client that \<open>NewRedisStreamClient\<close> returns is like, whatever options it was given, and
  when construction fails.
\<close>

section \<open>Construction\<close>

lemma NewRedisStreamClient_Inr:
  assumes "NewRedisStreamClient podName podIP isCluster at service opts = Inr r"
  obtains r0 where "podName \<noteq> [] \<or> podIP \<noteq> []"
    "apply_opts opts (initialClient isCluster at service
       (RedisConsumerPrefix @ (if podName \<noteq> [] then podName else podIP))) = Inr r0"
    "r = (if DLQStream (recoveryConfig r0) = []
          then r0\<lparr>recoveryConfig := (recoveryConfig r0)\<lparr>DLQStream := lbsName r0 @ DLQSuffix\<rparr>\<rparr>
          else r0)\<lparr>brokerInputCap := DefaultOutputChanSize\<rparr>"
  using assms unfolding NewRedisStreamClient_def Let_def by (auto split: if_splits sum.splits)

text \<open>
  C33. A client that was constructed is valid, whatever options were passed, in any order and number:
  its recovery and retry settings are in range, the idle time is at least twice the heartbeat, channels
  have room, it has a name made of the pod name or else the address, and it has a dead letter queue.
  The keyspace channel always has the default capacity: \<open>WithKspChanSize\<close> does not reach it.
\<close>

theorem constructed_client_is_valid:
  assumes "\<forall>opt \<in> set opts. library_option opt"
    and "NewRedisStreamClient podName podIP isCluster at service opts = Inr r"
  shows "client_inv r \<and> DLQStream (recoveryConfig r) \<noteq> [] \<and> serviceName r = service
    \<and> consumerID r = RedisConsumerPrefix @ (if podName \<noteq> [] then podName else podIP)
    \<and> (podName \<noteq> [] \<or> podIP \<noteq> []) \<and> kspChanCap r = DefaultKspChanSize"
  using assms(2)
proof (rule NewRedisStreamClient_Inr)
  fix r0
  let ?init = "initialClient isCluster at service (RedisConsumerPrefix @ (if podName \<noteq> [] then podName else podIP))"
  assume pod: "podName \<noteq> [] \<or> podIP \<noteq> []" and ok: "apply_opts opts ?init = Inr r0"
    and r: "r = (if DLQStream (recoveryConfig r0) = []
          then r0\<lparr>recoveryConfig := (recoveryConfig r0)\<lparr>DLQStream := lbsName r0 @ DLQSuffix\<rparr>\<rparr>
          else r0)\<lparr>brokerInputCap := DefaultOutputChanSize\<rparr>"
  have "client_inv r0" using apply_opts_inv [OF assms(1) client_inv_initial ok] .
  then have "client_inv r" by (auto simp: r client_inv_def recovery_ok_def retry_ok_def)
  moreover have "consumerID r0 = consumerID ?init \<and> serviceName r0 = serviceName ?init
      \<and> kspChanCap r0 = kspChanCap ?init"
    using apply_opts_identity [OF assms(1) ok] by blast
  ultimately show ?thesis using pod by (auto simp: r initialClient_def cfg_simps)
qed

theorem constructed_client_is_valid_witness:
  "\<exists>r. NewRedisStreamClient ''pod'' [] False ''localhost:6379'' ''svc'' [WithKspChanSize 7] = Inr r
     \<and> kspChanSize r = 7 \<and> kspChanCap r = 500"
proof -
  obtain r where r: "NewRedisStreamClient ''pod'' [] False ''localhost:6379'' ''svc'' [WithKspChanSize 7] = Inr r"
    and k: "kspChanSize r = 7"
    by (simp add: NewRedisStreamClient_def WithKspChanSize_def initialClient_def DefaultRecoveryConfig_def
        Let_def cfg_simps)
  have "\<forall>opt \<in> set [WithKspChanSize 7]. library_option opt" by (simp add: library_option.intros)
  from constructed_client_is_valid [OF this r] r k show ?thesis by (simp add: cfg_simps)
qed

text \<open>Construction fails exactly when the pod is not named or an option is refused.\<close>

lemma NewRedisStreamClient_Inl:
  "NewRedisStreamClient podName podIP isCluster at service opts = Inl e \<longleftrightarrow>
     (podName = [] \<and> podIP = [] \<and> e = Sentinel ErrPodConfigMissing)
     \<or> ((podName \<noteq> [] \<or> podIP \<noteq> []) \<and> apply_opts opts (initialClient isCluster at service
         (RedisConsumerPrefix @ (if podName \<noteq> [] then podName else podIP))) = Inl e)"
  unfolding NewRedisStreamClient_def Let_def by (auto split: sum.splits)

end
