(* ===== verification/Demo.thy ===== *)
theory Demo
  imports JsonRound Reader TopologyProps ConfigProps "HOL-Library.Word"
begin

text \<open>
  The load balancing example (\<open>examples/load-balancing/main.go\<close>): the messages its producer writes,
  what its consumer does with the notifications of a client, and the life of the two programs. Message
  numbers do not wrap, and the log lines are left out.
\<close>

section \<open>Time stamps\<close>

text \<open>
  \<open>Time.Format(time.RFC3339)\<close>: the civil date of a number of days since 1970-01-01 in the proleptic
  Gregorian calendar, the time of day, and the offset of the local zone, which is an input.
\<close>

definition civil :: "int \<Rightarrow> int \<times> int \<times> int" where
  "civil days =
     (let z = days + 719468; era = z div 146097; doe = z mod 146097;
          yoe = (doe - doe div 1460 + doe div 36524 - doe div 146096) div 365;
          doy = doe - (365 * yoe + yoe div 4 - yoe div 100);
          mp = (5 * doy + 2) div 153;
          day = doy - (153 * mp + 2) div 5 + 1;
          month = (if mp < 10 then mp + 3 else mp - 9);
          year = yoe + era * 400
      in (if month \<le> 2 then year + 1 else year, month, day))"

definition pad :: "nat \<Rightarrow> int \<Rightarrow> string" where
  "pad w n = (let ds = nat_digits (nat n) in replicate (w - length ds) (CHR ''0'') @ ds)"

text \<open>The offset is in minutes.\<close>

definition zone :: "int \<Rightarrow> string" where
  "zone off =
     (if off = 0 then ''Z''
      else (if off < 0 then ''-'' else ''+'') @ pad 2 (\<bar>off\<bar> div 60) @ '':'' @ pad 2 (\<bar>off\<bar> mod 60))"

definition rfc3339 :: "int \<Rightarrow> int \<Rightarrow> string" where
  "rfc3339 off nanos =
     (let secs = nanos div 1000000000 + off * 60; tod = secs mod 86400;
          (year, month, day) = civil (secs div 86400)
      in pad 4 year @ ''-'' @ pad 2 month @ ''-'' @ pad 2 day @ ''T''
         @ pad 2 (tod div 3600) @ '':'' @ pad 2 (tod div 60 mod 60) @ '':'' @ pad 2 (tod mod 60) @ zone off)"

section \<open>The producer\<close>

definition priorityOf :: "nat \<Rightarrow> string" where
  "priorityOf messageID = [''low'', ''normal'', ''high''] ! (messageID mod 3)"

text \<open>The entries of the map, by increasing key.\<close>

definition producerMessage :: "nat \<Rightarrow> string \<Rightarrow> LBSInputMessage" where
  "producerMessage messageID createdAt =
     \<lparr>MsgDataStreamName = ''order-stream-'' @ nat_digits messageID,
      MsgInfo = Some
        [(''amount'', ANum (nat_digits (messageID mod 1000 + 100))),
         (''created_at'', AStr createdAt),
         (''customer_id'', AStr (''customer-'' @ nat_digits (messageID mod 100))),
         (''order_id'', AStr (''order-'' @ nat_digits messageID)),
         (''priority'', AStr (priorityOf messageID)),
         (''status'', AStr ''pending'')]\<rparr>"

definition producedFields :: "nat \<Rightarrow> string \<Rightarrow> fields" where
  "producedFields messageID createdAt =
     [''lbs-input'' \<mapsto> AStr (Marshal (producerMessage messageID createdAt))]"

text \<open>One batch and the endless loop, with a bound on the number of batches.\<close>

fun produceBatch :: "int \<Rightarrow> nat \<Rightarrow> nat \<Rightarrow> nat prog" where
  "produceBatch off 0 messageID = Ret messageID"
| "produceBatch off (Suc i) messageID =
     now (\<lambda>t. xAdd ''load-balance-demo-input'' (producedFields messageID (rfc3339 off t)) 0 False (\<lambda>_.
       produceBatch off i (messageID + 1)))"

fun produceLoop :: "nat \<Rightarrow> int \<Rightarrow> nat \<Rightarrow> nat prog" where
  "produceLoop 0 off messageID = Ret messageID"
| "produceLoop (Suc fuel) off messageID =
     bind (produceBatch off 5 messageID) (\<lambda>n. sleep (3 * Second) (produceLoop fuel off n))"

definition demoRedisAddr :: "string \<Rightarrow> addr" where
  "demoRedisAddr env = (if env = '''' then ''localhost:6379'' else env)"

text \<open>\<open>None\<close> is \<open>os.Exit(1)\<close>.\<close>

definition runProducer :: "nat \<Rightarrow> int \<Rightarrow> string \<Rightarrow> nat option prog" where
  "runProducer fuel off redisEnv =
     ping (demoRedisAddr redisEnv) (\<lambda>err. case err of
       Some _ \<Rightarrow> Ret None
     | None \<Rightarrow> bind (produceLoop fuel off 0) (\<lambda>n. Ret (Some n)))"

section \<open>The consumer\<close>

text \<open>
  The switch over a notification: the result lists the notifications for which a goroutine
  \<open>handleStreamAdded\<close> is started; an expired stream is claimed on the spot.
\<close>

definition onNotification :: "RedisStreamClient \<Rightarrow> RecoverableRedisNotification \<Rightarrow> RecoverableRedisNotification list prog" where
  "onNotification client n =
     (case NType n of
        StreamAdded \<Rightarrow> Ret [n]
      | StreamExpired \<Rightarrow> bind (cClaim client (Payload n)) (\<lambda>_. Ret [])
      | _ \<Rightarrow> Ret [])"

fun consume :: "RedisStreamClient \<Rightarrow> RecoverableRedisNotification list \<Rightarrow> RecoverableRedisNotification list prog" where
  "consume client [] = Ret []"
| "consume client (n # ns) = bind (onNotification client n) (\<lambda>hs. bind (consume client ns) (\<lambda>hs'. Ret (hs @ hs')))"

definition processingTime :: "RecoverableRedisNotification \<Rightarrow> int" where
  "processingTime n =
     (case map_of (case AdditionalInfo n of None \<Rightarrow> [] | Some m \<Rightarrow> m) ''priority'' of
        None \<Rightarrow> 2 * Second
      | Some v \<Rightarrow>
          (case assert_string v of
             None \<Rightarrow> 2 * Second
           | Some priority \<Rightarrow>
               if priority = ''high'' then 1 * Second
               else if priority = ''low'' then 4 * Second else 2 * Second))"

text \<open>\<open>processedStreams\<close> and \<open>streamCount\<close>, a 32-bit counter.\<close>

record demo =
  processedStreams :: "string \<rightharpoonup> int"
  streamCount :: "32 word"

definition handleStreamAdded :: "RedisStreamClient \<Rightarrow> RecoverableRedisNotification \<Rightarrow> demo \<Rightarrow> (goerror option \<times> demo) prog" where
  "handleStreamAdded client n st =
     (let streamName = DataStreamName (Payload n) in
      sleep (processingTime n)
      (now (\<lambda>t. let st1 = st\<lparr>processedStreams := (processedStreams st)(streamName \<mapsto> t),
                             streamCount := streamCount st + 1\<rparr>
        in bind (cDoneStream client streamName) (\<lambda>err. Ret (err, st1)))))"

section \<open>The program\<close>

datatype role = Producer | Consumer

definition mainRole :: "string list \<Rightarrow> role" where
  "mainRole args = (if length args > 1 \<and> args ! 1 = ''producer'' then Producer else Consumer)"

definition demoConsumerID :: "string \<Rightarrow> (string \<Rightarrow> 'a prog) \<Rightarrow> 'a prog" where
  "demoConsumerID podName k =
     (if podName = '''' then now (\<lambda>t. k (''consumer-'' @ Itoa (t div 1000000000))) else k podName)"

definition demoClient :: "string \<Rightarrow> string \<Rightarrow> bool \<Rightarrow> addr \<Rightarrow> goerror + Client" where
  "demoClient podName podIP isCluster redisAddr =
     NewRedisStreamClient podName podIP isCluster redisAddr ''load-balance-demo''
       [WithRetryConfig \<lparr>rcMaxRetries = -1, rcInitialRetryDelay = 100 * Millisecond,
          rcMaxRetryDelay = 30 * Second\<rparr>, WithForceConfigOverride]"

text \<open>
  A run of the consumer: \<open>ExitedEarly\<close> is \<open>os.Exit(1)\<close>, which skips the deferred calls; \<open>NilClient\<close>
  is the call of a method on the client when its construction failed, an error that is only logged;
  \<open>ShutDown\<close> carries the result of \<open>Done\<close>. The goroutines it starts run \<open>consume\<close> and
  \<open>printStatistics\<close>.
\<close>

datatype consumerEnd = ExitedEarly | NilClient | ShutDown "goerror option"

definition serve :: "RedisStreamClient \<Rightarrow> addr \<Rightarrow> consumerEnd prog" where
  "serve client redisAddr =
     bind (cInit client noSubs) (\<lambda>res. case fst res of
       Some _ \<Rightarrow> Ret ExitedEarly
     | None \<Rightarrow>
         goConsume (goStatistics (awaitSignal
         (bind (cDone client (snd res)) (\<lambda>done. clientClose redisAddr (Ret (ShutDown (fst done))))))))"

definition runConsumer :: "string \<Rightarrow> string \<Rightarrow> bool \<Rightarrow> string \<Rightarrow> consumerEnd prog" where
  "runConsumer podNameEnv podIP isCluster redisEnv =
     demoConsumerID podNameEnv (\<lambda>consumer.
     let redisAddr = demoRedisAddr redisEnv in
     ping redisAddr (\<lambda>err. case err of
       Some _ \<Rightarrow> Ret ExitedEarly
     | None \<Rightarrow>
         configSet redisAddr ''notify-keyspace-events'' ''KEx'' (\<lambda>err. case err of
           Some _ \<Rightarrow> Ret ExitedEarly
         | None \<Rightarrow>
             (case demoClient consumer podIP isCluster redisAddr of
                Inl _ \<Rightarrow> clientClose redisAddr (Ret NilClient)
              | Inr client \<Rightarrow> serve (streamClient client) redisAddr))))"

text \<open>\<open>printStatistics\<close>: the streams processed in the last ten seconds, the clock read for each.\<close>

fun recentCount :: "(string \<times> int) list \<Rightarrow> int \<Rightarrow> int prog" where
  "recentCount [] n = Ret n"
| "recentCount ((streamName, processedTime) # rest) n =
     now (\<lambda>t. recentCount rest (if t - processedTime < 10 * Second then n + 1 else n))"

text \<open>
  The statistics goroutine, over the contents of \<open>processedStreams\<close> at each tick: the counts it shows,
  and whether the context ended it.
\<close>

fun printStatistics :: "(string \<times> int) list list \<Rightarrow> (int list \<times> bool) prog" where
  "printStatistics [] = Ret ([], False)"
| "printStatistics (streams # later) =
     afterOrDone (10 * Second) (\<lambda>done. if done then Ret ([], True)
       else bind (recentCount streams 0) (\<lambda>recent.
         bind (printStatistics later) (\<lambda>(shown, stopped). Ret (if recent > 0 then recent # shown else shown, stopped))))"

section \<open>What the producer writes is what the consumer reads\<close>

definition ascii :: "string \<Rightarrow> bool" where
  "ascii s \<longleftrightarrow> list_all (\<lambda>c. byte c < 128) s"

lemma ascii_simps [simp]: "ascii []" "ascii (c # s) \<longleftrightarrow> byte c < 128 \<and> ascii s" "ascii (s @ t) \<longleftrightarrow> ascii s \<and> ascii t"
    "ascii (replicate n c) \<longleftrightarrow> n = 0 \<or> byte c < 128"
  by (auto simp: ascii_def list_all_iff)

lemma byte_Char [simp]: "byte (Char a b c d e f g h) = of_char (Char a b c d e f g h)"
  by (simp only: byte_def)

lemma ascii_utf8: "ascii s \<Longrightarrow> utf8_ok s"
  by (induction s) (simp_all add: utf8_len_ascii)

lemma digit_ascii: "digit_val c \<noteq> None \<Longrightarrow> byte c < 128"
proof -
  have "int (byte c) = of_char c" by (simp add: byte_def of_nat_of_char)
  then show "digit_val c \<noteq> None \<Longrightarrow> byte c < 128" by (auto simp: digit_val_def Let_def split: if_splits)
qed

lemma nat_digits_ascii [simp]: "ascii (nat_digits n)"
  by (auto simp: ascii_def list_all_iff dest!: nat_digits_digits intro!: digit_ascii)

lemma pad_ascii [simp]: "ascii (pad w n)"
  by (simp add: pad_def Let_def)

lemma nat_digits_no_zero: "0 < n \<Longrightarrow> hd (nat_digits n) \<noteq> CHR ''0''"
proof (induction n rule: nat_digits.induct)
  case (1 n)
  show ?case
  proof (cases "n < 10")
    case True
    then have "byte (char_of (48 + n)) \<noteq> 48" using 1(2) by simp
    moreover have "byte (CHR ''0'') = 48" by code_simp
    ultimately show ?thesis using True by (subst nat_digits.simps) (auto simp del: byte_char_of)
  next
    case False
    with 1 show ?thesis by (subst nat_digits.simps) (simp add: nat_digits_nonempty)
  qed
qed

lemma plain_nat_digits: "plain_num (nat_digits n)"
proof (cases "n = 0")
  case True
  have "plain_num (nat_digits 0)" by code_simp
  with True show ?thesis by simp
next
  case False
  then show ?thesis
    using nat_digits_no_zero [of n] nat_digits_digits [of _ n]
    by (auto simp: plain_num_def nat_digits_nonempty list_all_iff is_digit_def)
qed

lemma rfc3339_ascii: "ascii (rfc3339 off t)"
  by (simp add: rfc3339_def zone_def Let_def split: prod.splits)

lemma small_number_fits:
  assumes "n < 1100"
  shows "\<not> num_overflows (nat_digits n)"
proof -
  have d: "\<forall>c \<in> set (nat_digits n). is_digit c" using nat_digits_digits by (auto simp: is_digit_def)
  then have t: "takeWhile is_digit (nat_digits n) = nat_digits n" "dropWhile is_digit (nat_digits n) = []"
    by (simp_all add: takeWhile_eq_all_conv dropWhile_eq_Nil_conv)
  have "int n < 2 ^ 1024 - 2 ^ 970" using assms by simp
  then have "\<not> int n * 10 ^ nat 0 \<ge> 2 ^ 1024 - 2 ^ 970" by simp
  with hd_nat_digits(1) [of n] show ?thesis
    unfolding num_overflows_def Let_def by (simp add: t parse_nat_digits)
qed

lemma priority_ascii: "ascii (priorityOf n)"
proof -
  have "ascii w" if "w \<in> set [''low'', ''normal'', ''high'']" for w using that by auto
  moreover have "priorityOf n \<in> set [''low'', ''normal'', ''high'']"
    unfolding priorityOf_def by (rule nth_mem) simp
  ultimately show ?thesis by blast
qed

lemma info_keys_ok:
  "sorted [''amount'', ''created_at'', ''customer_id'', ''order_id'', ''priority'', ''status'']"
  "list_all utf8_ok [''amount'', ''created_at'', ''customer_id'', ''order_id'', ''priority'', ''status'', ''pending'']"
  by code_simp+

lemma producer_info_ok:
  assumes "ascii c" and "MsgInfo (producerMessage n c) = Some ms"
  shows "json_ok (AMap ms)" "\<forall>(k, v) \<in> set ms. scalar_ok v"
proof -
  have "utf8_ok (''customer-'' @ nat_digits (n mod 100))" "utf8_ok (''order-'' @ nat_digits n)"
      "utf8_ok (priorityOf n)" "utf8_ok c"
    using assms(1) priority_ascii by (simp_all add: ascii_utf8 del: utf8_ok.simps)
  then show "json_ok (AMap ms)"
    using assms(2) plain_nat_digits info_keys_ok
    by (auto simp: producerMessage_def simp del: utf8_ok.simps append.simps)
  show "\<forall>(k, v) \<in> set ms. scalar_ok v"
    using assms(2) small_number_fits by (auto simp: producerMessage_def scalar_ok_def)
qed

lemma parse_produced:
  assumes "i \<noteq> []" and "ascii c"
  shows "parseMessage \<lparr>XID = i, XValues = producedFields n c\<rparr> =
    Inr (producerMessage n c, \<lparr>DataStreamName = ''order-stream-'' @ nat_digits n, IDInLBS = i\<rparr>)"
proof -
  obtain ms where ms: "MsgInfo (producerMessage n c) = Some ms" by (simp add: producerMessage_def)
  have "ascii (MsgDataStreamName (producerMessage n c))" by (simp add: producerMessage_def)
  then have "Unmarshal (Marshal (producerMessage n c)) = Inr (producerMessage n c)"
    using Unmarshal_Marshal [OF _ ms producer_info_ok [OF assms(2) ms]] ascii_utf8 by blast
  moreover have "MsgDataStreamName (producerMessage n c) = ''order-stream-'' @ nat_digits n"
    by (simp add: producerMessage_def)
  ultimately show ?thesis
    using assms(1) by (simp add: parseMessage_def producedFields_def LBSInput_def CreateByParts_def)
qed

lemma demo_client_built:
  assumes "podName \<noteq> []"
  shows "\<exists>r. demoClient podName podIP isCluster at = Inr r \<and> lbsName r = ''load-balance-demo-input''
    \<and> maxRetries r = -1 \<and> forceOverrideConfig r \<and> clusterMode r = ClusterModeSingleShard"
  using assms
  by (simp add: demoClient_def NewRedisStreamClient_def WithRetryConfig_def WithForceConfigOverride_def
      RetryConfig_Validate_def initialClient_def DefaultRecoveryConfig_def lbsName_def Let_def cfg_simps)

text \<open>The error that is only logged cannot happen with the options of the example.\<close>

lemma runConsumer_serves:
  assumes "path (runConsumer podNameEnv podIP isCluster redisEnv) tr res"
  shows "res = ExitedEarly \<or> (\<exists>consumer r t1 t2. demoClient consumer podIP isCluster (demoRedisAddr redisEnv) = Inr r
    \<and> tr = t1 @ t2 \<and> opened t1 = [] \<and> closed t1 = [] \<and> path (serve (streamClient r) (demoRedisAddr redisEnv)) t2 res)"
proof -
  let ?a = "demoRedisAddr redisEnv"
  define rest where "rest = (\<lambda>consumer. ping ?a (\<lambda>err. case err of
       Some _ \<Rightarrow> Ret ExitedEarly
     | None \<Rightarrow> configSet ?a ''notify-keyspace-events'' ''KEx'' (\<lambda>err. case err of
           Some _ \<Rightarrow> Ret ExitedEarly
         | None \<Rightarrow> (case demoClient consumer podIP isCluster ?a of
                Inl _ \<Rightarrow> clientClose ?a (Ret NilClient)
              | Inr client \<Rightarrow> serve (streamClient client) ?a))))"
  obtain t0 t1 consumer where tr: "tr = t0 @ t1" "opened t0 = []" "closed t0 = []" "consumer \<noteq> []"
    and "path (rest consumer) t1 res"
  proof (cases "podNameEnv = []")
    case True
    with assms obtain x tr' where "tr = [(ENow, x)] @ tr'"
        "path (rest (''consumer-'' @ Itoa (as_num x div 1000000000))) tr' res"
      by (auto simp: runConsumer_def demoConsumerID_def rest_def Let_def now_def path_Vis)
    then show ?thesis by (intro that [of "[(ENow, x)]" tr']) simp_all
  next
    case False
    with assms have "path (rest podNameEnv) tr res"
      by (simp add: runConsumer_def demoConsumerID_def rest_def Let_def)
    with False show ?thesis by (intro that [of "[]"]) simp_all
  qed
  moreover obtain r where r: "demoClient consumer podIP isCluster ?a = Inr r"
    using demo_client_built [OF \<open>consumer \<noteq> []\<close>] by blast
  ultimately have "res = ExitedEarly \<or> (\<exists>x y t2. t1 = [(EPing ?a, x), (EConfigSet ?a ''notify-keyspace-events'' ''KEx'', y)] @ t2
      \<and> path (serve (streamClient r) ?a) t2 res)"
    by (auto simp: rest_def eff_simps path_Vis path_case_option)
  then show ?thesis
  proof (elim disjE exE conjE)
    fix x y t2
    assume t1: "t1 = [(EPing ?a, x), (EConfigSet ?a ''notify-keyspace-events'' ''KEx'', y)] @ t2"
      and p: "path (serve (streamClient r) ?a) t2 res"
    let ?t = "t0 @ [(EPing ?a, x), (EConfigSet ?a ''notify-keyspace-events'' ''KEx'', y)]"
    have "tr = ?t @ t2" "opened ?t = []" "closed ?t = []" using tr t1 by simp_all
    with r p show ?thesis by blast
  qed simp
qed

lemma serve_balanced:
  assumes "path (serve (streamClient r) a) tr (ShutDown None)"
  shows "mset (opened tr) = mset (closed tr)"
proof -
  let ?mid = "\<lambda>x y z. [(EGoConsume, x), (EGoStatistics, y), (EAwaitSignal, z)]"
  obtain t1 t2 st x y z w st' where tr: "tr = t1 @ ?mid x y z @ t2 @ [(EClientClose a, w)]"
    and i: "path (Init r noSubs) t1 (None, st)" and d: "path (Done r st) t2 (None, st')"
    using assms by (auto simp: serve_def path_bind path_case_option eff_simps path_Vis)
  have "path (reinits (streamClient r) 0 st) [] st" by simp
  then have "path (clientLife (streamClient r) 0) (t1 @ t2) None"
    using i d by (auto simp: clientLife_def path_bind path_case_option)
  from client_life.all_closed [OF this] show ?thesis by (simp add: tr)
qed

text \<open>
  A consumer that is shut down cleanly has closed every subscription it opened, and its run never
  calls a method of a client that was not constructed.
\<close>

lemma runConsumer_clean:
  assumes "path (runConsumer podNameEnv podIP isCluster redisEnv) tr res"
  shows "res \<noteq> NilClient" "res = ShutDown None \<Longrightarrow> mset (opened tr) = mset (closed tr)"
proof -
  have "\<not> path (serve c a) t NilClient" for c a t
    by (auto simp: serve_def path_bind path_case_option eff_simps path_Vis)
  with runConsumer_serves [OF assms] show "res \<noteq> NilClient" by auto
  assume "res = ShutDown None"
  with runConsumer_serves [OF assms] obtain r t1 t2 where "tr = t1 @ t2" "opened t1 = []" "closed t1 = []"
    "path (serve (streamClient r) (demoRedisAddr redisEnv)) t2 (ShutDown None)" by auto
  with serve_balanced show "mset (opened tr) = mset (closed tr)" by simp
qed

text \<open>
  C34. The example's producer and the client understand each other. The stream the producer writes to is
  the one the client of the example reads. The \<open>n\<close>-th message the producer
  writes, whatever the clock and the time zone, passes all checks of the reader under any message id:
  it is decoded to exactly the structure that was encoded, for the data stream \<open>order-stream-n\<close>. The
  notification the reader makes of it keeps the example's consumer busy for 4, 2 or 1 seconds,
  according to the priority the producer gave the order.
\<close>

theorem produced_message_is_consumed:
  assumes "i \<noteq> []" and "podName \<noteq> []"
  shows "(\<exists>r. demoClient podName podIP isCluster at = Inr r \<and> lbsName r = ''load-balance-demo-input'')
    \<and> parseMessage \<lparr>XID = i, XValues = producedFields n (rfc3339 off t)\<rparr> =
      Inr (producerMessage n (rfc3339 off t), \<lparr>DataStreamName = ''order-stream-'' @ nat_digits n, IDInLBS = i\<rparr>)
    \<and> processingTime (Make StreamAdded \<lparr>DataStreamName = ''order-stream-'' @ nat_digits n, IDInLBS = i\<rparr>
        (MsgInfo (producerMessage n (rfc3339 off t)))) = [4 * Second, 2 * Second, 1 * Second] ! (n mod 3)"
proof (intro conjI)
  show "\<exists>r. demoClient podName podIP isCluster at = Inr r \<and> lbsName r = ''load-balance-demo-input''"
    using demo_client_built [OF assms(2)] by blast
  have "n mod 3 = 0 \<or> n mod 3 = 1 \<or> n mod 3 = 2" by linarith
  then show "processingTime (Make StreamAdded \<lparr>DataStreamName = ''order-stream-'' @ nat_digits n, IDInLBS = i\<rparr>
        (MsgInfo (producerMessage n (rfc3339 off t)))) = [4 * Second, 2 * Second, 1 * Second] ! (n mod 3)"
    by (elim disjE) (simp_all add: processingTime_def Make_def producerMessage_def priorityOf_def)
qed (rule parse_produced [OF assms(1) rfc3339_ascii])

theorem produced_message_is_consumed_witness:
  "rfc3339 0 1700000000000000000 = ''2023-11-14T22:13:20Z''
   \<and> parseMessage \<lparr>XID = ''1-0'', XValues = producedFields 7 ''2023-11-14T22:13:20Z''\<rparr> =
      Inr (producerMessage 7 ''2023-11-14T22:13:20Z'', \<lparr>DataStreamName = ''order-stream-7'', IDInLBS = ''1-0''\<rparr>)"
proof -
  have r: "rfc3339 0 1700000000000000000 = ''2023-11-14T22:13:20Z''" by code_simp
  have "''order-stream-'' @ nat_digits 7 = ''order-stream-7''" by code_simp
  with produced_message_is_consumed [of "''1-0''" "''pod''" "[]" False "''localhost:6379''" 7 0 1700000000000000000] r
  show ?thesis by simp
qed

lemma produceBatch_writes:
  "path (produceBatch off k n) tr m \<Longrightarrow> m = n + k \<and>
     (\<exists>ts. length ts = k \<and> filter is_add (map fst tr)
        = map2 (\<lambda>j t. EXAdd ''load-balance-demo-input'' (producedFields j (rfc3339 off t)) 0 False) [n ..< n + k] ts)"
proof (induction k arbitrary: n tr)
  case (Suc k)
  then obtain x y tr' where tr: "tr = (ENow, x) # (EXAdd ''load-balance-demo-input''
      (producedFields n (rfc3339 off (as_num x))) 0 False, y) # tr'" and "path (produceBatch off k (n + 1)) tr' m"
    by (auto simp: eff_simps path_Vis)
  with Suc.IH obtain ts where "m = n + 1 + k" "length ts = k" "filter is_add (map fst tr')
      = map2 (\<lambda>j t. EXAdd ''load-balance-demo-input'' (producedFields j (rfc3339 off t)) 0 False) [n + 1 ..< n + 1 + k] ts"
    by blast
  then show ?case
    by (intro conjI exI [of _ "as_num x # ts"]) (simp_all add: tr upt_conv_Cons del: upt_Suc)
qed simp

text \<open>
  The consumer starts one handler for every stream added, in order, and claims every expired one.
\<close>

lemma consume_handlers:
  "path (consume (streamClient r) ns) tr hs \<Longrightarrow> hs = filter (\<lambda>n. NType n = StreamAdded) ns \<and>
     (\<exists>trs. tr = concat trs \<and> list_all2 (\<lambda>n t. \<exists>err. path (Claim r (Payload n)) t err)
        (filter (\<lambda>n. NType n = StreamExpired) ns) trs)"
proof (induction ns arbitrary: tr hs)
  case (Cons n ns)
  then obtain t1 t2 h1 h2 where tr: "tr = t1 @ t2" "hs = h1 @ h2" and t1: "path (onNotification (streamClient r) n) t1 h1"
    and "path (consume (streamClient r) ns) t2 h2" by (auto simp: path_bind)
  with Cons.IH obtain trs where IH: "h2 = filter (\<lambda>n. NType n = StreamAdded) ns" "t2 = concat trs"
    "list_all2 (\<lambda>n t. \<exists>err. path (Claim r (Payload n)) t err) (filter (\<lambda>n. NType n = StreamExpired) ns) trs"
    by blast
  show ?case
  proof (cases "NType n = StreamExpired")
    case True
    with t1 have "h1 = []" "\<exists>err. path (Claim r (Payload n)) t1 err"
      by (auto simp: onNotification_def path_bind)
    with True IH tr show ?thesis by (intro conjI exI [of _ "t1 # trs"]) auto
  next
    case False
    with t1 have "t1 = []" "h1 = (if NType n = StreamAdded then [n] else [])"
      by (auto simp: onNotification_def split: NotificationType.splits)
    with False IH tr show ?thesis by auto
  qed
qed simp

lemma handleStreamAdded_finishes:
  "path (handleStreamAdded (streamClient r) n st) tr (None, st') \<longleftrightarrow>
     (\<exists>x t tr'. tr = (ESleep (processingTime n), x) # (ENow, t) # tr'
        \<and> path (DoneStream r (DataStreamName (Payload n))) tr' None
        \<and> st' = st\<lparr>processedStreams := (processedStreams st)(DataStreamName (Payload n) \<mapsto> as_num t),
             streamCount := streamCount st + 1\<rparr>)"
  by (auto simp: handleStreamAdded_def Let_def eff_simps path_Vis path_bind_Ret)

end
