(* ===== verification/Spec2Isabelle.thy ===== *)
theory Spec2Isabelle
  imports Races Ownership Broker Metrics Demo
begin

text \<open>
  A verification development of \<open>redis-stream-client-go\<close>, a Go client library that distributes data
  streams over the consumers of a service through one Redis stream, the load balancer stream (LBS),
  and recovers the streams of consumers that die. File names below are relative to \<open>src/\<close>.

  \<^bold>\<open>The program.\<close> A producer adds one LBS entry per data stream. Every client reads the LBS as a
  member of one consumer group (\<open>impl/init.go\<close>, \<open>readLBSStream\<close>), locks a mutex named after the data
  stream and the entry, announces the stream on its output channel as \<open>StreamAdded\<close> and extends the
  lock until the stream is finished (\<open>startExtendingKey\<close>). \<open>DoneStream\<close> and \<open>Done\<close> (\<open>impl/relredis.go\<close>)
  acknowledge and delete the entry and release the lock. When an owner dies its lock expires, the
  entry stays pending, and other clients re-queue it: on a keyspace notification (\<open>listenKsp\<close>, then
  \<open>Claim\<close>) or by a periodic scan (\<open>reconcileLBS\<close>); both run \<open>reQueue\<close> (\<open>impl/requeue.go\<close>). On a Redis
  cluster the subscriptions exist per master (\<open>impl/oss.go\<close>) and \<open>ReinitTopology\<close> rebuilds them once the
  cluster is settled (\<open>impl/settled.go\<close>). Notifications reach the caller through a broker goroutine
  (\<open>notifs/broker.go\<close>).

  \<^bold>\<open>How code is modelled.\<close> A pure function is a HOL function. A function that talks to Redis, to
  redsync, to the clock, to a channel, to the metrics recorder or to shared memory is a tree of
  effects (theory Effects): it returns, or issues one effect and continues with the reply. \<open>path p tr a\<close>
  says that the program can issue exactly the effects of the log \<open>tr\<close> with those replies and return
  \<open>a\<close>; it leaves every reply open, so a statement about all paths holds whatever Redis answers and
  whatever other clients do in between. \<open>run\<close> executes a program against a server, and \<open>pstep\<close>
  interleaves any number of programs with steps of the environment. Redis, go-redis, redsync and the
  Prometheus client are not part of the repository: they are what answers the effects. Where a
  statement relies on them, it does so through the locales \<open>pel_server\<close> and \<open>lock_server\<close> of theory
  Tokens (an XACK removes an entry from the pending list at most once; a key that is kept alive
  exists), and theory RedisRef gives a server that meets them. Errors are values of \<open>goerror\<close>;
  a panic is a result of its own. Integers are \<open>int\<close> with \<open>wrap64\<close> where the code can overflow, and
  \<open>32 word\<close> for the counter of the example.

  \<^bold>\<open>Theories.\<close>
  \<^item> Prelude, GoStrings, GoJson, JsonPrint, JsonRound: shared lemmas, and the parts of the Go standard
    library the code uses: splitting, joining, number parsing and printing, UTF-8, \<open>encoding/json\<close> in
    both directions, with the round trip \<open>Unmarshal_Marshal\<close>.
  \<^item> Consts, Errs, Recorder: \<open>configs/consts.go\<close>, \<open>types/errs\<close>, and the interface \<open>metrics/recorder.go\<close>
    as a datatype with one constructor per method.
  \<^item> Notifs: \<open>notifs/lbsmsg.go\<close>, \<open>notifs/relredisnotif.go\<close>; when the mutex key parses back.
  \<^item> Config, Samples, ConfigProps: \<open>impl/opts.go\<close>, \<open>impl/recovery_config.go\<close> and \<open>NewRedisStreamClient\<close>;
    every constructed client satisfies \<open>client_inv\<close>. Samples holds the clients the examples use.
  \<^item> LbsEntry, Requeue: \<open>impl/lbsentry.go\<close>, \<open>impl/requeue.go\<close>; the order of XACK, XADD and XDEL, the
    retry limit and the dead letter queue, on every branch.
  \<^item> Jitter: \<open>nextReconciliationDelay\<close>, with the rounding of the float product.
  \<^item> Recovery: \<open>reconcileLBS\<close>, \<open>runReconciliationLoop\<close> and \<open>Claim\<close>.
  \<^item> Tokens, RedisRef, Races: concurrent recoverers of one entry. The right to re-add an entry is a
    token that an XACK answered with a positive number hands out; interleavings of any number of
    scans, claims and a finishing owner keep at most one.
  \<^item> Lifecycle: \<open>DoneStream\<close>, \<open>Done\<close>, \<open>cleanup\<close>, \<open>popStreamLocksInfo\<close>.
  \<^item> Reader, ReaderProps, Ownership: \<open>readLBSStream\<close> with its backoff, \<open>processLBSMessages\<close>,
    \<open>startExtendingKey\<close>, \<open>fanInPubSub\<close>, \<open>listenKsp\<close>; what is announced, when, and how often.
  \<^item> Settled: \<open>impl/settled.go\<close>; the verdict as an equivalence.
  \<^item> Topology, Interface, TopologyProps: keyspace configuration, subscriptions, \<open>Init\<close> and
    \<open>ReinitTopology\<close>; the interface \<open>types/types.go\<close> as a record of methods and the balance of opened
    and closed subscriptions over the life of a client, proved once in the locale
    \<open>client_lifecycle\<close>.
  \<^item> Broker: \<open>notifs/broker.go\<close> as a transition system of the goroutine, any number of \<open>Send\<close> and
    \<open>Close\<close> calls and the consumer, one shared access per step. It refines a queue (locale
    \<open>message_queue\<close>), an orderly shutdown delivers everything, and the hazards of a racing one are
    shown by executions.
  \<^item> Metrics: \<open>metrics/noop_recorder.go\<close> and \<open>examples/prometheus/recorder.go\<close> (locale \<open>metrics_sink\<close>).
  \<^item> Demo: \<open>examples/load-balancing/main.go\<close>, producer and consumer.

  \<^bold>\<open>Bounds and fuel.\<close> The endless loops \<open>readLoop\<close>, \<open>extendLoop\<close>, \<open>fanInPubSub\<close>, \<open>listenKsp\<close>,
  \<open>reconcileLoop\<close> and \<open>produceLoop\<close> take a bound on their rounds and return a value of its own when it
  is used up. Statements hold for every bound; those that say the loop returns name the bound that is
  enough: \<open>reader_gives_up_after_MaxRetries\<close> for the reader, \<open>drain_terminates\<close> for the broker, which
  needs no fuel. The JSON parser runs on fuel \<open>2 * length + 2\<close>, and the round trip shows that it is
  enough for every value that was printed.

  \<^bold>\<open>Simplifications.\<close> The callbacks of \<open>ForEachMaster\<close> and \<open>ForEachShard\<close> run one after the other, in
  an order the reply chooses; in the code they run concurrently under a mutex. The nodes of a cluster
  have distinct addresses. Durations are integers in nanoseconds, times are nanoseconds since 1970.
  The retry state of the reader is reset after a batch has been processed, as in the code.

  \<^bold>\<open>Not modelled.\<close> Log lines; contexts other than as the question whether they are done; the
  connection pool behind a client; what goes on inside Redis, go-redis, redsync and the Prometheus
  client; help texts and bucket limits of the Prometheus instruments; the data races that Go leaves
  undefined (the maps of the Prometheus recorder, the counter of the example).
\<close>

end
